(* ===== verification/Prelude.thy ===== *)
theory Prelude
  imports Main "HOL-Library.AList" "HOL-Library.Sublist" "HOL-Library.Word"
begin

text \<open>
  Shared vocabulary of the development: Go errors and \<^verbatim>\<open>errors.Is\<close>, the result type of
  fallible operations, \<^verbatim>\<open>io.Reader\<close> as a value, and generic facts on association lists and
  64-bit sums that the component theories use.

  Go strings and byte slices are byte sequences; both are modelled by \<^typ>\<open>string\<close>, whose
  characters are bytes.
\<close>

named_theorems chacha_defs \<open>definitions of small wrappers that proofs unfold\<close>

section \<open>Errors\<close>

text \<open>
  The sentinel errors the program compares with \<^verbatim>\<open>errors.Is\<close>, opaque errors
  (\<^verbatim>\<open>errors.New\<close>, \<^verbatim>\<open>fmt.Errorf\<close> without \<^verbatim>\<open>%w\<close>) and wrapped errors (\<^verbatim>\<open>fmt.Errorf\<close> with
  \<^verbatim>\<open>%w\<close>). Of a format string only the constant text is kept.
\<close>

datatype go_error =
    ErrNotFound
  | ErrNotExist
  | ErrExist
  | ErrNetClosed
  | ErrEOF
  | ErrCanceled
  | Errorf string
  | Wrap string go_error

primrec errors_is :: "go_error \<Rightarrow> go_error \<Rightarrow> bool" where
  "errors_is ErrNotFound t \<longleftrightarrow> t = ErrNotFound"
| "errors_is ErrNotExist t \<longleftrightarrow> t = ErrNotExist"
| "errors_is ErrExist t \<longleftrightarrow> t = ErrExist"
| "errors_is ErrNetClosed t \<longleftrightarrow> t = ErrNetClosed"
| "errors_is ErrEOF t \<longleftrightarrow> t = ErrEOF"
| "errors_is ErrCanceled t \<longleftrightarrow> t = ErrCanceled"
| "errors_is (Errorf m) t \<longleftrightarrow> t = Errorf m"
| "errors_is (Wrap m e) t \<longleftrightarrow> t = Wrap m e \<or> errors_is e t"

lemma errors_is_refl [simp]: "errors_is e e"
  by (cases e) auto

type_synonym 'a result = "go_error + 'a"

text \<open>\<open>try_err r x\<close>: the early return of \<^verbatim>\<open>if err := ...; err != nil { return err }\<close>.\<close>

abbreviation try_err :: "go_error option \<Rightarrow> 'a result \<Rightarrow> 'a result" where
  "try_err r x \<equiv> (case r of Some e \<Rightarrow> Inl e | None \<Rightarrow> x)"

section \<open>Readers\<close>

text \<open>
  An \<^verbatim>\<open>io.Reader\<close> (a request body, a blob, a response body) is the bytes it yields and what
  ends it: \<^verbatim>\<open>io.EOF\<close> (\<^term>\<open>None\<close>) or a read error.
\<close>

record reader =
  rd_data :: string
  rd_err :: "go_error option"

definition bytes_reader :: "string \<Rightarrow> reader" where
  "bytes_reader s = \<lparr>rd_data = s, rd_err = None\<rparr>"

lemma bytes_reader_simps [simp]:
  "rd_data (bytes_reader s) = s" "rd_err (bytes_reader s) = None"
  by (simp_all add: bytes_reader_def)

lemma bytes_reader_inject [simp]: "bytes_reader a = bytes_reader b \<longleftrightarrow> a = b"
  by (simp add: bytes_reader_def)

text \<open>A source of the bytes \<open>d\<close> that may break: the bytes before the failure, and the error.\<close>

definition cut_reader :: "(nat \<times> go_error) option \<Rightarrow> string \<Rightarrow> reader" where
  "cut_reader c d =
     (case c of None \<Rightarrow> bytes_reader d | Some (n, e) \<Rightarrow> \<lparr>rd_data = take n d, rd_err = Some e\<rparr>)"

text \<open>
  \<open>b\<close> reads \<open>d\<close>: what it yields is a beginning of \<open>d\<close>, and all of it unless it ends with an error.
\<close>

definition reads :: "reader \<Rightarrow> string \<Rightarrow> bool" where
  "reads b d \<longleftrightarrow> prefix (rd_data b) d \<and> (rd_err b = None \<longrightarrow> rd_data b = d)"

lemma cut_reader_None [simp]: "cut_reader None d = bytes_reader d"
  by (simp add: cut_reader_def)

lemma reads_cut_reader [simp]: "reads (cut_reader c d) d"
  by (auto simp: reads_def cut_reader_def take_is_prefix split: option.splits)

lemma reads_bytes_reader [simp]: "reads (bytes_reader d) d' \<longleftrightarrow> d = d'"
  by (auto simp: reads_def)

lemma readsD: "reads b d \<Longrightarrow> prefix (rd_data b) d" "reads b d \<Longrightarrow> rd_err b = None \<Longrightarrow> rd_data b = d"
  by (simp_all add: reads_def)

lemma append_Cons_fun [simp]: "(@) (x # xs) = (\<lambda>ys. x # xs @ ys)"
  by (simp add: fun_eq_iff)

section \<open>Association lists\<close>

text \<open>Finite maps with distinct keys: directories, header maps, request tables.\<close>

definition wf_alist :: "('k \<times> 'v) list \<Rightarrow> bool" where
  "wf_alist xs \<longleftrightarrow> distinct (map fst xs)"

lemma wf_alist_Nil [simp, intro]: "wf_alist []"
  by (simp add: wf_alist_def)

lemma wf_alist_update [simp, intro]: "wf_alist xs \<Longrightarrow> wf_alist (AList.update k v xs)"
  by (simp add: wf_alist_def distinct_update)

lemma wf_alist_delete [simp, intro]: "wf_alist xs \<Longrightarrow> wf_alist (AList.delete k xs)"
  by (simp add: wf_alist_def distinct_delete)

lemma wf_alist_map_of_eq:
  "wf_alist xs \<Longrightarrow> map_of xs k = Some v \<longleftrightarrow> (k, v) \<in> set xs"
  by (auto simp: wf_alist_def)

lemma map_of_AList_update [simp]: "map_of (AList.update k v xs) = (map_of xs)(k \<mapsto> v)"
  by (simp add: update_conv')

lemma map_of_AList_delete [simp]: "map_of (AList.delete k xs) = (map_of xs)(k := None)"
  by (simp add: delete_conv')

lemma AList_delete_filter: "AList.delete k xs = filter (\<lambda>p. fst p \<noteq> k) xs"
  by (auto simp: AList.delete_eq intro!: filter_cong)

lemma set_AList_delete: "set (AList.delete k xs) = {p \<in> set xs. fst p \<noteq> k}"
  by (auto simp: AList.delete_eq)

end
