(* ===== verification/GoStrings.thy ===== *)
theory GoStrings
  imports Prelude
begin

text \<open>
  The operations of Go's \<^verbatim>\<open>strings\<close> package the program calls, and \<^verbatim>\<open>strconv.Atoi\<close>: \<^verbatim>\<open>Split\<close> and \<^verbatim>\<open>Cut\<close> at a
  one-byte separator, \<^verbatim>\<open>TrimSpace\<close>, \<^verbatim>\<open>EqualFold\<close>, \<^verbatim>\<open>Contains\<close>, \<^verbatim>\<open>ReplaceAll\<close>, and their laws.
\<close>

section \<open>Splitting\<close>

text \<open>\<^verbatim>\<open>strings.Cut(s, sep)\<close> for a one-byte separator: before, after, found.\<close>

fun strings_cut :: "char \<Rightarrow> string \<Rightarrow> string \<times> string \<times> bool" where
  "strings_cut c [] = ([], [], False)"
| "strings_cut c (x # xs) =
     (if x = c then ([], xs, True)
      else (case strings_cut c xs of (b, a, f) \<Rightarrow> (x # b, a, f)))"

text \<open>\<^verbatim>\<open>strings.Split(s, sep)\<close> for a one-byte separator; the result is never empty.\<close>

fun strings_split :: "char \<Rightarrow> string \<Rightarrow> string list" where
  "strings_split c [] = [[]]"
| "strings_split c (x # xs) =
     (if x = c then [] # strings_split c xs
      else (case strings_split c xs of [] \<Rightarrow> [[x]] | y # ys \<Rightarrow> (x # y) # ys))"

lemma strings_split_not_Nil [simp]: "strings_split c s \<noteq> []"
  by (induction s) (auto split: list.splits)

lemma strings_cut_no_sep [simp]: "c \<notin> set s \<Longrightarrow> strings_cut c s = (s, [], False)"
  by (induction s) auto

lemma strings_cut_append:
  "c \<notin> set b \<Longrightarrow> strings_cut c (b @ c # a) = (b, a, True)"
  by (induction b) auto

lemma strings_cut_length:
  "strings_cut c s = (b, a, f) \<Longrightarrow> s \<noteq> [] \<Longrightarrow> length a < length s"
proof (induction s arbitrary: b a f)
  case (Cons x xs)
  then show ?case
    by (cases "xs = []") (auto split: if_splits prod.splits intro: less_SucI)
qed simp

lemma strings_split_no_sep [simp]: "c \<notin> set s \<Longrightarrow> strings_split c s = [s]"
  by (induction s) auto

lemma strings_split_append:
  "c \<notin> set b \<Longrightarrow> strings_split c (b @ c # a) = b # strings_split c a"
  by (induction b) auto

lemma strings_split_sep_free: "w \<in> set (strings_split c s) \<Longrightarrow> c \<notin> set w"
  by (induction s arbitrary: w) (fastforce split: if_splits list.splits)+

text \<open>Splitting undoes joining.\<close>

fun strings_join :: "char \<Rightarrow> string list \<Rightarrow> string" where
  "strings_join c [] = []"
| "strings_join c [w] = w"
| "strings_join c (w # ws) = w @ c # strings_join c ws"

lemma strings_split_join:
  "ws \<noteq> [] \<Longrightarrow> (\<And>w. w \<in> set ws \<Longrightarrow> c \<notin> set w) \<Longrightarrow> strings_split c (strings_join c ws) = ws"
  by (induction c ws rule: strings_join.induct) (auto simp: strings_split_append)

section \<open>Trimming, folding, searching\<close>

text \<open>
  The encodings of the characters \<^verbatim>\<open>unicode.IsSpace\<close> accepts: six ASCII characters and the
  UTF-8 sequences of U+0085, U+00A0, U+1680, U+2000 to U+200A, U+2028, U+2029, U+202F, U+205F
  and U+3000.
\<close>

definition space_seqs :: "string list" where
  "space_seqs =
     [[CHR 0x20], [CHR 0x09], [CHR 0x0A], [CHR 0x0B], [CHR 0x0C], [CHR 0x0D],
      [CHR 0xC2, CHR 0x85], [CHR 0xC2, CHR 0xA0], [CHR 0xE1, CHR 0x9A, CHR 0x80],
      [CHR 0xE2, CHR 0x80, CHR 0x80], [CHR 0xE2, CHR 0x80, CHR 0x81],
      [CHR 0xE2, CHR 0x80, CHR 0x82], [CHR 0xE2, CHR 0x80, CHR 0x83],
      [CHR 0xE2, CHR 0x80, CHR 0x84], [CHR 0xE2, CHR 0x80, CHR 0x85],
      [CHR 0xE2, CHR 0x80, CHR 0x86], [CHR 0xE2, CHR 0x80, CHR 0x87],
      [CHR 0xE2, CHR 0x80, CHR 0x88], [CHR 0xE2, CHR 0x80, CHR 0x89],
      [CHR 0xE2, CHR 0x80, CHR 0x8A], [CHR 0xE2, CHR 0x80, CHR 0xA8],
      [CHR 0xE2, CHR 0x80, CHR 0xA9], [CHR 0xE2, CHR 0x80, CHR 0xAF],
      [CHR 0xE2, CHR 0x81, CHR 0x9F], [CHR 0xE3, CHR 0x80, CHR 0x80]]"

text \<open>Drop sequences of a set from the front, as long as one matches.\<close>

fun has_prefix :: "string \<Rightarrow> string \<Rightarrow> bool" where
  "has_prefix [] s \<longleftrightarrow> True"
| "has_prefix (p # ps) [] \<longleftrightarrow> False"
| "has_prefix (p # ps) (c # cs) \<longleftrightarrow> p = c \<and> has_prefix ps cs"

lemma has_prefix_iff: "has_prefix p s \<longleftrightarrow> (\<exists>r. s = p @ r)"
  by (induction p s rule: has_prefix.induct) auto

fun trim_front :: "nat \<Rightarrow> string list \<Rightarrow> string \<Rightarrow> string" where
  "trim_front 0 seqs s = s"
| "trim_front (Suc n) seqs s =
     (case find (\<lambda>q. has_prefix q s) seqs of
        None \<Rightarrow> s
      | Some q \<Rightarrow> trim_front n seqs (drop (length q) s))"

text \<open>\<^verbatim>\<open>strings.TrimSpace\<close>; each round drops at least one byte, so the length is fuel enough.\<close>

definition trim_space :: "string \<Rightarrow> string" where
  "trim_space s =
     (let l = trim_front (length s) space_seqs s
      in rev (trim_front (length l) (map rev space_seqs) (rev l)))"

text \<open>
  \<^verbatim>\<open>strings.EqualFold(s, t)\<close> for an ASCII \<open>t\<close>: letters compare without case, and of the
  characters outside ASCII only U+017F and U+212A fold to an ASCII letter (s and k).
\<close>

definition lower_char :: "char \<Rightarrow> char" where
  "lower_char c =
     (if 65 \<le> (of_char c :: nat) \<and> (of_char c :: nat) \<le> 90 then char_of ((of_char c :: nat) + 32) else c)"

definition upper_char :: "char \<Rightarrow> char" where
  "upper_char c =
     (if 97 \<le> (of_char c :: nat) \<and> (of_char c :: nat) \<le> 122 then char_of ((of_char c :: nat) - 32) else c)"

fun fold_key :: "string \<Rightarrow> string" where
  "fold_key (a # b # c # s) =
     (if a = CHR 0xC5 \<and> b = CHR 0xBF then CHR ''s'' # fold_key (c # s)
      else if a = CHR 0xE2 \<and> b = CHR 0x84 \<and> c = CHR 0xAA then CHR ''k'' # fold_key s
      else lower_char a # fold_key (b # c # s))"
| "fold_key [a, b] =
     (if a = CHR 0xC5 \<and> b = CHR 0xBF then ''s'' else [lower_char a, lower_char b])"
| "fold_key [a] = [lower_char a]"
| "fold_key [] = []"

definition equal_fold :: "string \<Rightarrow> string \<Rightarrow> bool" where
  "equal_fold s t \<longleftrightarrow> fold_key s = fold_key t"

fun strings_contains :: "string \<Rightarrow> string \<Rightarrow> bool" where
  "strings_contains [] sub \<longleftrightarrow> sub = []"
| "strings_contains (c # s) sub \<longleftrightarrow> has_prefix sub (c # s) \<or> strings_contains s sub"

lemma strings_contains_iff: "strings_contains s sub \<longleftrightarrow> sublist sub s"
proof (induction s)
  case (Cons c s)
  then show ?case
    by (simp add: sublist_Cons_right has_prefix_iff prefix_def)
qed simp

text \<open>\<^verbatim>\<open>strings.ReplaceAll(s, old, new)\<close> for a non-empty \<open>old\<close>.\<close>

fun replace_all :: "nat \<Rightarrow> string \<Rightarrow> string \<Rightarrow> string \<Rightarrow> string" where
  "replace_all 0 old new s = s"
| "replace_all (Suc n) old new s =
     (if has_prefix old s then new @ replace_all n old new (drop (length old) s)
      else (case s of [] \<Rightarrow> [] | c # cs \<Rightarrow> c # replace_all n old new cs))"

definition strings_replace_all :: "string \<Rightarrow> string \<Rightarrow> string \<Rightarrow> string" where
  "strings_replace_all s old new = replace_all (Suc (length s)) old new s"

text \<open>The fuel of both loops is enough: more of it changes nothing.\<close>

lemma find_prefix_nonempty: "find (\<lambda>q. has_prefix q s) seqs = Some q \<Longrightarrow> [] \<notin> set seqs \<Longrightarrow> 0 < length q \<and> length q \<le> length s"
proof -
  assume "find (\<lambda>q. has_prefix q s) seqs = Some q" and ne: "[] \<notin> set seqs"
  then have "q \<in> set seqs" "has_prefix q s" by (auto simp: find_Some_iff)
  with ne show ?thesis by (cases q) (auto simp: has_prefix_iff)
qed

lemma trim_front_enough:
  "[] \<notin> set seqs \<Longrightarrow> length s \<le> n \<Longrightarrow> length s \<le> m \<Longrightarrow> trim_front n seqs s = trim_front m seqs s"
proof (induction n arbitrary: m s)
  case 0
  then have "find (\<lambda>q. has_prefix q []) seqs = None" using find_prefix_nonempty [of "[]" seqs] by fastforce
  with 0 show ?case by (cases m) simp_all
next
  case (Suc n)
  show ?case
  proof (cases "find (\<lambda>q. has_prefix q s) seqs")
    case None
    with Suc.prems show ?thesis by (cases m) simp_all
  next
    case (Some q)
    note q = find_prefix_nonempty [OF Some Suc.prems(1)]
    with Suc.prems obtain k where m: "m = Suc k" by (cases m) auto
    have "length (drop (length q) s) \<le> n" "length (drop (length q) s) \<le> k" 
      unfolding length_drop using q Suc.prems m by linarith+
    from Suc.IH [OF Suc.prems(1) this] Some m show ?thesis by simp
  qed
qed

lemma replace_all_enough:
  "old \<noteq> [] \<Longrightarrow> length s < n \<Longrightarrow> length s < m \<Longrightarrow> replace_all n old new s = replace_all m old new s"
proof (induction n arbitrary: m s)
  case (Suc n)
  then obtain k where m: "m = Suc k" by (cases m) auto
  show ?case
  proof (cases "has_prefix old s")
    case True
    then have "length old \<le> length s" "0 < length old" using Suc.prems(1) by (auto simp: has_prefix_iff)
    then have "length (drop (length old) s) < n" "length (drop (length old) s) < k"
      unfolding length_drop using Suc.prems m by linarith+
    from Suc.IH [OF Suc.prems(1) this] True m show ?thesis by simp
  next
    case False
    then show ?thesis using Suc.IH [OF Suc.prems(1), of "tl s" k] Suc.prems m by (cases s) simp_all
  qed
qed simp

lemma trim_space_example: "trim_space '' no-store '' = ''no-store''"
  by code_simp

lemma equal_fold_example: "equal_fold ''No-STORE'' ''no-store'' \<and> \<not> equal_fold ''no-stor'' ''no-store''"
  by code_simp

section \<open>Numbers\<close>

definition digit_val :: "char \<Rightarrow> nat option" where
  "digit_val c = (if 48 \<le> (of_char c :: nat) \<and> (of_char c :: nat) \<le> 57 then Some (of_char c - 48) else None)"

fun digits_val :: "nat \<Rightarrow> string \<Rightarrow> nat option" where
  "digits_val acc [] = Some acc"
| "digits_val acc (c # s) = (case digit_val c of None \<Rightarrow> None | Some d \<Rightarrow> digits_val (10 * acc + d) s)"

text \<open>\<^verbatim>\<open>strconv.Atoi\<close>, which is \<^verbatim>\<open>ParseInt\<close> with base 10 and 64 bits: an optional sign, at least one decimal digit, and the range of \<^verbatim>\<open>int64\<close>.\<close>

definition atoi :: "string \<Rightarrow> int option" where
  "atoi s =
     (let neg = has_prefix ''-'' s; ds = (if neg \<or> has_prefix ''+'' s then tl s else s) in
      if ds = [] then None
      else (case digits_val 0 ds of
              None \<Rightarrow> None
            | Some n \<Rightarrow>
                (let i = (if neg then - int n else int n) in
                 if - (2 ^ 63) \<le> i \<and> i < 2 ^ 63 then Some i else None)))"

end
