(* ===== verification/GoJson.thy ===== *)
theory GoJson
  imports GoEncoding
begin

text \<open>
  \<^verbatim>\<open>encoding/json\<close> as the program uses it: the encoder's string quoting (with HTML escaping, as
  \<^verbatim>\<open>json.Marshal\<close> and \<^verbatim>\<open>json.Encoder\<close> do by default), a parser for JSON texts, and the round trip
  of quoted strings. Quoting works rune by rune: bytes that are not valid UTF-8 come out as
  U+FFFD, so only valid UTF-8 survives the trip.
\<close>

section \<open>UTF-8\<close>

definition between :: "nat \<Rightarrow> char \<Rightarrow> nat \<Rightarrow> bool" where
  "between lo c hi \<longleftrightarrow> lo \<le> byte c \<and> byte c \<le> hi"

text \<open>The range the second byte of a sequence has to be in, given the first (\<^verbatim>\<open>utf8.acceptRanges\<close>).\<close>

definition second_ok :: "char \<Rightarrow> char \<Rightarrow> bool" where
  "second_ok a b \<longleftrightarrow>
     (if byte a = 0xE0 then between 0xA0 b 0xBF
      else if byte a = 0xED then between 0x80 b 0x9F
      else if byte a = 0xF0 then between 0x90 b 0xBF
      else if byte a = 0xF4 then between 0x80 b 0x8F
      else between 0x80 b 0xBF)"

text \<open>\<^verbatim>\<open>utf8.DecodeRune\<close>: the length of the rune at the front, 0 when it is not valid UTF-8.\<close>

fun utf8_len :: "string \<Rightarrow> nat" where
  "utf8_len [] = 0"
| "utf8_len (a # s) =
     (if byte a < 0x80 then 1
      else if between 0xC2 a 0xDF then
        (case s of b # _ \<Rightarrow> if second_ok a b then 2 else 0 | _ \<Rightarrow> 0)
      else if between 0xE0 a 0xEF then
        (case s of b # c # _ \<Rightarrow> if second_ok a b \<and> between 0x80 c 0xBF then 3 else 0 | _ \<Rightarrow> 0)
      else if between 0xF0 a 0xF4 then
        (case s of b # c # d # _ \<Rightarrow>
           if second_ok a b \<and> between 0x80 c 0xBF \<and> between 0x80 d 0xBF then 4 else 0 | _ \<Rightarrow> 0)
      else 0)"

lemma utf8_len_le: "utf8_len s \<le> length s"
  by (cases s) (auto split: list.splits)

text \<open>A string as the runes (\<open>Some\<close>) and the invalid bytes (\<open>None\<close>) a \<^verbatim>\<open>range\<close> loop sees.\<close>

function (sequential) runes :: "string \<Rightarrow> string option list" where
  "runes [] = []"
| "runes (a # s) =
     (if utf8_len (a # s) = 0 then None # runes s
      else Some (take (utf8_len (a # s)) (a # s)) # runes (drop (utf8_len (a # s)) (a # s)))"
  by pat_completeness auto
termination
  by (relation "measure length") auto

declare runes.simps(2) [simp del]

definition valid_utf8 :: "string \<Rightarrow> bool" where
  "valid_utf8 s \<longleftrightarrow> list_all (\<lambda>r. r \<noteq> None) (runes s)"

lemma valid_utf8_Nil [simp]: "valid_utf8 []"
  by (simp add: valid_utf8_def)

lemma valid_utf8_step:
  "valid_utf8 (a # s) \<longleftrightarrow>
     utf8_len (a # s) \<noteq> 0 \<and> valid_utf8 (drop (utf8_len (a # s)) (a # s))"
  by (simp add: valid_utf8_def runes.simps(2) [of a s])

definition is_ascii :: "string \<Rightarrow> bool" where
  "is_ascii s \<longleftrightarrow> list_all (\<lambda>c. byte c < 0x80) s"

lemma valid_utf8_ascii: "is_ascii s \<Longrightarrow> valid_utf8 s"
  by (induction s) (simp_all add: is_ascii_def valid_utf8_step)

text \<open>What is left of a string once every invalid byte is replaced by U+FFFD.\<close>

definition replacement :: string where
  "replacement = [CHR 0xEF, CHR 0xBF, CHR 0xBD]"

definition coerce_utf8 :: "string \<Rightarrow> string" where
  "coerce_utf8 s = concat (map (\<lambda>r. case r of None \<Rightarrow> replacement | Some x \<Rightarrow> x) (runes s))"

lemma coerce_utf8_Nil [simp]: "coerce_utf8 [] = []"
  by (simp add: coerce_utf8_def)

lemma coerce_utf8_step:
  "coerce_utf8 (a # s) =
     (if utf8_len (a # s) = 0 then replacement @ coerce_utf8 s
      else take (utf8_len (a # s)) (a # s) @ coerce_utf8 (drop (utf8_len (a # s)) (a # s)))"
  by (simp add: coerce_utf8_def runes.simps(2) [of a s] del: utf8_len.simps)

lemma coerce_utf8_valid: "valid_utf8 s \<Longrightarrow> coerce_utf8 s = s"
proof (induction s rule: runes.induct)
  case (2 a s)
  then show ?case by (simp add: valid_utf8_step coerce_utf8_step del: utf8_len.simps)
qed simp

lemma utf8_len_take:
  "utf8_len s \<noteq> 0 \<Longrightarrow> utf8_len (take (utf8_len s) s @ t) = utf8_len s"
  by (cases s) (auto split: list.splits if_splits)

lemma valid_utf8_append_rune:
  assumes "utf8_len r = length r" and "r \<noteq> []" and "valid_utf8 t"
  shows "valid_utf8 (r @ t)"
proof -
  obtain a u where r: "r = a # u" using assms(2) by (cases r) auto
  have "utf8_len (r @ t) = length r"
    using utf8_len_take [of r t] assms(1,2) by simp
  then show ?thesis using assms(3) r by (simp add: valid_utf8_step del: utf8_len.simps)
qed

lemma valid_utf8_coerce: "valid_utf8 (coerce_utf8 s)"
proof (induction s rule: runes.induct)
  case (2 a s)
  let ?k = "utf8_len (a # s)"
  show ?case
  proof (cases "?k = 0")
    case True
    have "utf8_len replacement = length replacement"
      by (simp add: replacement_def between_def second_ok_def)
    moreover have "replacement \<noteq> []" by (simp add: replacement_def)
    ultimately show ?thesis
      using True 2(1) by (simp add: coerce_utf8_step valid_utf8_append_rune del: utf8_len.simps)
  next
    case False
    let ?r = "take ?k (a # s)"
    have "length ?r = ?k" using utf8_len_le [of "a # s"] by (simp del: utf8_len.simps)
    moreover have "utf8_len ?r = ?k" using utf8_len_take [OF False, of "[]"] by simp
    moreover have "?r \<noteq> []" using False by (simp del: utf8_len.simps)
    ultimately show ?thesis
      using False 2(2) by (simp add: coerce_utf8_step valid_utf8_append_rune del: utf8_len.simps)
  qed
qed simp

lemma coerce_utf8_idem [simp]: "coerce_utf8 (coerce_utf8 s) = coerce_utf8 s"
  by (rule coerce_utf8_valid) (rule valid_utf8_coerce)

lemma coerce_utf8_eq_Nil [simp]: "coerce_utf8 s = [] \<longleftrightarrow> s = []"
  by (cases s) (simp_all add: coerce_utf8_step replacement_def del: utf8_len.simps)

section \<open>Quoting strings\<close>

definition hex4 :: "nat \<Rightarrow> string" where
  "hex4 n = [hex_digits ! (n div 4096 mod 16), hex_digits ! (n div 256 mod 16),
             hex_digits ! (n div 16 mod 16), hex_digits ! (n mod 16)]"

definition bslash :: char where
  "bslash = CHR 0x5C"

definition quote :: char where
  "quote = CHR 0x22"

text \<open>One ASCII character in a quoted string (\<^verbatim>\<open>htmlSafeSet\<close> and the switch after it).\<close>

definition escape_ascii :: "char \<Rightarrow> string" where
  "escape_ascii c =
     (if c = bslash \<or> c = quote then [bslash, c]
      else if c = CHR 0x08 then bslash # ''b''
      else if c = CHR 0x0C then bslash # ''f''
      else if c = CHR 0x0A then bslash # ''n''
      else if c = CHR 0x0D then bslash # ''r''
      else if c = CHR 0x09 then bslash # ''t''
      else if byte c < 0x20 \<or> c \<in> set ''<>&'' then bslash # CHR ''u'' # hex4 (byte c)
      else [c])"

fun escape_rune :: "string option \<Rightarrow> string" where
  "escape_rune None = bslash # ''ufffd''"
| "escape_rune (Some [c]) = escape_ascii c"
| "escape_rune (Some r) =
     (if r = [CHR 0xE2, CHR 0x80, CHR 0xA8] then bslash # ''u2028''
      else if r = [CHR 0xE2, CHR 0x80, CHR 0xA9] then bslash # ''u2029''
      else r)"

definition json_escape :: "string \<Rightarrow> string" where
  "json_escape s = concat (map escape_rune (runes s))"

definition json_string :: "string \<Rightarrow> string" where
  "json_string s = quote # json_escape s @ [quote]"

section \<open>Parsing\<close>

datatype json =
    JNull
  | JBool bool
  | JNum string
  | JStr string
  | JArr "json list"
  | JObj "(string \<times> json) list"

fun skip_ws :: "string \<Rightarrow> string" where
  "skip_ws [] = []"
| "skip_ws (c # s) = (if c \<in> {CHR 0x20, CHR 0x09, CHR 0x0A, CHR 0x0D} then skip_ws s else c # s)"

definition hex_val :: "char \<Rightarrow> nat option" where
  "hex_val c =
     (if between 48 c 57 then Some (byte c - 48)
      else if between 97 c 102 then Some (byte c - 87)
      else if between 65 c 70 then Some (byte c - 55) else None)"

fun parse_hex4 :: "string \<Rightarrow> (nat \<times> string) option" where
  "parse_hex4 (a # b # c # d # s) =
     (case (hex_val a, hex_val b, hex_val c, hex_val d) of
        (Some x, Some y, Some z, Some w) \<Rightarrow> Some (x * 4096 + y * 256 + z * 16 + w, s)
      | _ \<Rightarrow> None)"
| "parse_hex4 _ = None"

text \<open>\<^verbatim>\<open>utf8.AppendRune\<close>\<close>

definition encode_rune :: "nat \<Rightarrow> string" where
  "encode_rune n =
     (if n < 0x80 then [char_of n]
      else if n < 0x800 then [char_of (0xC0 + n div 64), char_of (0x80 + n mod 64)]
      else if 0xD800 \<le> n \<and> n \<le> 0xDFFF \<or> n > 0x10FFFF then [CHR 0xEF, CHR 0xBF, CHR 0xBD]
      else if n < 0x10000 then
        [char_of (0xE0 + n div 4096), char_of (0x80 + n div 64 mod 64), char_of (0x80 + n mod 64)]
      else
        [char_of (0xF0 + n div 262144), char_of (0x80 + n div 4096 mod 64),
         char_of (0x80 + n div 64 mod 64), char_of (0x80 + n mod 64)])"

text \<open>
  A \<^verbatim>\<open>\u\<close> escape and what follows it: a surrogate pair is one rune, a lone surrogate U+FFFD.
\<close>

definition unescape_u :: "string \<Rightarrow> (string \<times> string) option" where
  "unescape_u s =
     (case parse_hex4 s of
        None \<Rightarrow> None
      | Some (n, t) \<Rightarrow>
          if \<not> (0xD800 \<le> n \<and> n \<le> 0xDFFF) then Some (encode_rune n, t)
          else (case t of
                  x # y # u \<Rightarrow>
                    if x = bslash \<and> y = CHR ''u'' then
                      (case parse_hex4 u of
                         Some (m, v) \<Rightarrow>
                           if n < 0xDC00 \<and> 0xDC00 \<le> m \<and> m \<le> 0xDFFF
                           then Some (encode_rune ((n - 0xD800) * 1024 + (m - 0xDC00) + 0x10000), v)
                           else Some (encode_rune 0xFFFD, t)
                       | None \<Rightarrow> Some (encode_rune 0xFFFD, t))
                    else Some (encode_rune 0xFFFD, t)
                | _ \<Rightarrow> Some (encode_rune 0xFFFD, t)))"

definition simple_escape :: "char \<Rightarrow> char option" where
  "simple_escape e =
     (if e = quote \<or> e = bslash \<or> e = CHR ''/'' then Some e
      else if e = CHR ''b'' then Some (CHR 0x08)
      else if e = CHR ''f'' then Some (CHR 0x0C)
      else if e = CHR ''n'' then Some (CHR 0x0A)
      else if e = CHR ''r'' then Some (CHR 0x0D)
      else if e = CHR ''t'' then Some (CHR 0x09)
      else None)"

text \<open>The rest of a quoted string after its opening quote: the decoded text and what follows it.\<close>

fun parse_str :: "nat \<Rightarrow> string \<Rightarrow> (string \<times> string) option" where
  "parse_str 0 s = None"
| "parse_str (Suc n) [] = None"
| "parse_str (Suc n) (c # s) =
     (if c = quote then Some ([], s)
      else if c = bslash then
        (case s of
           [] \<Rightarrow> None
         | e # t \<Rightarrow>
             (case simple_escape e of
                Some d \<Rightarrow> map_option (apfst (\<lambda>x. d # x)) (parse_str n t)
              | None \<Rightarrow>
                  if e = CHR ''u'' then
                    (case unescape_u t of
                       None \<Rightarrow> None
                     | Some (r, u) \<Rightarrow> map_option (apfst (\<lambda>x. r @ x)) (parse_str n u))
                  else None))
      else if byte c < 0x20 then None
      else if utf8_len (c # s) = 0
        then map_option (apfst (\<lambda>x. encode_rune 0xFFFD @ x)) (parse_str n s)
      else map_option (apfst (\<lambda>x. take (utf8_len (c # s)) (c # s) @ x))
             (parse_str n (drop (utf8_len (c # s)) (c # s))))"

fun take_digits :: "string \<Rightarrow> string \<times> string" where
  "take_digits [] = ([], [])"
| "take_digits (c # s) =
     (if between 48 c 57 then apfst (\<lambda>d. c # d) (take_digits s) else ([], c # s))"

definition parse_num :: "string \<Rightarrow> (json \<times> string) option" where
  "parse_num s =
     (let (sg, s1) = (case s of c # t \<Rightarrow> if c = CHR ''-'' then ([c], t) else ([], s) | [] \<Rightarrow> ([], s));
          (ip, s2) = (case s1 of c # t \<Rightarrow> if c = CHR ''0'' then ([c], t) else take_digits s1
                      | [] \<Rightarrow> ([], []));
          (fp, s3) = (case s2 of c # t \<Rightarrow> if c = CHR ''.'' then apfst (\<lambda>d. c # d) (take_digits t)
                      else ([], s2) | [] \<Rightarrow> ([], []));
          (ex, s4) = (case s3 of
             c # t \<Rightarrow>
               if c = CHR ''e'' \<or> c = CHR ''E'' then
                 (case t of
                    d # u \<Rightarrow> if d = CHR ''+'' \<or> d = CHR ''-''
                            then apfst (\<lambda>x. c # d # x) (take_digits u)
                            else apfst (\<lambda>x. c # x) (take_digits t)
                  | [] \<Rightarrow> ([c], []))
               else ([], s3)
           | [] \<Rightarrow> ([], []))
      in if ip = [] \<or> fp = ''.'' \<or> (ex \<noteq> [] \<and> \<not> between 48 (last ex) 57) then None
         else Some (JNum (sg @ ip @ fp @ ex), s4))"

fun parse_value :: "nat \<Rightarrow> string \<Rightarrow> (json \<times> string) option"
  and parse_members :: "nat \<Rightarrow> string \<Rightarrow> ((string \<times> json) list \<times> string) option"
  and parse_elements :: "nat \<Rightarrow> string \<Rightarrow> (json list \<times> string) option" where
  "parse_value 0 s = None"
| "parse_value (Suc n) s =
     (case skip_ws s of
        [] \<Rightarrow> None
      | c # r \<Rightarrow>
          if c = quote then map_option (apfst JStr) (parse_str (Suc (length r)) r)
          else if c = CHR ''{'' then
            (case skip_ws r of
               [] \<Rightarrow> None
             | d # t \<Rightarrow> if d = CHR ''}'' then Some (JObj [], t)
                      else map_option (apfst JObj) (parse_members n r))
          else if c = CHR ''['' then
            (case skip_ws r of
               [] \<Rightarrow> None
             | d # t \<Rightarrow> if d = CHR '']'' then Some (JArr [], t)
                      else map_option (apfst JArr) (parse_elements n r))
          else if has_prefix ''null'' (c # r) then Some (JNull, drop 3 r)
          else if has_prefix ''true'' (c # r) then Some (JBool True, drop 3 r)
          else if has_prefix ''false'' (c # r) then Some (JBool False, drop 4 r)
          else parse_num (c # r))"
| "parse_members 0 s = None"
| "parse_members (Suc n) s =
     (case skip_ws s of
        [] \<Rightarrow> None
      | c # r \<Rightarrow>
          if c \<noteq> quote then None
          else (case parse_str (Suc (length r)) r of
                  None \<Rightarrow> None
                | Some (k, t) \<Rightarrow>
                    (case skip_ws t of
                       [] \<Rightarrow> None
                     | d # u \<Rightarrow>
                         if d \<noteq> CHR '':'' then None
                         else (case parse_value n u of
                                 None \<Rightarrow> None
                               | Some (v, w) \<Rightarrow>
                                   (case skip_ws w of
                                      [] \<Rightarrow> None
                                    | e # x \<Rightarrow>
                                        if e = CHR ''}'' then Some ([(k, v)], x)
                                        else if e = CHR '','' then
                                          map_option (apfst (\<lambda>ms. (k, v) # ms)) (parse_members n x)
                                        else None)))))"
| "parse_elements 0 s = None"
| "parse_elements (Suc n) s =
     (case parse_value n s of
        None \<Rightarrow> None
      | Some (v, w) \<Rightarrow>
          (case skip_ws w of
             [] \<Rightarrow> None
           | e # x \<Rightarrow>
               if e = CHR '']'' then Some ([v], x)
               else if e = CHR '','' then map_option (apfst (\<lambda>vs. v # vs)) (parse_elements n x)
               else None))"

text \<open>
  \<^verbatim>\<open>json.Unmarshal\<close> takes one value and nothing after it; \<^verbatim>\<open>Decoder.Decode\<close> takes the first value.
  Every call of the parser consumes a byte, so the length of the text is fuel enough.
\<close>

definition json_unmarshal :: "string \<Rightarrow> json result" where
  "json_unmarshal s =
     (case parse_value (Suc (length s)) s of
        None \<Rightarrow> Inl (Errorf ''json: syntax error'')
      | Some (v, t) \<Rightarrow> if skip_ws t = [] then Inr v else Inl (Errorf ''json: syntax error''))"

definition json_decode :: "string \<Rightarrow> json result" where
  "json_decode s =
     (if skip_ws s = [] then Inl ErrEOF
      else (case parse_value (Suc (length s)) s of
              None \<Rightarrow> Inl (Errorf ''json: syntax error'')
            | Some (v, _) \<Rightarrow> Inr v))"

text \<open>
  Decoding a value into a Go \<^verbatim>\<open>string\<close> field: \<^verbatim>\<open>null\<close> leaves it as it is, a value of another type is
  an error that is reported at the end.
\<close>

definition string_field :: "json \<Rightarrow> string \<Rightarrow> go_error option \<times> string" where
  "string_field v old =
     (case v of
        JStr s \<Rightarrow> (None, s)
      | JNull \<Rightarrow> (None, old)
      | _ \<Rightarrow> (Some (Errorf ''json: cannot unmarshal into string''), old))"

section \<open>The round trip of quoted strings\<close>

lemma hex_val_digit: "n < 16 \<Longrightarrow> hex_val (hex_digits ! n) = Some n"
proof -
  have "list_all (\<lambda>n. hex_val (hex_digits ! n) = Some n) [0..<16]" by code_simp
  then show "n < 16 \<Longrightarrow> hex_val (hex_digits ! n) = Some n" by (simp add: list_all_iff)
qed

lemma hex4_value:
  fixes n :: nat
  assumes "n < 65536"
  shows "n div 4096 mod 16 * 4096 + n div 256 mod 16 * 256 + n div 16 mod 16 * 16 + n mod 16 = n"
proof -
  have "n div 4096 mod 16 = n div 4096" using assms by (intro mod_less) linarith
  moreover have "n div 4096 * 16 + n div 256 mod 16 = n div 256"
    using div_mult_mod_eq [of "n div 256" 16] by (simp add: div_mult2_eq [symmetric])
  moreover have "n div 256 * 16 + n div 16 mod 16 = n div 16"
    using div_mult_mod_eq [of "n div 16" 16] by (simp add: div_mult2_eq [symmetric])
  ultimately show ?thesis using div_mult_mod_eq [of n 16] by linarith
qed

lemma parse_hex4_hex4: "n < 65536 \<Longrightarrow> parse_hex4 (hex4 n @ t) = Some (n, t)"
  using hex4_value [of n] by (simp add: hex4_def hex_val_digit)

lemma unescape_u_ascii: "byte c < 0x80 \<Longrightarrow> unescape_u (hex4 (byte c) @ t) = Some ([c], t)"
  by (simp add: unescape_u_def parse_hex4_hex4 encode_rune_def)

lemma utf8_len_ascii [simp]: "byte c < 0x80 \<Longrightarrow> utf8_len (c # t) = 1"
  by simp

lemma parse_str_ascii:
  assumes "byte c < 0x80"
  shows "parse_str (Suc n) (escape_ascii c @ t) = map_option (apfst (\<lambda>x. c # x)) (parse_str n t)"
proof (cases "byte c < 0x20 \<or> c \<in> set ''<>&''")
  case True
  have "simple_escape (CHR ''u'') = None"
    by (simp add: simple_escape_def quote_def bslash_def)
  moreover have "simple_escape (CHR ''b'') = Some (CHR 0x08)" "simple_escape (CHR ''f'') = Some (CHR 0x0C)"
    "simple_escape (CHR ''n'') = Some (CHR 0x0A)" "simple_escape (CHR ''r'') = Some (CHR 0x0D)"
    "simple_escape (CHR ''t'') = Some (CHR 0x09)" "bslash \<noteq> quote"
    "simple_escape bslash = Some bslash" "simple_escape quote = Some quote"
    by (simp_all add: simple_escape_def quote_def bslash_def)
  ultimately show ?thesis
    using assms True unescape_u_ascii [OF assms, of t]
    by (simp add: escape_ascii_def)
next
  case False
  have "bslash \<noteq> quote" "simple_escape bslash = Some bslash" "simple_escape quote = Some quote"
    by (simp_all add: simple_escape_def quote_def bslash_def)
  moreover have "c \<notin> {CHR 0x08, CHR 0x0C, CHR 0x0A, CHR 0x0D, CHR 0x09}"
    using False by auto
  ultimately show ?thesis
    using assms False by (auto simp: escape_ascii_def simp del: utf8_len.simps)
qed

lemma take_utf8_cases:
  assumes "utf8_len (a # s) \<noteq> 0"
  obtains "byte a < 0x80" "utf8_len (a # s) = 1"
  | b r where "0x80 \<le> byte a" "take (utf8_len (a # s)) (a # s) = a # b # r"
  using assms by (cases "byte a < 0x80") (auto split: list.splits if_splits)

lemma parse_str_rune:
  assumes "utf8_len (a # s) \<noteq> 0"
  shows "parse_str (Suc n) (escape_rune (Some (take (utf8_len (a # s)) (a # s))) @ t) =
    map_option (apfst (\<lambda>x. take (utf8_len (a # s)) (a # s) @ x)) (parse_str n t)"
  using assms
proof (cases rule: take_utf8_cases)
  case 1
  then show ?thesis using parse_str_ascii [of a n t] by simp
next
  case (2 b r)
  let ?r = "a # b # r"
  have len: "utf8_len (?r @ t) = length ?r"
    using utf8_len_take [OF assms, of t] 2 utf8_len_le [of "a # s"]
    by (metis length_take min.absorb2)
  have a: "a \<noteq> quote" "a \<noteq> bslash" "\<not> byte a < 0x20"
    using 2(1) by (auto simp: quote_def bslash_def)
  have "encode_rune 0x2028 = [CHR 0xE2, CHR 0x80, CHR 0xA8]"
       "encode_rune 0x2029 = [CHR 0xE2, CHR 0x80, CHR 0xA9]"
    by (simp_all add: encode_rune_def char_of_eq_iff)
  then have sep: "unescape_u (''2028'' @ t) = Some ([CHR 0xE2, CHR 0x80, CHR 0xA8], t)"
       "unescape_u (''2029'' @ t) = Some ([CHR 0xE2, CHR 0x80, CHR 0xA9], t)"
    by (simp_all add: unescape_u_def hex_val_def between_def)
  have u: "simple_escape (CHR ''u'') = None" "bslash \<noteq> quote"
    by (simp_all add: simple_escape_def quote_def bslash_def)
  show ?thesis
    using len a sep u unfolding 2(2)
    by (auto simp del: utf8_len.simps)
qed

lemma length_runes_escape: "length (runes s) \<le> length (json_escape s)"
proof -
  have ne: "escape_rune r \<noteq> []" if "r \<in> set (runes s)" for r
    using that
    by (induction s rule: runes.induct)
       (auto simp: runes.simps(2) escape_ascii_def split: if_splits elim!: escape_rune.elims)
  have "length xs \<le> length (concat (map escape_rune xs))"
    if "\<And>r. r \<in> set xs \<Longrightarrow> escape_rune r \<noteq> []" for xs
    using that by (induction xs) (auto simp: Suc_le_eq add_strict_increasing length_greater_0_conv)
  with ne show ?thesis by (simp add: json_escape_def)
qed

lemma parse_str_invalid:
  "parse_str (Suc n) (escape_rune None @ t) = map_option (apfst (\<lambda>x. replacement @ x)) (parse_str n t)"
proof -
  have "encode_rune 0xFFFD = replacement"
    by (simp add: encode_rune_def replacement_def char_of_eq_iff)
  then have "unescape_u (''fffd'' @ t) = Some (replacement, t)"
    by (simp add: unescape_u_def hex_val_def between_def)
  moreover have "simple_escape (CHR ''u'') = None" "bslash \<noteq> quote"
    by (simp_all add: simple_escape_def quote_def bslash_def)
  ultimately show ?thesis by simp
qed

lemma parse_str_escape:
  "length (runes s) < n \<Longrightarrow> parse_str n (json_escape s @ quote # t) = Some (coerce_utf8 s, t)"
proof (induction s arbitrary: n rule: runes.induct)
  case 1
  then show ?case by (cases n) (simp_all add: json_escape_def)
next
  case (2 a s)
  let ?k = "utf8_len (a # s)"
  show ?case
  proof (cases "?k = 0")
    case True
    with "2.prems" obtain m where m: "n = Suc m" "length (runes s) < m"
      by (cases n) (auto simp: runes.simps(2))
    have "json_escape (a # s) = escape_rune None @ json_escape s"
      using True by (simp add: json_escape_def runes.simps(2) [of a s])
    then show ?thesis
      using "2.IH"(1) [OF True m(2)] parse_str_invalid [of m "json_escape s @ quote # t"] True
      by (simp add: m coerce_utf8_step del: utf8_len.simps escape_rune.simps)
  next
    case False
    with "2.prems" obtain m where m: "n = Suc m" "length (runes (drop ?k (a # s))) < m"
      by (cases n) (auto simp: runes.simps(2))
    have "json_escape (a # s) =
        escape_rune (Some (take ?k (a # s))) @ json_escape (drop ?k (a # s))"
      using False by (simp add: json_escape_def runes.simps(2) [of a s])
    then show ?thesis
      using "2.IH"(2) [OF False m(2)] False
        parse_str_rune [OF False, of m "json_escape (drop ?k (a # s)) @ quote # t"]
      by (simp add: m coerce_utf8_step del: utf8_len.simps)
  qed
qed

text \<open>A quoted string is read back as it was, up to the bytes that were not UTF-8.\<close>

lemma parse_str_json_string:
  "parse_str (Suc (length (json_escape s @ quote # t))) (json_escape s @ quote # t) =
     Some (coerce_utf8 s, t)"
  using length_runes_escape [of s] by (intro parse_str_escape) simp

lemma parse_value_json_string: "parse_value (Suc n) (json_string s @ t) = Some (JStr (coerce_utf8 s), t)"
  using parse_str_json_string [of s t] by (simp add: json_string_def quote_def)

text \<open>Objects whose member names were written by the encoder.\<close>

lemma skip_ws_json_string [simp]: "skip_ws (json_string k @ r) = json_string k @ r"
  by (simp add: json_string_def quote_def)

lemma parse_members_member:
  assumes "parse_value n (txt @ e # r) = Some (v, e # r)"
    and "e \<notin> {CHR 0x20, CHR 0x09, CHR 0x0A, CHR 0x0D}"
  shows "parse_members (Suc n) (json_string k @ CHR '':'' # txt @ e # r) =
    (if e = CHR ''}'' then Some ([(coerce_utf8 k, v)], r)
     else if e = CHR '','' then map_option (apfst (\<lambda>ms. (coerce_utf8 k, v) # ms)) (parse_members n r)
     else None)"
proof -
  have "parse_members (Suc n) (json_string k @ CHR '':'' # txt @ e # r) =
    (case parse_str (Suc (length (json_escape k @ quote # CHR '':'' # txt @ e # r)))
            (json_escape k @ quote # CHR '':'' # txt @ e # r) of
       None \<Rightarrow> None
     | Some (k, t) \<Rightarrow>
         (case skip_ws t of [] \<Rightarrow> None
          | d # u \<Rightarrow> if d \<noteq> CHR '':'' then None
              else (case parse_value n u of None \<Rightarrow> None
                    | Some (v, w) \<Rightarrow>
                        (case skip_ws w of [] \<Rightarrow> None
                         | e # x \<Rightarrow>
                             if e = CHR ''}'' then Some ([(k, v)], x)
                             else if e = CHR '','' then
                               map_option (apfst (\<lambda>ms. (k, v) # ms)) (parse_members n x)
                             else None))))"
    by (simp only: parse_members.simps skip_ws_json_string) (simp add: json_string_def)
  also have "\<dots> = (case skip_ws (e # r) of [] \<Rightarrow> None
     | e # x \<Rightarrow> if e = CHR ''}'' then Some ([(coerce_utf8 k, v)], x)
              else if e = CHR '','' then
                map_option (apfst (\<lambda>ms. (coerce_utf8 k, v) # ms)) (parse_members n x)
              else None)"
    by (simp only: parse_str_json_string) (simp add: assms(1))
  finally show ?thesis using assms(2) by simp
qed

lemma parse_value_object:
  assumes "parse_members n (json_string k @ r) = Some (ms, t)"
  shows "parse_value (Suc n) (CHR ''{'' # json_string k @ r) = Some (JObj ms, t)"
proof -
  have "parse_value (Suc n) (CHR ''{'' # json_string k @ r) =
      map_option (apfst JObj) (parse_members n (json_string k @ r))"
    by (simp add: json_string_def quote_def)
  with assms show ?thesis by simp
qed

lemma parse_value_empty_object: "parse_value (Suc n) (CHR ''{'' # CHR ''}'' # t) = Some (JObj [], t)"
  by (simp add: quote_def)

declare parse_value.simps [simp del] parse_members.simps [simp del] parse_str.simps [simp del]

end
