(* ===== verification/Cache.thy ===== *)
theory Cache
  imports GoJson
begin

text \<open>
  \<^verbatim>\<open>internal/cache\<close>: the metadata of an entry and its JSON form, the \<^verbatim>\<open>Cache\<close> interface as a locale
  that states what every implementation promises, and the no-op implementation.
\<close>

section \<open>Metadata\<close>

record metadata =
  etag :: string

definition no_metadata :: metadata where
  "no_metadata = \<lparr>etag = []\<rparr>"

text \<open>\<^verbatim>\<open>json.Marshal\<close> of a \<^verbatim>\<open>Metadata\<close> value; \<^verbatim>\<open>omitempty\<close> leaves out an empty ETag.\<close>

definition marshal_metadata :: "metadata \<Rightarrow> string" where
  "marshal_metadata m =
     (if etag m = [] then ''{}''
      else ''{'' @ json_string ''etag'' @ '':'' @ json_string (etag m) @ ''}'')"

text \<open>
  Decoding into a \<^verbatim>\<open>Metadata\<close> value: field names match without case, unknown fields are skipped, the
  first type error is reported once the whole value is read.
\<close>

definition metadata_field :: "go_error option \<times> metadata \<Rightarrow> string \<times> json \<Rightarrow> go_error option \<times> metadata" where
  "metadata_field = (\<lambda>(e, m) (k, v).
     if equal_fold k ''etag'' then
       (case string_field v (etag m) of
          (e', s) \<Rightarrow> (case e of None \<Rightarrow> e' | Some _ \<Rightarrow> e, m\<lparr>etag := s\<rparr>))
     else (e, m))"

definition decode_metadata :: "metadata \<Rightarrow> json \<Rightarrow> go_error option \<times> metadata" where
  "decode_metadata m v =
     (case v of
        JObj ms \<Rightarrow> foldl metadata_field (None, m) ms
      | JNull \<Rightarrow> (None, m)
      | _ \<Rightarrow> (Some (Errorf ''json: cannot unmarshal into Metadata''), m))"

definition unmarshal_metadata :: "string \<Rightarrow> metadata result" where
  "unmarshal_metadata s =
     (case json_unmarshal s of
        Inl e \<Rightarrow> Inl e
      | Inr v \<Rightarrow> (case decode_metadata no_metadata v of (Some e, _) \<Rightarrow> Inl e | (None, m) \<Rightarrow> Inr m))"

text \<open>What a metadata value becomes on its way through JSON.\<close>

definition coerce_metadata :: "metadata \<Rightarrow> metadata" where
  "coerce_metadata m = m\<lparr>etag := coerce_utf8 (etag m)\<rparr>"

lemma coerce_metadata_idem [simp]: "coerce_metadata (coerce_metadata m) = coerce_metadata m"
  by (simp add: coerce_metadata_def)

lemma coerce_metadata_valid: "valid_utf8 (etag m) \<Longrightarrow> coerce_metadata m = m"
  by (simp add: coerce_metadata_def coerce_utf8_valid)

definition metadata_members :: "metadata \<Rightarrow> (string \<times> json) list" where
  "metadata_members m = (if etag m = [] then [] else [(''etag'', JStr (coerce_utf8 (etag m)))])"

lemma coerce_ascii_names [simp]:
  "coerce_utf8 ''etag'' = ''etag''" "coerce_utf8 ''key'' = ''key''"
  "coerce_utf8 ''metadata'' = ''metadata''"
  by (simp_all add: coerce_utf8_valid valid_utf8_ascii is_ascii_def)

lemma parse_marshal_metadata:
  "parse_value (Suc (Suc (Suc n))) (marshal_metadata m @ t) = Some (JObj (metadata_members m), t)"
proof (cases "etag m = []")
  case True
  then show ?thesis
    by (simp add: marshal_metadata_def metadata_members_def parse_value_empty_object)
next
  case False
  have "parse_members (Suc (Suc n)) (json_string ''etag'' @ CHR '':'' # json_string (etag m) @ CHR ''}'' # t) =
      Some ([(''etag'', JStr (coerce_utf8 (etag m)))], t)"
    by (simp add: parse_members_member parse_value_json_string)
  from parse_value_object [OF this] False show ?thesis
    by (simp add: marshal_metadata_def metadata_members_def)
qed

lemma decode_metadata_members: "decode_metadata no_metadata (JObj (metadata_members m)) = (None, coerce_metadata m)"
proof -
  have "equal_fold ''etag'' ''etag''" by (simp add: equal_fold_def)
  then show ?thesis
    by (simp add: decode_metadata_def metadata_members_def metadata_field_def string_field_def
        coerce_metadata_def no_metadata_def)
qed

text \<open>The JSON round trip of metadata, for every ETag.\<close>

lemma unmarshal_marshal_metadata: "unmarshal_metadata (marshal_metadata m) = Inr (coerce_metadata m)"
proof -
  have "length (marshal_metadata m) \<ge> 2"
    by (simp add: marshal_metadata_def)
  then obtain n where n: "Suc (length (marshal_metadata m)) = Suc (Suc (Suc n))"
    by (metis Suc_le_D numeral_2_eq_2 Suc_le_mono)
  have "json_unmarshal (marshal_metadata m) = Inr (JObj (metadata_members m))"
    using parse_marshal_metadata [of n m "[]"] by (simp add: json_unmarshal_def n)
  then show ?thesis by (simp add: unmarshal_metadata_def decode_metadata_members)
qed

section \<open>The interface\<close>

text \<open>
  \<^verbatim>\<open>Cache.Get\<close> and \<^verbatim>\<open>Cache.Put\<close> over a state \<open>'s\<close>, in an environment \<open>'e\<close> that decides which calls
  to the system fail. \<open>get\<close> returns a reader and the metadata; \<open>put\<close> returns its error and how many
  bytes of the blob it has read. Implementations may store several keys in one slot (file names are
  digests) and may forget entries at any time. A reader that \<open>get\<close> returns yields a beginning of what is
  stored, and, in an environment that is \<open>intact\<close>, all of it unless it ends with an error. A put that
  reports success has read the whole blob and stores nothing else; one that reports an error stores nothing,
  or, when the caller's blob was complete, may have stored it all the same (the confirmation got lost).
\<close>

type_synonym ('e, 's) cache_get = "'e \<Rightarrow> 's \<Rightarrow> string \<Rightarrow> (reader \<times> metadata) result \<times> 's"
type_synonym ('e, 's) cache_put =
  "'e \<Rightarrow> 's \<Rightarrow> string \<Rightarrow> metadata \<Rightarrow> reader \<Rightarrow> (go_error option \<times> nat) \<times> 's"

locale cache =
  fixes get :: "('e, 's) cache_get"
    and put :: "('e, 's) cache_put"
    and slot :: "string \<Rightarrow> 'n"
    and stored :: "'s \<Rightarrow> 'n \<Rightarrow> (metadata \<times> string) option"
    and inv :: "'s \<Rightarrow> bool"
    and intact :: "'e \<Rightarrow> bool"
  assumes get_inv: "inv s \<Longrightarrow> get e s k = (r, s') \<Longrightarrow> inv s'"
    and get_stored: "inv s \<Longrightarrow> get e s k = (r, s') \<Longrightarrow> stored s' = stored s"
    and get_sound: "inv s \<Longrightarrow> get e s k = (Inr (b, m), s') \<Longrightarrow>
      \<exists>d. stored s (slot k) = Some (m, d) \<and> prefix (rd_data b) d \<and> (intact e \<longrightarrow> reads b d)"
    and put_inv: "inv s \<Longrightarrow> put e s k m b = (q, s') \<Longrightarrow> inv s'"
    and put_ok: "inv s \<Longrightarrow> put e s k m b = ((None, n), s') \<Longrightarrow>
      rd_err b = None \<and> n = length (rd_data b) \<and>
      stored s' \<subseteq>\<^sub>m (stored s)(slot k \<mapsto> (coerce_metadata m, rd_data b))"
    and put_failed: "inv s \<Longrightarrow> put e s k m b = ((Some err, n), s') \<Longrightarrow>
      stored s' \<subseteq>\<^sub>m stored s \<or>
      (rd_err b = None \<and> stored s' \<subseteq>\<^sub>m (stored s)(slot k \<mapsto> (coerce_metadata m, rd_data b)))"

text \<open>A cache on the same machine knows what became of a put, and tells when it cannot read an entry.\<close>

locale reliable_cache = cache get put slot stored inv "\<lambda>_. True"
  for get :: "('e, 's) cache_get" and put :: "('e, 's) cache_put" and slot :: "string \<Rightarrow> 'n"
    and stored :: "'s \<Rightarrow> 'n \<Rightarrow> (metadata \<times> string) option" and inv :: "'s \<Rightarrow> bool" +
  assumes put_failed_keeps: "inv s \<Longrightarrow> put e s k m b = ((Some err, n), s') \<Longrightarrow> stored s' \<subseteq>\<^sub>m stored s"

text \<open>
  A client's history: operations run one after the other, next to what the client knows of each slot: what
  the last put that reported success wrote, and the complete blobs of the puts after it that reported an error.
\<close>

datatype 'e cache_op = OpGet 'e string | OpPut 'e string metadata reader

type_synonym 'n put_history = "'n \<Rightarrow> (metadata \<times> string) option \<times> (metadata \<times> string) list"

definition no_puts :: "'n put_history" where
  "no_puts = (\<lambda>_. (None, []))"

definition cache_step ::
    "('e, 's) cache_get \<Rightarrow> ('e, 's) cache_put \<Rightarrow> (string \<Rightarrow> 'n) \<Rightarrow>
     's \<times> 'n put_history \<Rightarrow> 'e cache_op \<Rightarrow> 's \<times> 'n put_history" where
  "cache_step get put slot = (\<lambda>(s, g) op.
     case op of
       OpGet e k \<Rightarrow> (snd (get e s k), g)
     | OpPut e k m b \<Rightarrow>
         (let v = (coerce_metadata m, rd_data b) in
          case put e s k m b of
            ((None, n), s') \<Rightarrow> (s', g(slot k := (Some v, [])))
          | ((Some err, n), s') \<Rightarrow>
              (s', if rd_err b = None then g(slot k := (fst (g (slot k)), v # snd (g (slot k)))) else g)))"

definition cache_run ::
    "('e, 's) cache_get \<Rightarrow> ('e, 's) cache_put \<Rightarrow> (string \<Rightarrow> 'n) \<Rightarrow>
     's \<times> 'n put_history \<Rightarrow> 'e cache_op list \<Rightarrow> 's \<times> 'n put_history" where
  "cache_run get put slot = foldl (cache_step get put slot)"

lemma cache_run_simps [simp]:
  "cache_run get put slot sg [] = sg"
  "cache_run get put slot sg (op # ops) = cache_run get put slot (cache_step get put slot sg op) ops"
  by (simp_all add: cache_run_def)

text \<open>What may be in a slot after such a history.\<close>

definition candidates :: "'n put_history \<Rightarrow> 'n \<Rightarrow> (metadata \<times> string) set" where
  "candidates g n = set_option (fst (g n)) \<union> set (snd (g n))"

definition tracked :: "('n \<rightharpoonup> metadata \<times> string) \<Rightarrow> 'n put_history \<Rightarrow> bool" where
  "tracked t g \<longleftrightarrow> (\<forall>n v. t n = Some v \<longrightarrow> v \<in> candidates g n)"

lemma tracked_le: "t' \<subseteq>\<^sub>m t \<Longrightarrow> tracked t g \<Longrightarrow> tracked t' g"
  by (force simp: tracked_def map_le_def)

lemma tracked_acknowledged: "tracked t g \<Longrightarrow> tracked (t(n \<mapsto> v)) (g(n := (Some v, [])))"
  by (auto simp: tracked_def candidates_def)

lemma tracked_unsure:
  "tracked t g \<Longrightarrow> tracked t (g(n := (fst (g n), v # snd (g n))))"
  "tracked t g \<Longrightarrow> tracked (t(n \<mapsto> v)) (g(n := (fst (g n), v # snd (g n))))"
  by (auto simp: tracked_def candidates_def)

context cache
begin

lemma step_tracks:
  assumes "inv s" and "tracked (stored s) g" and "cache_step get put slot (s, g) op = (s', g')"
  shows "inv s' \<and> tracked (stored s') g'"
proof (cases op)
  case (OpGet e k)
  obtain r t where t: "get e s k = (r, t)" by (cases "get e s k") auto
  with assms OpGet show ?thesis
    using get_inv [OF assms(1) t] get_stored [OF assms(1) t] by (simp add: cache_step_def)
next
  case (OpPut e k m b)
  let ?v = "(coerce_metadata m, rd_data b)"
  obtain r n t where t: "put e s k m b = ((r, n), t)" by (cases "put e s k m b") auto
  have "tracked (stored t) g'"
  proof (cases r)
    case None
    with t have "stored t \<subseteq>\<^sub>m (stored s)(slot k \<mapsto> ?v)" using put_ok [OF assms(1)] by blast
    from tracked_le [OF this tracked_acknowledged [OF assms(2)]] show ?thesis
      using assms(3) OpPut t None by (simp add: cache_step_def Let_def)
  next
    case (Some err)
    have "g' = (if rd_err b = None then g(slot k := (fst (g (slot k)), ?v # snd (g (slot k)))) else g)"
      using assms(3) OpPut t Some by (simp add: cache_step_def Let_def)
    with put_failed [OF assms(1) t [unfolded Some]] show ?thesis
      using tracked_unsure [OF assms(2), of "slot k" ?v]
      by (cases "rd_err b") (auto intro: tracked_le assms(2) simp del: fun_upd_apply)
  qed
  then show ?thesis
    using assms(3) OpPut t put_inv [OF assms(1) t] by (auto simp: cache_step_def Let_def split: option.splits)
qed

lemma run_tracks:
  "inv s \<Longrightarrow> tracked (stored s) g \<Longrightarrow> cache_run get put slot (s, g) ops = (s', g') \<Longrightarrow>
     inv s' \<and> tracked (stored s') g'"
proof (induction ops arbitrary: s g)
  case (Cons op ops)
  obtain t h where st: "cache_step get put slot (s, g) op = (t, h)" by fastforce
  from step_tracks [OF Cons.prems(1,2) st] Cons.prems(3) st show ?case
    by (intro Cons.IH [of t h]) auto
qed simp

text \<open>
  A hit returns what the last successful put of that slot wrote, or the complete blob of a later put that
  reported an error.
\<close>

lemma hit_is_candidate:
  assumes "inv s" and "tracked (stored s) g" and "cache_run get put slot (s, g) ops = (s', g')"
    and "get e s' k = (Inr (b, m), s'')"
  shows "\<exists>d. (m, d) \<in> candidates g' (slot k) \<and> prefix (rd_data b) d \<and> (intact e \<longrightarrow> reads b d)"
proof -
  from run_tracks [OF assms(1-3)] have t: "inv s'" "tracked (stored s') g'" by auto
  from get_sound [OF t(1) assms(4)] t(2) show ?thesis by (auto simp: tracked_def)
qed

end

context reliable_cache
begin

lemma step_tracks_last:
  assumes "inv s" and "stored s \<subseteq>\<^sub>m (\<lambda>n. fst (g n))" and "cache_step get put slot (s, g) op = (s', g')"
  shows "inv s' \<and> stored s' \<subseteq>\<^sub>m (\<lambda>n. fst (g' n))"
proof (cases op)
  case (OpGet e k)
  obtain r t where t: "get e s k = (r, t)" by (cases "get e s k") auto
  with assms OpGet show ?thesis
    using get_inv [OF assms(1) t] get_stored [OF assms(1) t] by (simp add: cache_step_def)
next
  case (OpPut e k m b)
  obtain r n t where t: "put e s k m b = ((r, n), t)" by (cases "put e s k m b") auto
  have g': "(\<lambda>n. fst (g' n)) = (if r = None then (\<lambda>n. fst (g n))(slot k \<mapsto> (coerce_metadata m, rd_data b)) else (\<lambda>n. fst (g n)))" "s' = t"
    using assms(3) OpPut t by (auto simp: cache_step_def Let_def split: option.splits)
  show ?thesis
  proof (cases r)
    case None
    with t have "stored t \<subseteq>\<^sub>m (stored s)(slot k \<mapsto> (coerce_metadata m, rd_data b))"
      using put_ok [OF assms(1)] by blast
    also have "\<dots> \<subseteq>\<^sub>m (\<lambda>n. fst (g n))(slot k \<mapsto> (coerce_metadata m, rd_data b))"
      using assms(2) by (auto simp: map_le_def)
    finally show ?thesis using g' None put_inv [OF assms(1) t] by simp
  next
    case (Some err)
    with t have "stored t \<subseteq>\<^sub>m stored s" using put_failed_keeps [OF assms(1)] by blast
    with assms(2) g' Some put_inv [OF assms(1) t] show ?thesis by (auto intro: map_le_trans)
  qed
qed

lemma run_tracks_last:
  "inv s \<Longrightarrow> stored s \<subseteq>\<^sub>m (\<lambda>n. fst (g n)) \<Longrightarrow> cache_run get put slot (s, g) ops = (s', g') \<Longrightarrow>
     inv s' \<and> stored s' \<subseteq>\<^sub>m (\<lambda>n. fst (g' n))"
proof (induction ops arbitrary: s g)
  case (Cons op ops)
  obtain t h where st: "cache_step get put slot (s, g) op = (t, h)" by fastforce
  from step_tracks_last [OF Cons.prems(1,2) st] Cons.prems(3) st show ?case
    by (intro Cons.IH [of t h]) auto
qed simp

text \<open>A hit returns what the last successful put of that slot wrote.\<close>

lemma hit_is_last_put:
  assumes "inv s" and "stored s \<subseteq>\<^sub>m (\<lambda>n. fst (g n))" and "cache_run get put slot (s, g) ops = (s', g')"
    and "get e s' k = (Inr (b, m), s'')"
  shows "\<exists>d. fst (g' (slot k)) = Some (m, d) \<and> reads b d"
proof -
  from run_tracks_last [OF assms(1-3)] have t: "inv s'" "stored s' \<subseteq>\<^sub>m (\<lambda>n. fst (g' n))" by auto
  from get_sound [OF t(1) assms(4)] t(2) show ?thesis by (force simp: map_le_def)
qed

end

section \<open>The no-op cache\<close>

definition noop_get :: "('e, 's) cache_get" where
  "noop_get e s k = (Inl ErrNotFound, s)"

text \<open>\<^verbatim>\<open>Put\<close> copies the whole blob to \<^verbatim>\<open>io.Discard\<close> and reports the blob's own read error.\<close>

definition noop_put :: "('e, 's) cache_put" where
  "noop_put e s k m b = ((rd_err b, length (rd_data b)), s)"

interpretation nc: reliable_cache noop_get noop_put "\<lambda>k. k" "\<lambda>_ _. None" "\<lambda>_. True"
  by unfold_locales (auto simp: noop_get_def noop_put_def map_le_def)

end
