(* ===== verification/GoSha256.thy ===== *)
theory GoSha256
  imports GoEncoding
begin

text \<open>
  \<^verbatim>\<open>crypto/sha256.Sum256\<close> (FIPS 180-4): padding, message schedule and compression. Sums
  wrap at 32 bits. The disk cache names its files by the digest of the key.
\<close>

unbundle bit_operations_syntax

type_synonym u32 = "32 word"

text \<open>The round constants and the initial state of the standard, in decimal.\<close>

definition sha_K :: "u32 list" where
  "sha_K =
     [1116352408, 1899447441, 3049323471, 3921009573, 961987163, 1508970993,
      2453635748, 2870763221, 3624381080, 310598401, 607225278, 1426881987,
      1925078388, 2162078206, 2614888103, 3248222580, 3835390401, 4022224774,
      264347078, 604807628, 770255983, 1249150122, 1555081692, 1996064986,
      2554220882, 2821834349, 2952996808, 3210313671, 3336571891, 3584528711,
      113926993, 338241895, 666307205, 773529912, 1294757372, 1396182291,
      1695183700, 1986661051, 2177026350, 2456956037, 2730485921, 2820302411,
      3259730800, 3345764771, 3516065817, 3600352804, 4094571909, 275423344,
      430227734, 506948616, 659060556, 883997877, 958139571, 1322822218,
      1537002063, 1747873779, 1955562222, 2024104815, 2227730452, 2361852424,
      2428436474, 2756734187, 3204031479, 3329325298]"

record sha_state =
  sa :: u32
  sb :: u32
  sc :: u32
  sd :: u32
  se :: u32
  sf :: u32
  sg :: u32
  sh :: u32

definition sha_init :: sha_state where
  "sha_init = \<lparr>sa = 1779033703, sb = 3144134277, sc = 1013904242, sd = 2773480762,
     se = 1359893119, sf = 2600822924, sg = 528734635, sh = 1541459225\<rparr>"

definition rotr32 :: "nat \<Rightarrow> u32 \<Rightarrow> u32" where
  "rotr32 n w = drop_bit n w OR push_bit (32 - n) w"

definition sha_round :: "u32 \<Rightarrow> u32 \<Rightarrow> sha_state \<Rightarrow> sha_state" where
  "sha_round k w s =
     (let S1 = rotr32 6 (se s) XOR rotr32 11 (se s) XOR rotr32 25 (se s);
          ch = (se s AND sf s) XOR (NOT (se s) AND sg s);
          t1 = sh s + S1 + ch + k + w;
          S0 = rotr32 2 (sa s) XOR rotr32 13 (sa s) XOR rotr32 22 (sa s);
          mj = (sa s AND sb s) XOR (sa s AND sc s) XOR (sb s AND sc s)
      in \<lparr>sa = t1 + S0 + mj, sb = sa s, sc = sb s, sd = sc s,
          se = sd s + t1, sf = se s, sg = sf s, sh = sg s\<rparr>)"

text \<open>The schedule, latest word first: \<open>n\<close> more words after the block's sixteen.\<close>

fun sha_schedule :: "nat \<Rightarrow> u32 list \<Rightarrow> u32 list" where
  "sha_schedule 0 ws = rev ws"
| "sha_schedule (Suc n) ws =
     (let x = ws ! 14; y = ws ! 1;
          s0 = rotr32 7 x XOR rotr32 18 x XOR drop_bit 3 x;
          s1 = rotr32 17 y XOR rotr32 19 y XOR drop_bit 10 y
      in sha_schedule n ((ws ! 15 + s0 + ws ! 6 + s1) # ws))"

definition sha_compress :: "sha_state \<Rightarrow> u32 list \<Rightarrow> sha_state" where
  "sha_compress h blk =
     (let s = fold (\<lambda>(k, w). sha_round k w) (zip sha_K (sha_schedule 48 (rev blk))) h
      in \<lparr>sa = sa h + sa s, sb = sb h + sb s, sc = sc h + sc s, sd = sd h + sd s,
          se = se h + se s, sf = sf h + sf s, sg = sg h + sg s, sh = sh h + sh s\<rparr>)"

fun words_of :: "string \<Rightarrow> u32 list" where
  "words_of (a # b # c # d # s) =
     of_nat (byte a * 16777216 + byte b * 65536 + byte c * 256 + byte d) # words_of s"
| "words_of _ = []"

text \<open>\<open>be_bytes k n\<close>: the \<open>k\<close> low bytes of \<open>n\<close>, big-endian.\<close>

fun be_bytes :: "nat \<Rightarrow> nat \<Rightarrow> string" where
  "be_bytes 0 n = []"
| "be_bytes (Suc k) n = be_bytes k (n div 256) @ [char_of (n mod 256)]"

lemma length_be_bytes [simp]: "length (be_bytes k n) = k"
  by (induction k arbitrary: n) auto

definition sha_pad :: "string \<Rightarrow> string" where
  "sha_pad s =
     s @ CHR 0x80 # replicate ((119 - length s mod 64) mod 64) (CHR 0x00) @ be_bytes 8 (8 * length s)"

fun sha_blocks :: "nat \<Rightarrow> sha_state \<Rightarrow> u32 list \<Rightarrow> sha_state" where
  "sha_blocks 0 h ws = h"
| "sha_blocks (Suc n) h ws = sha_blocks n (sha_compress h (take 16 ws)) (drop 16 ws)"

definition bytes_of_u32 :: "u32 \<Rightarrow> string" where
  "bytes_of_u32 w = be_bytes 4 (unat w)"

definition sha256 :: "string \<Rightarrow> string" where
  "sha256 s =
     (let ws = words_of (sha_pad s); h = sha_blocks (length ws div 16) sha_init ws
      in concat (map bytes_of_u32 [sa h, sb h, sc h, sd h, se h, sf h, sg h, sh h]))"

lemma length_sha256 [simp]: "length (sha256 s) = 32"
  by (simp add: sha256_def bytes_of_u32_def Let_def)

lemma sha_pad_blocks: "64 dvd length (sha_pad s)"
proof -
  define q r where "q = length s div 64" and "r = length s mod 64"
  then have s: "length s = 64 * q + r" and r: "r < 64" by simp_all
  have "length (sha_pad s) = 64 * q + (r + 9 + (119 - r) mod 64)"
    by (simp add: sha_pad_def s r)
  moreover have "r + 9 + (119 - r) mod 64 = (if r \<le> 55 then 64 else 128)"
  proof (cases "r \<le> 55")
    case True
    then have "119 - r = 64 + (55 - r)" by simp
    then have "(119 - r) mod 64 = 55 - r" by (simp only: mod_add_self1) (use True in simp)
    with True show ?thesis by simp
  next
    case False
    with r show ?thesis by simp
  qed
  ultimately show ?thesis by auto
qed

end
