(* ===== verification/Disk.thy ===== *)
theory Disk
  imports Cache GoSha256 "HOL-Library.Char_ord" "HOL-Library.List_Lexorder"
begin

text \<open>
  \<^verbatim>\<open>internal/cache/disk\<close>: entries as ZIP archives in one directory, named by the digest of their key,
  with least-recently-used eviction under a byte limit. The file system is the directory of the
  cache, the directory of temporary files and the number of open descriptors; an environment
  record says, for each call, which system calls fail. The operations hold the mutex of the disk for
  their whole critical section, so each of them is one atomic step (\<^verbatim>\<open>Put\<close> is two: staging outside
  the mutex, \<^verbatim>\<open>accept\<close> inside it).
\<close>

section \<open>Archives\<close>

text \<open>
  The content of a file: an archive written to its end, as the members it holds, or any other bytes,
  which \<^verbatim>\<open>zip.NewReader\<close> rejects.
\<close>

datatype content = Archive "(string \<times> string) list" | Raw string

text \<open>
  The size of an archive of stored (uncompressed) members as \<^verbatim>\<open>zip.Writer\<close> lays it out: a local
  header (30), name, data and a data descriptor (16, or 24 from \<open>2 ^ 32 - 1\<close> bytes on) per member, a
  central directory record (46 and the name, 28 more for ZIP64) per member, and the end record
  (22, and 76 more for ZIP64).
\<close>

definition zip_member_size :: "string \<times> string \<Rightarrow> nat" where
  "zip_member_size = (\<lambda>(n, d).
     30 + length n + length d + (if 4294967295 \<le> length d then 24 else 16))"

fun zip_directory_size :: "nat \<Rightarrow> (string \<times> string) list \<Rightarrow> nat" where
  "zip_directory_size off [] = 0"
| "zip_directory_size off ((n, d) # ms) =
     46 + length n + (if 4294967295 \<le> length d \<or> 4294967295 \<le> off then 28 else 0) +
     zip_directory_size (off + zip_member_size (n, d)) ms"

definition zip_size :: "(string \<times> string) list \<Rightarrow> nat" where
  "zip_size ms =
     (let start = sum_list (map zip_member_size ms); dir = zip_directory_size 0 ms
      in start + dir + 22 +
         (if 65535 \<le> length ms \<or> 4294967295 \<le> dir \<or> 4294967295 \<le> start then 76 else 0))"

definition content_size :: "content \<Rightarrow> nat" where
  "content_size c = (case c of Archive ms \<Rightarrow> zip_size ms | Raw s \<Rightarrow> length s)"

section \<open>Entry information\<close>

definition fileInfo :: string where
  "fileInfo = ''info.json''"

definition fileBlob :: string where
  "fileBlob = ''blob.bin''"

record info =
  info_key :: string
  info_metadata :: metadata

definition no_info :: info where
  "no_info = \<lparr>info_key = [], info_metadata = no_metadata\<rparr>"

definition marshal_info :: "info \<Rightarrow> string" where
  "marshal_info i =
     CHR ''{'' # json_string ''key'' @ CHR '':'' # json_string (info_key i) @ CHR '','' #
     json_string ''metadata'' @ CHR '':'' # marshal_metadata (info_metadata i) @ CHR ''}'' # [CHR 0x0A]"

definition info_field :: "go_error option \<times> info \<Rightarrow> string \<times> json \<Rightarrow> go_error option \<times> info" where
  "info_field = (\<lambda>(e, i) (k, v).
     if equal_fold k ''key'' then
       (case string_field v (info_key i) of
          (e', s) \<Rightarrow> (case e of None \<Rightarrow> e' | Some _ \<Rightarrow> e, i\<lparr>info_key := s\<rparr>))
     else if equal_fold k ''metadata'' then
       (case decode_metadata (info_metadata i) v of
          (e', m) \<Rightarrow> (case e of None \<Rightarrow> e' | Some _ \<Rightarrow> e, i\<lparr>info_metadata := m\<rparr>))
     else (e, i))"

definition decode_info :: "json \<Rightarrow> info result" where
  "decode_info v =
     (case v of
        JObj ms \<Rightarrow> (case foldl info_field (None, no_info) ms of (None, i) \<Rightarrow> Inr i | (Some e, _) \<Rightarrow> Inl e)
      | JNull \<Rightarrow> Inr no_info
      | _ \<Rightarrow> Inl (Errorf ''json: cannot unmarshal into Info''))"

definition readInfo :: "go_error option \<Rightarrow> (string \<times> string) list \<Rightarrow> info result" where
  "readInfo rerr ms =
     (case map_of ms fileInfo of
        None \<Rightarrow> Inl ErrNotExist
      | Some text \<Rightarrow>
          try_err rerr (case json_decode text of Inl e \<Rightarrow> Inl e | Inr v \<Rightarrow> decode_info v))"

definition writeInfo :: "go_error option \<Rightarrow> (string \<times> string) list \<Rightarrow> info \<Rightarrow> (string \<times> string) list result" where
  "writeInfo werr ms i = try_err werr (Inr (ms @ [(fileInfo, marshal_info i)]))"

section \<open>The file system\<close>

record dfile =
  f_content :: content
  f_mtime :: int

record fs =
  fs_dir :: "(string \<times> dfile) list"
  fs_tmp :: "(string \<times> dfile) list"
  fs_fds :: nat

record dirent =
  e_name :: string
  e_size :: "64 word"
  e_mtime :: int

text \<open>
  What the system does during one operation: the clock, the error of each system call if it fails,
  the name \<^verbatim>\<open>os.CreateTemp\<close> picks, after how many bytes read from the blob a write to the temporary
  file fails, the errors of the reads of an entry's file (of its directory, of \<^verbatim>\<open>info.json\<close>, of the
  header of the blob, and of the blob, after how many of its bytes; a checksum that does not match is
  an error after all of them), and the order \<^verbatim>\<open>slices.SortFunc\<close> returns (it is not stable, so entries with equal times
  may come in any order).
\<close>

record os_env =
  env_now :: int
  env_open :: "string \<Rightarrow> go_error option"
  env_chtimes :: "string \<Rightarrow> go_error option"
  env_fstat :: "go_error option"
  env_read_zip :: "go_error option"
  env_read_info :: "go_error option"
  env_open_blob :: "go_error option"
  env_read_blob :: "(nat \<times> go_error) option"
  env_remove :: "string \<Rightarrow> go_error option"
  env_create_temp :: "go_error option"
  env_temp_name :: string
  env_write_info :: "go_error option"
  env_write_header :: "go_error option"
  env_write_blob :: "(nat \<times> go_error) option"
  env_zip_close :: "go_error option"
  env_tmp_close :: "go_error option"
  env_stat :: "go_error option"
  env_read_dir :: "go_error option"
  env_info :: "string \<Rightarrow> go_error option"
  env_rename :: "go_error option"
  env_close :: "go_error option"
  env_sort :: "dirent list \<Rightarrow> dirent list"

definition os_open :: "os_env \<Rightarrow> fs \<Rightarrow> string \<Rightarrow> dfile result \<times> fs" where
  "os_open env s n =
     (case map_of (fs_dir s) n of
        None \<Rightarrow> (Inl ErrNotExist, s)
      | Some f \<Rightarrow> (case env_open env n of
                   Some e \<Rightarrow> (Inl e, s)
                 | None \<Rightarrow> (Inr f, s\<lparr>fs_fds := Suc (fs_fds s)\<rparr>)))"

definition os_close :: "fs \<Rightarrow> fs" where
  "os_close s = s\<lparr>fs_fds := fs_fds s - 1\<rparr>"

definition os_chtimes :: "os_env \<Rightarrow> fs \<Rightarrow> string \<Rightarrow> int \<Rightarrow> go_error option \<times> fs" where
  "os_chtimes env s n t =
     (case map_of (fs_dir s) n of
        None \<Rightarrow> (Some ErrNotExist, s)
      | Some f \<Rightarrow> (case env_chtimes env n of
                   Some e \<Rightarrow> (Some e, s)
                 | None \<Rightarrow> (None, s\<lparr>fs_dir := AList.update n (f\<lparr>f_mtime := t\<rparr>) (fs_dir s)\<rparr>)))"

definition os_remove :: "os_env \<Rightarrow> fs \<Rightarrow> string \<Rightarrow> go_error option \<times> fs" where
  "os_remove env s n =
     (case map_of (fs_dir s) n of
        None \<Rightarrow> (Some ErrNotExist, s)
      | Some f \<Rightarrow> (case env_remove env n of
                   Some e \<Rightarrow> (Some e, s)
                 | None \<Rightarrow> (None, s\<lparr>fs_dir := AList.delete n (fs_dir s)\<rparr>)))"

definition os_remove_tmp :: "os_env \<Rightarrow> fs \<Rightarrow> string \<Rightarrow> fs" where
  "os_remove_tmp env s n =
     (case env_remove env n of Some e \<Rightarrow> s | None \<Rightarrow> s\<lparr>fs_tmp := AList.delete n (fs_tmp s)\<rparr>)"

text \<open>\<^verbatim>\<open>os.CreateTemp\<close> opens with \<^verbatim>\<open>O_EXCL\<close>: a name that is taken is an error.\<close>

definition os_create_temp :: "os_env \<Rightarrow> fs \<Rightarrow> string result \<times> fs" where
  "os_create_temp env s =
     (let n = env_temp_name env in
      case env_create_temp env of
        Some e \<Rightarrow> (Inl e, s)
      | None \<Rightarrow>
          if map_of (fs_tmp s) n \<noteq> None then (Inl ErrExist, s)
          else (Inr n, s\<lparr>fs_tmp := AList.update n \<lparr>f_content = Raw [], f_mtime = env_now env\<rparr> (fs_tmp s),
                         fs_fds := Suc (fs_fds s)\<rparr>))"

definition os_write_tmp :: "os_env \<Rightarrow> fs \<Rightarrow> string \<Rightarrow> content \<Rightarrow> fs" where
  "os_write_tmp env s n c =
     s\<lparr>fs_tmp := AList.update n \<lparr>f_content = c, f_mtime = env_now env\<rparr> (fs_tmp s)\<rparr>"

text \<open>\<^verbatim>\<open>os.Rename\<close> from the temporary directory into the cache directory keeps the modification time.\<close>

definition os_rename :: "os_env \<Rightarrow> fs \<Rightarrow> string \<Rightarrow> string \<Rightarrow> go_error option \<times> fs" where
  "os_rename env s tmp n =
     (case map_of (fs_tmp s) tmp of
        None \<Rightarrow> (Some ErrNotExist, s)
      | Some f \<Rightarrow> (case env_rename env of
                   Some e \<Rightarrow> (Some e, s)
                 | None \<Rightarrow> (None, s\<lparr>fs_tmp := AList.delete tmp (fs_tmp s),
                                    fs_dir := AList.update n f (fs_dir s)\<rparr>)))"

section \<open>The disk cache\<close>

record disk =
  d_dir :: string
  d_limit :: "64 word"

definition disk_new :: "go_error option \<Rightarrow> string \<Rightarrow> 64 word \<Rightarrow> disk result" where
  "disk_new mkdir_err dir limit =
     (case mkdir_err of
        Some e \<Rightarrow> if \<not> errors_is e ErrExist then Inl e else Inr \<lparr>d_dir = dir, d_limit = limit\<rparr>
      | None \<Rightarrow> Inr \<lparr>d_dir = dir, d_limit = limit\<rparr>)"

text \<open>The name of an entry's file inside the disk's directory.\<close>

definition path_name :: "string \<Rightarrow> string" where
  "path_name key = hex_encode (sha256 key)"

text \<open>
  The reader of the blob reads from the open file while the caller consumes it, so it may still fail
  after \<^verbatim>\<open>Get\<close> has returned.
\<close>

definition getInner :: "os_env \<Rightarrow> dfile \<Rightarrow> (reader \<times> info) result" where
  "getInner env f =
     (case env_fstat env of
        Some e \<Rightarrow> Inl (if errors_is e ErrNotExist then ErrNotFound else Wrap ''stat(2) failed'' e)
      | None \<Rightarrow>
          (case f_content f of
             Raw _ \<Rightarrow> Inl (Wrap ''failed to open as a ZIP file'' (Errorf ''zip: not a valid zip file''))
           | Archive ms \<Rightarrow>
               (case env_read_zip env of
                  Some e \<Rightarrow> Inl (Wrap ''failed to open as a ZIP file'' e)
                | None \<Rightarrow>
                    (case readInfo (env_read_info env) ms of
                       Inl e \<Rightarrow> Inl (Wrap ''failed to read from ZIP file'' e)
                     | Inr i \<Rightarrow>
                         (case map_of ms fileBlob of
                            None \<Rightarrow> Inl (Wrap ''failed to read from ZIP file'' ErrNotExist)
                          | Some b \<Rightarrow>
                              (case env_open_blob env of
                                 Some e \<Rightarrow> Inl (Wrap ''failed to read from ZIP file'' e)
                               | None \<Rightarrow> Inr (cut_reader (env_read_blob env) b, i)))))))"

text \<open>
  Closing the reader of an entry closes the archive member, which never fails, and the file, whose
  descriptor is gone also when \<^verbatim>\<open>close\<close> reports an error.
\<close>

definition reader_close :: "os_env \<Rightarrow> fs \<Rightarrow> go_error option \<times> fs" where
  "reader_close env s = (env_close env, os_close s)"

definition disk_get :: "(os_env, fs) cache_get" where
  "disk_get env s key =
     (case os_open env s (path_name key) of
        (Inl e, s1) \<Rightarrow>
          (Inl (if errors_is e ErrNotExist then ErrNotFound
                else Wrap ''failed to open cache entry'' e), s1)
      | (Inr f, s1) \<Rightarrow>
          (case os_chtimes env s1 (path_name key) (env_now env) of
             (Some e, s2) \<Rightarrow>
               (Inl (if errors_is e ErrNotExist then ErrNotFound
                     else Wrap ''failed to set access and modification times'' e), os_close s2)
           | (None, s2) \<Rightarrow>
               (case getInner env f of
                  Inl e \<Rightarrow> (Inl (Wrap ''failed to read cache entry'' e), os_close s2)
                | Inr (b, i) \<Rightarrow> (Inr (b, info_metadata i), s2))))"

section \<open>Eviction\<close>

definition os_read_dir :: "os_env \<Rightarrow> fs \<Rightarrow> (string \<times> dfile) list result" where
  "os_read_dir env s = try_err (env_read_dir env) (Inr (sort_key fst (fs_dir s)))"

fun collect_entries :: "os_env \<Rightarrow> (string \<times> dfile) list \<Rightarrow> dirent list result" where
  "collect_entries env [] = Inr []"
| "collect_entries env ((n, f) # rest) =
     (case env_info env n of
        Some e \<Rightarrow> Inl e
      | None \<Rightarrow>
          (case collect_entries env rest of
             Inl e \<Rightarrow> Inl e
           | Inr es \<Rightarrow>
               Inr (\<lparr>e_name = n, e_size = of_nat (content_size (f_content f)), e_mtime = f_mtime f\<rparr> # es)))"

text \<open>The loop over the sorted entries; sums and differences wrap as \<^verbatim>\<open>uint64\<close> does.\<close>

fun evict_loop ::
    "os_env \<Rightarrow> 64 word \<Rightarrow> 64 word \<Rightarrow> 64 word \<Rightarrow> dirent list \<Rightarrow> fs \<Rightarrow> go_error option \<times> fs" where
  "evict_loop env limit need used [] s = (None, s)"
| "evict_loop env limit need used (x # xs) s =
     (if used + need \<le> limit then (None, s)
      else (case os_remove env s (e_name x) of
              (Some e, s') \<Rightarrow> (Some e, s')
            | (None, s') \<Rightarrow> evict_loop env limit need (used - e_size x) xs s'))"

definition evict :: "os_env \<Rightarrow> disk \<Rightarrow> fs \<Rightarrow> 64 word \<Rightarrow> go_error option \<times> fs" where
  "evict env d s need =
     (if need > d_limit d then
        (Some (Errorf ''cannot accept cache entry: larger than the disk limit''), s)
      else
        (case os_read_dir env s of
           Inl e \<Rightarrow> (Some e, s)
         | Inr dirEntries \<Rightarrow>
             (case collect_entries env dirEntries of
                Inl e \<Rightarrow> (Some e, s)
              | Inr entries \<Rightarrow>
                  (let sorted = env_sort env entries;
                       usedBytes = sum_list (map e_size sorted)
                   in evict_loop env (d_limit d) need usedBytes sorted s))))"

definition accept :: "os_env \<Rightarrow> disk \<Rightarrow> fs \<Rightarrow> string \<Rightarrow> string \<Rightarrow> go_error option \<times> fs" where
  "accept env d s key tmp =
     (case map_of (fs_tmp s) tmp of
        None \<Rightarrow> (Some ErrNotExist, s)
      | Some f \<Rightarrow>
          (case env_stat env of
             Some e \<Rightarrow> (Some e, s)
           | None \<Rightarrow>
               (case evict env d s (of_nat (content_size (f_content f))) of
                  (Some e, s1) \<Rightarrow> (Some e, s1)
                | (None, s1) \<Rightarrow> os_rename env s1 tmp (path_name key))))"

section \<open>Put, Delete, Walk\<close>

text \<open>The cleanup of a failed \<^verbatim>\<open>Put\<close>: close the temporary file and remove it.\<close>

definition put_abort :: "os_env \<Rightarrow> fs \<Rightarrow> string \<Rightarrow> fs" where
  "put_abort env s tmp = os_remove_tmp env (os_close s) tmp"

text \<open>
  Writing the entry to the temporary file: the error if it failed, and how many bytes of the blob
  were read. What a failed write leaves in the temporary file is not kept, it is removed or
  never looked at again. \<^verbatim>\<open>io.Copy\<close> ends at the write error, at the blob's read error or at its end.
\<close>

definition stage :: "os_env \<Rightarrow> fs \<Rightarrow> string \<Rightarrow> metadata \<Rightarrow> reader \<Rightarrow> (go_error + string) \<times> nat \<times> fs" where
  "stage env s key m b =
     (case os_create_temp env s of
        (Inl e, s1) \<Rightarrow> (Inl (Wrap ''failed to create a temporary file'' e), 0, s1)
      | (Inr tmp, s1) \<Rightarrow>
          (case writeInfo (env_write_info env) [] \<lparr>info_key = key, info_metadata = m\<rparr> of
             Inl e \<Rightarrow> (Inl (Wrap ''failed to write info.json'' e), 0, put_abort env s1 tmp)
           | Inr ms \<Rightarrow>
               (case env_write_header env of
                  Some e \<Rightarrow> (Inl (Wrap ''failed to write blob.bin'' e), 0, put_abort env s1 tmp)
                | None \<Rightarrow>
                    (case (case env_write_blob env of
                             Some (n, e) \<Rightarrow> if n \<le> length (rd_data b) then (Some e, n)
                                           else (rd_err b, length (rd_data b))
                           | None \<Rightarrow> (rd_err b, length (rd_data b))) of
                       (Some e, n) \<Rightarrow> (Inl (Wrap ''failed to write blob.bin'' e), n, put_abort env s1 tmp)
                     | (None, n) \<Rightarrow>
                         (case env_zip_close env of
                            Some e \<Rightarrow> (Inl (Wrap ''failed to finalize cache entry'' e), n, put_abort env s1 tmp)
                          | None \<Rightarrow>
                              let s2 = os_write_tmp env s1 tmp (Archive (ms @ [(fileBlob, rd_data b)]))
                              in (case env_tmp_close env of
                                    Some e \<Rightarrow> (Inl (Wrap ''failed to close cache entry'' e), n, put_abort env s2 tmp)
                                  | None \<Rightarrow> (Inr tmp, n, os_close s2)))))))"

definition disk_put :: "disk \<Rightarrow> (os_env, fs) cache_put" where
  "disk_put d env s key m b =
     (case stage env s key m b of
        (Inl e, n, s1) \<Rightarrow> ((Some e, n), s1)
      | (Inr tmp, n, s1) \<Rightarrow>
          (case accept env d s1 key tmp of
             (Some e, s2) \<Rightarrow> ((Some (Wrap ''failed to accept cache entry'' e), n), os_remove_tmp env s2 tmp)
           | (None, s2) \<Rightarrow> ((None, n), s2)))"

definition disk_delete :: "os_env \<Rightarrow> fs \<Rightarrow> string \<Rightarrow> go_error option \<times> fs" where
  "disk_delete env s key =
     (case os_remove env s (path_name key) of
        (Some e, s1) \<Rightarrow> (Some (if errors_is e ErrNotExist then ErrNotFound else e), s1)
      | (None, s1) \<Rightarrow> (None, s1))"

text \<open>
  \<^verbatim>\<open>Walk\<close> runs outside the mutex. The callback gets the entry or the error; it owns the reader and says
  (the flag) whether it closed it.
\<close>

type_synonym 'a walk_func = "(reader \<times> info) result \<Rightarrow> 'a \<Rightarrow> go_error option \<times> bool \<times> 'a"

fun walk_loop :: "os_env \<Rightarrow> 'a walk_func \<Rightarrow> (string \<times> dfile) list \<Rightarrow> fs \<Rightarrow> 'a \<Rightarrow> go_error option \<times> fs \<times> 'a" where
  "walk_loop env cb [] s a = (None, s, a)"
| "walk_loop env cb ((n, _) # rest) s a =
     (case os_open env s n of
        (Inl e, s1) \<Rightarrow>
          (case cb (Inl e) a of
             (Some e', _, a') \<Rightarrow> (Some e', s1, a')
           | (None, _, a') \<Rightarrow> walk_loop env cb rest s1 a')
      | (Inr f, s1) \<Rightarrow>
          (case getInner env f of
             Inl e \<Rightarrow>
               (case cb (Inl e) a of
                  (Some e', _, a') \<Rightarrow> (Some e', s1, a')
                | (None, _, a') \<Rightarrow> walk_loop env cb rest s1 a')
           | Inr bi \<Rightarrow>
               (case cb (Inr bi) a of
                  (r, closed, a') \<Rightarrow>
                    let s2 = (if closed then os_close s1 else s1)
                    in (case r of Some e' \<Rightarrow> (Some e', s2, a')
                                | None \<Rightarrow> walk_loop env cb rest s2 a'))))"

definition walk :: "os_env \<Rightarrow> 'a walk_func \<Rightarrow> fs \<Rightarrow> 'a \<Rightarrow> go_error option \<times> fs \<times> 'a" where
  "walk env cb s a =
     (case os_read_dir env s of
        Inl e \<Rightarrow> (Some e, s, a)
      | Inr dirEntries \<Rightarrow> walk_loop env cb dirEntries s a)"

end
