(* ===== verification/DiskCorrect.thy ===== *)
theory DiskCorrect
  imports Disk "HOL-Library.Multiset"
begin

text \<open>
  Correctness of the disk cache: it implements the \<^verbatim>\<open>Cache\<close> contract for every behaviour of the
  system calls, stays within its limit, evicts least recently used entries and no more than it has
  to, round-trips entries, and leaves no temporary files or open descriptors behind.
\<close>

section \<open>What is stored\<close>

definition entry_of :: "dfile \<Rightarrow> (metadata \<times> string) option" where
  "entry_of f =
     (case f_content f of
        Raw _ \<Rightarrow> None
      | Archive ms \<Rightarrow>
          (case readInfo None ms of
             Inl _ \<Rightarrow> None
           | Inr i \<Rightarrow> map_option (\<lambda>b. (info_metadata i, b)) (map_of ms fileBlob)))"

definition disk_stored :: "fs \<Rightarrow> string \<Rightarrow> (metadata \<times> string) option" where
  "disk_stored s n = Option.bind (map_of (fs_dir s) n) entry_of"

definition disk_inv :: "fs \<Rightarrow> bool" where
  "disk_inv s \<longleftrightarrow> wf_alist (fs_dir s) \<and> wf_alist (fs_tmp s)"

text \<open>The number of bytes the files of the cache directory take.\<close>

definition file_size :: "string \<times> dfile \<Rightarrow> nat" where
  "file_size p = content_size (f_content (snd p))"

definition used_bytes :: "fs \<Rightarrow> nat" where
  "used_bytes s = sum_list (map file_size (fs_dir s))"

text \<open>\<^verbatim>\<open>slices.SortFunc\<close> with \<^verbatim>\<open>ModTime.Compare\<close>: a permutation in ascending order of time.\<close>

definition env_sorts :: "os_env \<Rightarrow> bool" where
  "env_sorts env \<longleftrightarrow>
     (\<forall>es. mset (env_sort env es) = mset es \<and> sorted (map e_mtime (env_sort env es)))"

text \<open>An environment in which every call succeeds, with a stable sort.\<close>

definition quiet_env :: "int \<Rightarrow> string \<Rightarrow> os_env" where
  "quiet_env now tmp =
     \<lparr>env_now = now, env_open = (\<lambda>_. None), env_chtimes = (\<lambda>_. None), env_fstat = None,
      env_read_zip = None, env_read_info = None, env_open_blob = None, env_read_blob = None,
      env_remove = (\<lambda>_. None), env_create_temp = None, env_temp_name = tmp, env_write_info = None,
      env_write_header = None, env_write_blob = None, env_zip_close = None, env_tmp_close = None,
      env_stat = None, env_read_dir = None, env_info = (\<lambda>_. None), env_rename = None,
      env_close = None, env_sort = sort_key e_mtime\<rparr>"

lemma quiet_env_sorts: "env_sorts (quiet_env now tmp)"
  by (simp add: env_sorts_def quiet_env_def)

section \<open>Entry information\<close>

lemma info_roundtrip:
  "json_decode (marshal_info i) =
     Inr (JObj [(''key'', JStr (coerce_utf8 (info_key i))),
                (''metadata'', JObj (metadata_members (info_metadata i)))])"
proof -
  let ?md = "marshal_metadata (info_metadata i)"
  let ?m = "json_string ''metadata'' @ CHR '':'' # ?md @ CHR ''}'' # [CHR 0x0A]"
  let ?k = "json_string ''key'' @ CHR '':'' # json_string (info_key i) @ CHR '','' # ?m"
  have "length (marshal_info i) \<ge> 8"
    by (simp add: marshal_info_def json_string_def)
  moreover define n where "n = length (marshal_info i) - 5"
  ultimately have n: "length (marshal_info i) = Suc (Suc (Suc (Suc (Suc n))))" by simp
  have "parse_members (Suc (Suc (Suc (Suc n)))) ?m =
      Some ([(''metadata'', JObj (metadata_members (info_metadata i)))], [CHR 0x0A])"
    using parse_marshal_metadata [of n "info_metadata i"] by (simp add: parse_members_member)
  then have "parse_members (Suc (Suc (Suc (Suc (Suc n))))) ?k =
      Some ([(''key'', JStr (coerce_utf8 (info_key i))),
             (''metadata'', JObj (metadata_members (info_metadata i)))], [CHR 0x0A])"
    using parse_members_member [of "Suc (Suc (Suc (Suc n)))" "json_string (info_key i)" "CHR '',''" ?m]
    by (simp add: parse_value_json_string)
  from parse_value_object [OF this] show ?thesis
    by (simp add: json_decode_def marshal_info_def n [unfolded marshal_info_def, simplified])
qed

lemma readInfo_written:
  "readInfo None [(fileInfo, marshal_info i), (fileBlob, b)] =
     Inr \<lparr>info_key = coerce_utf8 (info_key i), info_metadata = coerce_metadata (info_metadata i)\<rparr>"
proof -
  have "equal_fold ''key'' ''key''" "\<not> equal_fold ''metadata'' ''key''" "equal_fold ''metadata'' ''metadata''"
    by code_simp+
  then show ?thesis
    using decode_metadata_members [of "info_metadata i"]
    by (simp add: readInfo_def info_roundtrip decode_info_def info_field_def string_field_def no_info_def)
qed

text \<open>The archive \<^verbatim>\<open>Put\<close> writes, and what \<^verbatim>\<open>Get\<close> reads from it.\<close>

definition entry_archive :: "string \<Rightarrow> metadata \<Rightarrow> string \<Rightarrow> content" where
  "entry_archive key m b =
     Archive [(fileInfo, marshal_info \<lparr>info_key = key, info_metadata = m\<rparr>), (fileBlob, b)]"

lemma file_names_distinct [simp]: "fileInfo \<noteq> fileBlob" "fileBlob \<noteq> fileInfo"
  by (simp_all add: fileInfo_def fileBlob_def)

lemma entry_of_archive: "f_content f = entry_archive key m b \<Longrightarrow> entry_of f = Some (coerce_metadata m, b)"
  by (simp add: entry_of_def entry_archive_def readInfo_written)

lemma getInner_entry:
  "getInner env f = Inr (b, i) \<Longrightarrow> \<exists>d. entry_of f = Some (info_metadata i, d) \<and> b = cut_reader (env_read_blob env) d"
  by (auto simp: getInner_def entry_of_def readInfo_def split: option.splits content.splits sum.splits)

lemma entry_getInner:
  "env_fstat env = None \<Longrightarrow> env_read_zip env = None \<Longrightarrow> env_read_info env = None \<Longrightarrow> env_open_blob env = None \<Longrightarrow>
     entry_of f = Some (m, b) \<Longrightarrow>
     \<exists>i. getInner env f = Inr (cut_reader (env_read_blob env) b, i) \<and> info_metadata i = m"
  by (auto simp: getInner_def entry_of_def split: content.splits sum.splits option.splits)

section \<open>System calls\<close>

lemma entry_of_mtime [simp]: "entry_of (f\<lparr>f_mtime := t\<rparr>) = entry_of f"
  by (simp add: entry_of_def)

lemma disk_stored_fds [simp]: "disk_stored (s\<lparr>fs_fds := n\<rparr>) = disk_stored s"
  by (simp add: disk_stored_def fun_eq_iff)

lemma disk_stored_tmp [simp]: "disk_stored (s\<lparr>fs_tmp := t\<rparr>) = disk_stored s"
  by (simp add: disk_stored_def fun_eq_iff)

lemma disk_inv_fds [simp]: "disk_inv (s\<lparr>fs_fds := n\<rparr>) = disk_inv s"
  by (simp add: disk_inv_def)

lemma used_bytes_simps [simp]:
  "used_bytes (s\<lparr>fs_fds := n\<rparr>) = used_bytes s" "used_bytes (s\<lparr>fs_tmp := t\<rparr>) = used_bytes s"
  by (simp_all add: used_bytes_def)

lemma os_open_cases:
  "os_open env s n = (r, s') \<Longrightarrow>
     (\<exists>f. r = Inr f \<and> map_of (fs_dir s) n = Some f \<and> s' = s\<lparr>fs_fds := Suc (fs_fds s)\<rparr>) \<or>
     (\<exists>e. r = Inl e \<and> s' = s)"
  by (auto simp: os_open_def split: option.splits)

lemma os_chtimes_cases:
  "os_chtimes env s n t = (r, s') \<Longrightarrow>
     (\<exists>f. r = None \<and> map_of (fs_dir s) n = Some f \<and>
          s' = s\<lparr>fs_dir := AList.update n (f\<lparr>f_mtime := t\<rparr>) (fs_dir s)\<rparr>) \<or>
     (\<exists>e. r = Some e \<and> s' = s)"
  by (auto simp: os_chtimes_def split: option.splits)

lemma stored_touch:
  "map_of (fs_dir s) n = Some f \<Longrightarrow>
     disk_stored (s\<lparr>fs_dir := AList.update n (f\<lparr>f_mtime := t\<rparr>) (fs_dir s)\<rparr>) = disk_stored s"
  by (auto simp: disk_stored_def fun_eq_iff)

section \<open>Get\<close>

lemma disk_get_cases:
  assumes "disk_get env s key = (r, s')"
  obtains (miss) e where "r = Inl e" "s' = s"
  | (broken) e f where "r = Inl e" "map_of (fs_dir s) (path_name key) = Some f"
      "s' = s\<lparr>fs_dir := AList.update (path_name key) (f\<lparr>f_mtime := env_now env\<rparr>) (fs_dir s)\<rparr>"
  | (hit) f b i where "r = Inr (b, info_metadata i)" "map_of (fs_dir s) (path_name key) = Some f"
      "getInner env f = Inr (b, i)"
      "s' = s\<lparr>fs_dir := AList.update (path_name key) (f\<lparr>f_mtime := env_now env\<rparr>) (fs_dir s),
             fs_fds := Suc (fs_fds s)\<rparr>"
  using assms
  by (auto simp: disk_get_def os_close_def
      dest!: os_open_cases os_chtimes_cases split: prod.splits sum.splits option.splits)

text \<open>A descriptor stays open exactly when the caller gets a reader to close.\<close>

lemma disk_get_fds:
  "disk_get env s key = (r, s') \<Longrightarrow> fs_fds s' = (case r of Inl _ \<Rightarrow> fs_fds s | Inr _ \<Rightarrow> Suc (fs_fds s))"
  by (erule disk_get_cases) auto

lemma disk_get_inv: "disk_inv s \<Longrightarrow> disk_get env s key = (r, s') \<Longrightarrow> disk_inv s'"
  by (erule disk_get_cases) (auto simp: disk_inv_def)

lemma disk_get_stored: "disk_get env s key = (r, s') \<Longrightarrow> disk_stored s' = disk_stored s"
  by (erule disk_get_cases) (auto simp: stored_touch)

lemma disk_get_sound:
  "disk_get env s key = (Inr (b, m), s') \<Longrightarrow>
     \<exists>d. disk_stored s (path_name key) = Some (m, d) \<and> b = cut_reader (env_read_blob env) d"
  by (erule disk_get_cases) (auto simp: disk_stored_def dest!: getInner_entry)

section \<open>Eviction removes a prefix of the sorted entries\<close>

definition without :: "string set \<Rightarrow> fs \<Rightarrow> fs" where
  "without ns s = s\<lparr>fs_dir := filter (\<lambda>p. fst p \<notin> ns) (fs_dir s)\<rparr>"

lemma without_empty [simp]: "without {} s = s"
  by (simp add: without_def)

lemma without_without: "without A (without B s) = without (A \<union> B) s"
  by (simp add: without_def conj_commute)

lemma without_simps [simp]:
  "fs_tmp (without ns s) = fs_tmp s" "fs_fds (without ns s) = fs_fds s"
  "fs_dir (without ns s) = filter (\<lambda>p. fst p \<notin> ns) (fs_dir s)"
  by (simp_all add: without_def)

lemma map_of_filter_fst: "map_of (filter (\<lambda>p. fst p \<notin> ns) xs) n = (if n \<in> ns then None else map_of xs n)"
  by (induction xs) auto

lemma disk_stored_without: "disk_stored (without ns s) n = (if n \<in> ns then None else disk_stored s n)"
  by (simp add: disk_stored_def map_of_filter_fst)

lemma disk_inv_without: "disk_inv s \<Longrightarrow> disk_inv (without ns s)"
  by (simp add: disk_inv_def wf_alist_def distinct_map_filter)

lemma os_remove_cases:
  "os_remove env s n = (r, s') \<Longrightarrow> (r = None \<and> s' = without {n} s) \<or> (\<exists>e. r = Some e \<and> s' = s)"
  by (auto simp: os_remove_def without_def AList_delete_filter split: option.splits)

text \<open>
  The loop removes the first \<open>k\<close> entries, where \<open>k\<close> is the first position at which what is left and the
  new entry fit, or it stops with the error of a removal.
\<close>

lemma evict_loop_prefix:
  "evict_loop env limit need used xs s = (r, s') \<Longrightarrow>
     \<exists>k \<le> length xs.
       s' = without (e_name ` set (take k xs)) s \<and>
       (\<forall>j < k. \<not> used - sum_list (map e_size (take j xs)) + need \<le> limit) \<and>
       (r = None \<longrightarrow> k = length xs \<or> used - sum_list (map e_size (take k xs)) + need \<le> limit)"
proof (induction xs arbitrary: used s)
  case Nil
  then show ?case by simp
next
  case (Cons x xs)
  show ?case
  proof (cases "used + need \<le> limit")
    case True
    with Cons.prems show ?thesis by (intro exI [of _ 0]) auto
  next
    case False
    obtain q t where t: "os_remove env s (e_name x) = (q, t)" by fastforce
    show ?thesis
    proof (cases q)
      case (Some e)
      with t have "t = s" using os_remove_cases by blast
      with Cons.prems False t Some show ?thesis by (intro exI [of _ 0]) auto
    next
      case None
      with t have tw: "t = without {e_name x} s" using os_remove_cases by blast
      from Cons.prems False t None
      have "evict_loop env limit need (used - e_size x) xs t = (r, s')" by simp
      from Cons.IH [OF this] obtain k where k: "k \<le> length xs"
        "s' = without (e_name ` set (take k xs)) t"
        "\<forall>j < k. \<not> used - e_size x - sum_list (map e_size (take j xs)) + need \<le> limit"
        "r = None \<longrightarrow> k = length xs \<or>
           used - e_size x - sum_list (map e_size (take k xs)) + need \<le> limit"
        by blast
      have "\<not> used - sum_list (map e_size (take j (x # xs))) + need \<le> limit" if "j < Suc k" for j
        using that k(3) False by (cases j) (auto simp: diff_diff_eq)
      with k show ?thesis
        by (intro exI [of _ "Suc k"]) (auto simp: tw without_without diff_diff_eq insert_commute)
    qed
  qed
qed

section \<open>Sizes\<close>

lemma collect_entries_ok:
  "collect_entries env xs = Inr es \<Longrightarrow>
     es = map (\<lambda>(n, f). \<lparr>e_name = n, e_size = of_nat (content_size (f_content f)), e_mtime = f_mtime f\<rparr>) xs"
  by (induction xs arbitrary: es) (auto split: option.splits sum.splits prod.splits)

text \<open>
  The entries the loop runs over, for a directory with distinct names: a permutation of the
  directory, in ascending order of modification time.
\<close>

definition dirent_of :: "string \<times> dfile \<Rightarrow> dirent" where
  "dirent_of p = \<lparr>e_name = fst p, e_size = of_nat (file_size p), e_mtime = f_mtime (snd p)\<rparr>"

lemma dirent_of_simps [simp]:
  "e_name (dirent_of p) = fst p" "e_size (dirent_of p) = of_nat (file_size p)"
  "e_mtime (dirent_of p) = f_mtime (snd p)"
  by (simp_all add: dirent_of_def)

lemma mset_eq_image:
  "mset xs = image_mset f M \<Longrightarrow> \<exists>ps. xs = map f ps \<and> mset ps = M"
proof (induction xs arbitrary: M)
  case (Cons x xs)
  then have "x \<in># image_mset f M" by (metis list.set_intros(1) set_mset_mset)
  then obtain y N where y: "f y = x" "M = add_mset y N" by (auto dest!: multi_member_split)
  with Cons.prems have "mset xs = image_mset f N" by simp
  from Cons.IH [OF this] obtain ps where "xs = map f ps" "mset ps = N" by blast
  with y show ?case by (intro exI [of _ "y # ps"]) simp
qed simp

lemma sorted_entries:
  assumes "env_sorts env" and "collect_entries env (sort_key fst (fs_dir s)) = Inr es"
  obtains ps where "env_sort env es = map dirent_of ps" "mset ps = mset (fs_dir s)"
    "sorted (map (\<lambda>p. f_mtime (snd p)) ps)"
proof -
  have es: "es = map dirent_of (sort_key fst (fs_dir s))"
    using collect_entries_ok [OF assms(2)]
    by (simp add: dirent_of_def file_size_def case_prod_beta)
  have "mset (env_sort env es) = image_mset dirent_of (mset (fs_dir s))"
    using assms(1) by (simp add: env_sorts_def es)
  then obtain ps where ps: "env_sort env es = map dirent_of ps" "mset ps = mset (fs_dir s)"
    by (blast dest: mset_eq_image)
  have "sorted (map e_mtime (env_sort env es))" using assms(1) by (simp add: env_sorts_def)
  then have "sorted (map (\<lambda>p. f_mtime (snd p)) ps)" by (simp add: ps(1) comp_def)
  with ps that show thesis by blast
qed

lemma sum_of_nat_sizes: "sum_list (map e_size (map dirent_of ps)) = of_nat (sum_list (map file_size ps))"
  by (induction ps) simp_all

lemma used_bytes_mset: "mset ps = mset (fs_dir s) \<Longrightarrow> sum_list (map file_size ps) = used_bytes s"
  by (metis mset_map sum_mset_sum_list used_bytes_def)

lemma without_prefix:
  assumes "mset ps = mset (fs_dir s)" and "wf_alist (fs_dir s)"
  shows "mset (fs_dir (without (fst ` set (take k ps)) s)) = mset (drop k ps)"
proof -
  have d: "distinct (map fst ps)"
    using assms by (metis mset_eq_imp_distinct_iff mset_map wf_alist_def)
  have "filter (\<lambda>p. fst p \<notin> fst ` set (take k ps)) ps = drop k ps"
  proof -
    have "filter (\<lambda>p. fst p \<notin> fst ` set (take k ps)) (take k ps @ drop k ps) = drop k ps"
    proof -
      have "fst ` set (take k ps) \<inter> fst ` set (drop k ps) = {}"
        using d by (metis append_take_drop_id distinct_append map_append set_map)
      then have "filter (\<lambda>p. fst p \<notin> fst ` set (take k ps)) (drop k ps) = drop k ps"
        by (intro filter_True) auto
      moreover have "filter (\<lambda>p. fst p \<notin> fst ` set (take k ps)) (take k ps) = []"
        by (auto simp: filter_empty_conv)
      ultimately show ?thesis by (simp only: filter_append append_Nil)
    qed
    then show ?thesis by simp
  qed
  moreover have "mset (fs_dir (without (fst ` set (take k ps)) s)) =
      mset (filter (\<lambda>p. fst p \<notin> fst ` set (take k ps)) ps)"
    using assms(1) by simp
  ultimately show ?thesis by simp
qed

lemma used_bytes_without_prefix:
  assumes "mset ps = mset (fs_dir s)" and "wf_alist (fs_dir s)"
  shows "used_bytes s =
    sum_list (map file_size (take k ps)) + used_bytes (without (fst ` set (take k ps)) s)"
proof -
  have "used_bytes s = sum_list (map file_size (take k ps @ drop k ps))"
    using used_bytes_mset [OF assms(1)] by simp
  also have "\<dots> = sum_list (map file_size (take k ps)) + sum_list (map file_size (drop k ps))"
    by (simp only: map_append sum_list_append)
  also have "sum_list (map file_size (drop k ps)) = used_bytes (without (fst ` set (take k ps)) s)"
    using without_prefix [OF assms, of k] by (metis used_bytes_mset)
  finally show ?thesis .
qed

lemma word_fits:
  assumes "a + b < 2 ^ 64"
  shows "(of_nat a + of_nat b \<le> (l :: 64 word)) \<longleftrightarrow> a + b \<le> unat l"
proof -
  have "unat (of_nat n :: 64 word) = n" if "n < 2 ^ 64" for n
    using that by (simp add: unat_of_nat take_bit_nat_eq_self)
  from this [OF assms] show ?thesis by (simp only: word_le_nat_alt of_nat_add [symmetric])
qed

text \<open>
  What eviction does, in terms of numbers: it removes the \<open>k\<close> oldest entries, where \<open>k\<close> is the least
  number after whose removal the new entry fits under the limit.
\<close>

lemma evict_outcome:
  assumes "env_sorts env" and "disk_inv s"
    and "evict env d s (of_nat need) = (r, s')" and "used_bytes s + need < 2 ^ 64"
  shows "(\<exists>e. r = Some e \<and> s' = s) \<or>
    (\<exists>ps k. mset ps = mset (fs_dir s) \<and> sorted (map (\<lambda>p. f_mtime (snd p)) ps) \<and> k \<le> length ps \<and>
       s' = without (fst ` set (take k ps)) s \<and>
       (\<forall>j < k. unat (d_limit d) < used_bytes (without (fst ` set (take j ps)) s) + need) \<and>
       (r = None \<longrightarrow> used_bytes s' + need \<le> unat (d_limit d)))"
proof (cases "(of_nat need :: 64 word) > d_limit d \<or> env_read_dir env \<noteq> None")
  case True
  with assms(3) show ?thesis by (auto simp: evict_def os_read_dir_def split: if_splits)
next
  case False
  then have need: "need \<le> unat (d_limit d)"
    using assms(4) word_fits [of need 0 "d_limit d"] by (simp add: not_less)
  show ?thesis
  proof (cases "collect_entries env (sort_key fst (fs_dir s))")
    case (Inl e)
    with assms(3) False show ?thesis by (auto simp: evict_def os_read_dir_def)
  next
    case (Inr es)
    from sorted_entries [OF assms(1) Inr] obtain ps where ps: "env_sort env es = map dirent_of ps"
      "mset ps = mset (fs_dir s)" "sorted (map (\<lambda>p. f_mtime (snd p)) ps)" .
    let ?w = "\<lambda>k. without (fst ` set (take k ps)) s"
    have wf: "wf_alist (fs_dir s)" using assms(2) by (simp add: disk_inv_def)
    have used: "sum_list (map e_size (map dirent_of ps)) = of_nat (used_bytes s)"
      using used_bytes_mset [OF ps(2)] by (simp only: sum_of_nat_sizes)
    have rest: "of_nat (used_bytes s) - sum_list (map e_size (take k (map dirent_of ps))) =
        (of_nat (used_bytes (?w k)) :: 64 word)" for k
      unfolding take_map sum_of_nat_sizes using used_bytes_without_prefix [OF ps(2) wf, of k] by simp
    have fits: "of_nat (used_bytes s) - sum_list (map e_size (take k (map dirent_of ps))) + of_nat need
        \<le> d_limit d \<longleftrightarrow> used_bytes (?w k) + need \<le> unat (d_limit d)" for k
      unfolding rest
      using used_bytes_without_prefix [OF ps(2) wf, of k] assms(4) by (intro word_fits) simp
    from assms(3) False Inr ps(1)
    have "evict_loop env (d_limit d) (of_nat need) (of_nat (used_bytes s)) (map dirent_of ps) s = (r, s')"
      by (simp add: evict_def os_read_dir_def used [simplified] Let_def)
    from evict_loop_prefix [OF this, unfolded fits] obtain k where k: "k \<le> length ps" "s' = ?w k"
      "\<forall>j < k. \<not> used_bytes (?w j) + need \<le> unat (d_limit d)"
      "r = None \<longrightarrow> k = length ps \<or> used_bytes (?w k) + need \<le> unat (d_limit d)"
      by (auto simp: take_map image_image)
    have "used_bytes (?w (length ps)) = 0"
      using used_bytes_without_prefix [OF ps(2) wf, of "length ps"] used_bytes_mset [OF ps(2)] by simp
    with k need have "r = None \<longrightarrow> used_bytes s' + need \<le> unat (d_limit d)" by auto
    with k ps show ?thesis by (intro disjI2 exI [of _ ps] exI [of _ k]) (auto simp: not_le)
  qed
qed

section \<open>Eviction, staging and acceptance as changes of the directory\<close>

lemma evict_without: "evict env d s need = (r, s') \<Longrightarrow> \<exists>ns. s' = without ns s"
  by (auto simp: evict_def Let_def split: if_splits sum.splits
      dest!: evict_loop_prefix intro: exI [of _ "{}"])

lemma accept_cases:
  assumes "accept env d s key tmp = (r, s')"
  obtains (failed) e ns where "r = Some e" "s' = without ns s"
  | (accepted) f ns where "r = None" "map_of (fs_tmp s) tmp = Some f"
      "evict env d s (of_nat (content_size (f_content f))) = (None, without ns s)"
      "s' = without ns s\<lparr>fs_tmp := AList.delete tmp (fs_tmp s),
                          fs_dir := AList.update (path_name key) f (fs_dir (without ns s))\<rparr>"
proof (cases "map_of (fs_tmp s) tmp")
  case None
  with assms failed [of _ "{}"] show thesis by (auto simp: accept_def)
next
  case (Some f)
  show thesis
  proof (cases "env_stat env")
    case (Some e)
    with assms \<open>map_of (fs_tmp s) tmp = Some f\<close> show thesis
      by (intro failed [of e "{}"]) (auto simp: accept_def)
  next
    case None
    obtain q t where t: "evict env d s (of_nat (content_size (f_content f))) = (q, t)" by fastforce
    obtain ns where ns: "t = without ns s" using evict_without [OF t] by blast
    have a: "accept env d s key tmp =
        (case q of Some e \<Rightarrow> (Some e, t) | None \<Rightarrow> os_rename env t tmp (path_name key))"
      using None \<open>map_of (fs_tmp s) tmp = Some f\<close> t by (simp add: accept_def split: option.splits)
    show thesis
    proof (cases "q = None \<and> env_rename env = None")
      case True
      with a assms \<open>map_of (fs_tmp s) tmp = Some f\<close> t ns show thesis
        by (intro accepted [of f ns]) (auto simp: os_rename_def)
    next
      case False
      with a assms \<open>map_of (fs_tmp s) tmp = Some f\<close> ns have "s' = without ns s" "r \<noteq> None"
        by (auto simp: os_rename_def split: option.splits)
      with failed show thesis by blast
    qed
  qed
qed

text \<open>
  Staging either fails, having removed its temporary file (when the system lets it), or leaves the
  complete archive in a fresh temporary file with no descriptor open.
\<close>

lemma os_remove_fresh_tmp:
  "map_of ts tmp = None \<Longrightarrow> AList.delete tmp (AList.update tmp f ts) = ts"
  by (simp add: delete_update_same map_of_eq_None_iff)

definition staged :: "os_env \<Rightarrow> fs \<Rightarrow> string \<Rightarrow> metadata \<Rightarrow> reader \<Rightarrow> fs" where
  "staged env s key m b =
     s\<lparr>fs_tmp := AList.update (env_temp_name env)
        \<lparr>f_content = entry_archive key m (rd_data b), f_mtime = env_now env\<rparr> (fs_tmp s)\<rparr>"

lemma update_idem_twice: "AList.update k v (AList.update k w xs) = AList.update k v xs"
  by (induction xs) auto

lemma stage_cases:
  assumes "stage env s key m b = (r, n, s')"
  obtains (failed) e ts where "r = Inl e" "s' = s\<lparr>fs_tmp := ts\<rparr>" "wf_alist (fs_tmp s) \<longrightarrow> wf_alist ts"
      "env_remove env (env_temp_name env) = None \<longrightarrow> ts = fs_tmp s"
  | (complete) "r = Inr (env_temp_name env)" "map_of (fs_tmp s) (env_temp_name env) = None"
      "rd_err b = None" "n = length (rd_data b)" "s' = staged env s key m b"
proof (cases "os_create_temp env s")
  case (Pair q t)
  show thesis
  proof (cases q)
    case (Inl e)
    with Pair have "t = s" by (auto simp: os_create_temp_def Let_def split: option.splits if_splits)
    with assms Pair Inl failed [of _ "fs_tmp s"] show thesis by (auto simp: stage_def)
  next
    case (Inr tmp)
    let ?u = "\<lambda>f. s\<lparr>fs_tmp := AList.update tmp f (fs_tmp s)\<rparr>"
    from Pair Inr have tmp: "tmp = env_temp_name env" "map_of (fs_tmp s) tmp = None"
      and t: "t = (?u \<lparr>f_content = Raw [], f_mtime = env_now env\<rparr>)\<lparr>fs_fds := Suc (fs_fds s)\<rparr>"
      by (auto simp: os_create_temp_def Let_def split: option.splits if_splits)
    from assms Pair Inr t tmp
    have "(\<exists>e f. r = Inl e \<and> s' = (if env_remove env tmp = None then s else ?u f)) \<or>
        (r = Inr tmp \<and> rd_err b = None \<and> n = length (rd_data b) \<and> s' = staged env s key m b)"
      by (auto simp: stage_def Let_def writeInfo_def os_write_tmp_def update_idem_twice staged_def
          entry_archive_def os_close_def put_abort_def os_remove_tmp_def os_remove_fresh_tmp
          split: option.splits if_splits)
    then show thesis
    proof (elim disjE exE conjE)
      fix e f
      assume "r = Inl e" "s' = (if env_remove env tmp = None then s else ?u f)"
      then show thesis using tmp
        by (intro failed [of e "if env_remove env tmp = None then fs_tmp s else AList.update tmp f (fs_tmp s)"])
           auto
    next
      assume "r = Inr tmp" "rd_err b = None" "n = length (rd_data b)" "s' = staged env s key m b"
      with tmp show thesis by (intro complete) auto
    qed
  qed
qed

definition new_file :: "os_env \<Rightarrow> string \<Rightarrow> metadata \<Rightarrow> reader \<Rightarrow> dfile" where
  "new_file env key m b = \<lparr>f_content = entry_archive key m (rd_data b), f_mtime = env_now env\<rparr>"

lemma staged_simps [simp]:
  "fs_dir (staged env s key m b) = fs_dir s" "fs_fds (staged env s key m b) = fs_fds s"
  "used_bytes (staged env s key m b) = used_bytes s"
  "map_of (fs_tmp (staged env s key m b)) (env_temp_name env) = Some (new_file env key m b)"
  by (simp_all add: staged_def new_file_def used_bytes_def)

lemma disk_inv_staged: "disk_inv s \<Longrightarrow> disk_inv (staged env s key m b)"
  by (simp add: disk_inv_def staged_def)

lemma disk_put_cases:
  assumes "disk_put d env s key m b = (r, s')"
  obtains (failed) e n ns ts where "r = (Some e, n)" "s' = (without ns s)\<lparr>fs_tmp := ts\<rparr>"
      "wf_alist (fs_tmp s) \<longrightarrow> wf_alist ts"
      "env_remove env (env_temp_name env) = None \<longrightarrow> ts = fs_tmp s"
  | (put) ns where "r = (None, length (rd_data b))" "rd_err b = None"
      "evict env d (staged env s key m b) (of_nat (content_size (entry_archive key m (rd_data b)))) =
         (None, without ns (staged env s key m b))"
      "s' = s\<lparr>fs_dir := AList.update (path_name key) (new_file env key m b) (fs_dir (without ns s))\<rparr>"
proof (cases "stage env s key m b")
  case (fields q n t)
  from fields show thesis
  proof (cases rule: stage_cases)
    case (failed e ts)
    with assms fields show thesis by (intro that(1) [where ns = "{}" and ts = ts]) (auto simp: disk_put_def)
  next
    case complete
    let ?tmp = "env_temp_name env"
    have tmp: "AList.delete ?tmp (fs_tmp (staged env s key m b)) = fs_tmp s"
      using complete(2) by (simp add: staged_def os_remove_fresh_tmp)
    obtain v u where u: "accept env d t key ?tmp = (v, u)" by fastforce
    from u show thesis
    proof (cases rule: accept_cases)
      case (failed e ns)
      let ?ts = "if env_remove env ?tmp = None then fs_tmp s else fs_tmp t"
      have "s' = (without ns s)\<lparr>fs_tmp := ?ts\<rparr>"
        using assms fields complete failed u tmp
        by (auto simp: disk_put_def os_remove_tmp_def without_def staged_def split: option.splits)
      moreover have "wf_alist (fs_tmp s) \<longrightarrow> wf_alist ?ts" by (simp add: complete staged_def)
      moreover have "r = (Some (Wrap ''failed to accept cache entry'' e), n)"
        using assms fields complete failed u by (simp add: disk_put_def)
      ultimately show thesis by (intro that(1) [where ns = ns and ts = ?ts]) auto
    next
      case (accepted f ns)
      then have f: "f = new_file env key m b" using complete by simp
      have "s' = s\<lparr>fs_dir := AList.update (path_name key) f (fs_dir (without ns s))\<rparr>"
        using assms fields complete accepted u tmp
        by (auto simp: disk_put_def without_def staged_def)
      with assms fields complete accepted u f show thesis
        by (intro that(2) [of ns]) (auto simp: disk_put_def new_file_def)
    qed
  qed
qed

section \<open>The contract\<close>

lemma disk_put_inv: "disk_inv s \<Longrightarrow> disk_put d env s key m b = (r, s') \<Longrightarrow> disk_inv s'"
  by (erule disk_put_cases)
     (use disk_inv_without in \<open>auto simp: disk_inv_def\<close>)

lemma disk_stored_put:
  "disk_stored (s\<lparr>fs_dir := AList.update k (new_file env key m b)
       (filter (\<lambda>p. fst p \<notin> ns) (fs_dir s))\<rparr>) =
     (\<lambda>n. if n = k then Some (coerce_metadata m, rd_data b) else if n \<in> ns then None else disk_stored s n)"
  by (auto simp: disk_stored_def map_of_filter_fst entry_of_archive new_file_def fun_eq_iff)

interpretation dc: reliable_cache disk_get "disk_put d" path_name disk_stored disk_inv for d
proof unfold_locales
  show "disk_inv s \<Longrightarrow> disk_get e s k = (r, s') \<Longrightarrow> disk_inv s'" for s e k r s'
    by (rule disk_get_inv)
  show "disk_inv s \<Longrightarrow> disk_get e s k = (r, s') \<Longrightarrow> disk_stored s' = disk_stored s" for s e k r s'
    by (rule disk_get_stored)
  show "disk_inv s \<Longrightarrow> disk_get e s k = (Inr (b, m), s') \<Longrightarrow>
      \<exists>d. disk_stored s (path_name k) = Some (m, d) \<and> prefix (rd_data b) d \<and> (True \<longrightarrow> reads b d)" for s e k b m s'
    by (auto dest!: disk_get_sound intro: readsD reads_cut_reader)
  show "disk_inv s \<Longrightarrow> disk_put d e s k m b = (q, s') \<Longrightarrow> disk_inv s'" for s e k m b q s'
    by (rule disk_put_inv)
  show "disk_inv s \<Longrightarrow> disk_put d e s k m b = ((None, n), s') \<Longrightarrow>
      rd_err b = None \<and> n = length (rd_data b) \<and>
      disk_stored s' \<subseteq>\<^sub>m (disk_stored s)(path_name k \<mapsto> (coerce_metadata m, rd_data b))" for s e k m b n s'
    by (erule disk_put_cases) (auto simp: disk_stored_put map_le_def split: if_splits)
  show keeps: "disk_inv s \<Longrightarrow> disk_put d e s k m b = ((Some err, n), s') \<Longrightarrow> disk_stored s' \<subseteq>\<^sub>m disk_stored s"
    for s e k m b err n s'
    by (erule disk_put_cases) (auto simp: disk_stored_without map_le_def split: if_splits)
  show "disk_inv s \<Longrightarrow> disk_put d e s k m b = ((Some err, n), s') \<Longrightarrow> disk_stored s' \<subseteq>\<^sub>m disk_stored s \<or>
      (rd_err b = None \<and> disk_stored s' \<subseteq>\<^sub>m (disk_stored s)(path_name k \<mapsto> (coerce_metadata m, rd_data b)))" for s e k m b err n s'
    using keeps by blast
qed

end
