(* ===== verification/DiskProps.thy ===== *)
theory DiskProps
  imports DiskCorrect
begin

text \<open>
  The properties of the disk cache, with the concrete states their witnesses use: a directory of
  two foreign files, and a cache holding the single entry \<^verbatim>\<open>a\<close>.
\<close>

section \<open>Sample states\<close>

definition empty_fs :: fs where
  "empty_fs = \<lparr>fs_dir = [], fs_tmp = [], fs_fds = 0\<rparr>"

definition sample_disk :: disk where
  "sample_disk = \<lparr>d_dir = ''/chacha'', d_limit = 768\<rparr>"

definition sample_env :: os_env where
  "sample_env = quiet_env 5 ''chacha-put-1''"

definition sample_md :: metadata where
  "sample_md = \<lparr>etag = ''v1''\<rparr>"

definition sample_fs :: fs where
  "sample_fs = empty_fs\<lparr>fs_dir := [(path_name ''a'', new_file sample_env ''a'' sample_md (bytes_reader ''hi''))]\<rparr>"

definition foreign_fs :: fs where
  "foreign_fs = \<lparr>fs_dir = [(''x'', \<lparr>f_content = Raw ''1234'', f_mtime = 2\<rparr>),
                          (''y'', \<lparr>f_content = Raw ''5678'', f_mtime = 1\<rparr>)],
     fs_tmp = [], fs_fds = 0\<rparr>"

definition tiny_disk :: disk where
  "tiny_disk = \<lparr>d_dir = ''/chacha'', d_limit = 10\<rparr>"

lemma sample_size: "content_size (entry_archive ''a'' sample_md ''hi'') = 279"
proof -
  have "length (marshal_info \<lparr>info_key = ''a'', info_metadata = sample_md\<rparr>) = 37" by code_simp
  then show ?thesis
    by (simp add: content_size_def entry_archive_def zip_size_def zip_member_size_def fileInfo_def
        fileBlob_def Let_def)
qed

lemma evict_empty_dir:
  "need \<le> d_limit d \<Longrightarrow> fs_dir s = [] \<Longrightarrow> evict (quiet_env now tmp) d s need = (None, s)"
  by (simp add: evict_def os_read_dir_def quiet_env_def)

lemma stage_quiet:
  assumes "map_of (fs_tmp s) tmp = None"
  shows "stage (quiet_env now tmp) s key m (bytes_reader b) =
    (Inr tmp, length b, staged (quiet_env now tmp) s key m (bytes_reader b))"
  using assms
  by (simp add: stage_def os_create_temp_def quiet_env_def writeInfo_def os_write_tmp_def os_close_def
      staged_def entry_archive_def update_idem_twice)

lemma sample_put:
  "disk_put sample_disk sample_env empty_fs ''a'' sample_md (bytes_reader ''hi'') = ((None, 2), sample_fs)"
proof -
  let ?s = "staged sample_env empty_fs ''a'' sample_md (bytes_reader ''hi'')"
  have st: "stage sample_env empty_fs ''a'' sample_md (bytes_reader ''hi'') = (Inr ''chacha-put-1'', 2, ?s)"
    using stage_quiet [of empty_fs "''chacha-put-1''" 5 "''a''" sample_md "''hi''"]
    by (simp add: sample_env_def empty_fs_def)
  have tmp: "map_of (fs_tmp ?s) ''chacha-put-1'' = Some (new_file sample_env ''a'' sample_md (bytes_reader ''hi''))"
    using staged_simps(4) [of sample_env empty_fs "''a''" sample_md "bytes_reader ''hi''"]
    by (simp add: sample_env_def quiet_env_def)
  have ev: "evict sample_env sample_disk ?s 279 = (None, ?s)"
    unfolding sample_env_def
    by (rule evict_empty_dir) (simp_all add: sample_disk_def empty_fs_def staged_def)
  have env: "env_stat sample_env = None" "env_rename sample_env = None"
    by (simp_all add: sample_env_def quiet_env_def)
  have sz: "content_size (f_content (new_file sample_env ''a'' sample_md (bytes_reader ''hi''))) = 279"
    by (simp add: new_file_def sample_size)
  have "?s\<lparr>fs_tmp := AList.delete ''chacha-put-1'' (fs_tmp ?s),
           fs_dir := AList.update (path_name ''a'') (new_file sample_env ''a'' sample_md (bytes_reader ''hi''))
             (fs_dir ?s)\<rparr> = sample_fs"
    by (simp add: staged_def empty_fs_def sample_fs_def sample_env_def quiet_env_def)
  then have "accept sample_env sample_disk ?s ''a'' ''chacha-put-1'' = (None, sample_fs)"
    by (simp add: accept_def tmp env sz ev os_rename_def del: staged_simps)
  then show ?thesis by (simp add: disk_put_def st)
qed

lemma empty_fs_inv [simp]: "disk_inv empty_fs"
  by (simp add: disk_inv_def empty_fs_def)

lemma sample_env_sorts [simp]: "env_sorts sample_env"
  by (simp add: sample_env_def quiet_env_sorts)

section \<open>The limit\<close>

lemma sum_list_update_le:
  "sum_list (map file_size (AList.update k f xs)) \<le> sum_list (map file_size xs) + file_size (k, f)"
  by (induction xs) (auto simp: file_size_def)

text \<open>
  C1. A successful \<^verbatim>\<open>Put\<close> leaves the files of the cache directory within the configured limit,
  whatever the directory held before (even more than the limit) and however long the eviction loop
  had to run. Sizes are \<^verbatim>\<open>uint64\<close>; the only hypothesis on them is that the bytes in use and the new
  archive together do not wrap around.
\<close>

theorem disk_put_within_limit:
  assumes "disk_inv s" and "env_sorts env"
    and "used_bytes s + content_size (entry_archive key m (rd_data b)) < 2 ^ 64"
    and "disk_put d env s key m b = ((None, n), s')"
  shows "used_bytes s' \<le> unat (d_limit d)"
  using assms(4)
proof (cases rule: disk_put_cases)
  case (put ns)
  let ?t = "staged env s key m b" and ?size = "content_size (entry_archive key m (rd_data b))"
  have "used_bytes (without ns ?t) + ?size \<le> unat (d_limit d)"
    using evict_outcome [OF assms(2) disk_inv_staged [OF assms(1)] put(3)] assms(3) by auto
  moreover have "used_bytes (without ns ?t) = used_bytes (without ns s)"
    by (simp add: used_bytes_def)
  moreover have "used_bytes s' \<le> used_bytes (without ns s) + ?size"
    using sum_list_update_le [of "path_name key" "new_file env key m b" "fs_dir (without ns s)"]
    by (simp add: put(4) used_bytes_def file_size_def new_file_def)
  ultimately show ?thesis by linarith
qed simp

theorem disk_put_within_limit_witness:
  "disk_put sample_disk sample_env empty_fs ''a'' sample_md (bytes_reader ''hi'') = ((None, 2), sample_fs) \<and>
   used_bytes sample_fs \<le> unat (d_limit sample_disk)"
  using disk_put_within_limit [OF empty_fs_inv sample_env_sorts _ sample_put] sample_put
  by (simp add: sample_size) (simp add: empty_fs_def used_bytes_def)

section \<open>Eviction\<close>

lemma take_Suc_mset: "k < length ps \<Longrightarrow> set (take (Suc k) ps) = insert (ps ! k) (set (take k ps))"
  by (simp add: take_Suc_conv_app_nth)

lemma without_Suc:
  assumes "mset ps = mset (fs_dir s)" and "wf_alist (fs_dir s)" and "k < length ps"
  shows "used_bytes (without (fst ` set (take k ps)) s) =
    file_size (ps ! k) + used_bytes (without (fst ` set (take (Suc k) ps)) s)"
  using used_bytes_without_prefix [OF assms(1,2), of k] used_bytes_without_prefix [OF assms(1,2), of "Suc k"]
  by (simp add: take_Suc_conv_app_nth [OF assms(3)])

lemma removed_in_prefix:
  assumes "mset ps = mset (fs_dir s)" and "wf_alist (fs_dir s)" and "p \<in> set (fs_dir s)"
  shows "fst p \<in> fst ` set (take k ps) \<longleftrightarrow> p \<in> set (take k ps)"
proof
  assume "fst p \<in> fst ` set (take k ps)"
  then obtain q where q: "q \<in> set (take k ps)" "fst q = fst p" by auto
  then have "q \<in> set (fs_dir s)" by (metis assms(1) in_set_takeD mset_eq_setD)
  with q assms(2,3) show "p \<in> set (take k ps)"
    by (metis eq_key_imp_eq_value prod.collapse wf_alist_def)
qed auto

text \<open>
  C25. Eviction is least-recently-used: a file it removed was last used (put or got) no later than
  any file it kept. This holds also when it stops early because a removal fails.
\<close>

theorem evict_lru:
  assumes "disk_inv s" and "env_sorts env" and "used_bytes s + need < 2 ^ 64"
    and "evict env d s (of_nat need) = (r, s')"
    and "p \<in> set (fs_dir s)" and "p \<notin> set (fs_dir s')" and "q \<in> set (fs_dir s')"
  shows "f_mtime (snd p) \<le> f_mtime (snd q)"
proof -
  from evict_outcome [OF assms(2,1,4,3)] assms(5,6) obtain ps k where
    ps: "mset ps = mset (fs_dir s)" "sorted (map (\<lambda>p. f_mtime (snd p)) ps)" "k \<le> length ps"
    and s': "s' = without (fst ` set (take k ps)) s" by auto
  have wf: "wf_alist (fs_dir s)" using assms(1) by (simp add: disk_inv_def)
  have "p \<in> set (take k ps)"
    using assms(5,6) removed_in_prefix [OF ps(1) wf assms(5)] by (auto simp: s')
  moreover have "q \<in> set (drop k ps)"
    using assms(7) without_prefix [OF ps(1) wf, of k] by (metis s' mset_eq_setD)
  moreover have "sorted (map (\<lambda>p. f_mtime (snd p)) (take k ps @ drop k ps))" using ps(2) by simp
  ultimately show ?thesis unfolding map_append sorted_append by auto
qed

lemma foreign_evict:
  "evict sample_env tiny_disk foreign_fs (of_nat 5) =
     (None, foreign_fs\<lparr>fs_dir := [(''x'', \<lparr>f_content = Raw ''1234'', f_mtime = 2\<rparr>)]\<rparr>)"
  by (simp add: evict_def os_read_dir_def sample_env_def quiet_env_def tiny_disk_def foreign_fs_def
      content_size_def os_remove_def word_le_nat_alt word_less_nat_alt)

lemma foreign_fs_facts: "disk_inv foreign_fs" "used_bytes foreign_fs + 5 < 2 ^ 64"
  by (simp_all add: foreign_fs_def disk_inv_def wf_alist_def used_bytes_def file_size_def content_size_def)

theorem evict_lru_witness:
  "f_mtime (snd (''y'', \<lparr>f_content = Raw ''5678'', f_mtime = 1\<rparr>)) \<le>
   f_mtime (snd (''x'', \<lparr>f_content = Raw ''1234'', f_mtime = 2\<rparr>))"
  by (rule evict_lru [OF foreign_fs_facts(1) sample_env_sorts foreign_fs_facts(2) foreign_evict])
     (simp_all add: foreign_fs_def)

text \<open>
  C26. Eviction removes no more than it has to: when it removed something, keeping the most recently
  used of the removed files would have left too little room for the new entry.
\<close>

theorem evict_minimal:
  assumes "disk_inv s" and "env_sorts env" and "used_bytes s + need < 2 ^ 64"
    and "evict env d s (of_nat need) = (r, s')" and "fs_dir s' \<noteq> fs_dir s"
  shows "\<exists>p \<in> set (fs_dir s) - set (fs_dir s').
    (\<forall>q \<in> set (fs_dir s) - set (fs_dir s'). f_mtime (snd q) \<le> f_mtime (snd p)) \<and>
    unat (d_limit d) < used_bytes s' + file_size p + need"
proof -
  from evict_outcome [OF assms(2,1,4,3)] assms(5) obtain ps k where
    ps: "mset ps = mset (fs_dir s)" "sorted (map (\<lambda>p. f_mtime (snd p)) ps)" "k \<le> length ps"
    and s': "s' = without (fst ` set (take k ps)) s"
    and lim: "\<forall>j < k. unat (d_limit d) < used_bytes (without (fst ` set (take j ps)) s) + need" by auto
  have wf: "wf_alist (fs_dir s)" using assms(1) by (simp add: disk_inv_def)
  have gone: "set (fs_dir s) - set (fs_dir s') = set (take k ps)"
    using removed_in_prefix [OF ps(1) wf] mset_eq_setD [OF ps(1)] by (auto simp: s' dest: in_set_takeD)
  from assms(5) s' obtain j where k: "k = Suc j" by (cases k) auto
  with ps(3) have j: "j < length ps" by simp
  have "f_mtime (snd q) \<le> f_mtime (snd (ps ! j))" if "q \<in> set (take k ps)" for q
    using that ps(2) j k by (auto simp: in_set_conv_nth sorted_iff_nth_mono)
  moreover have "ps ! j \<in> set (take k ps)" using j by (simp add: k take_Suc_mset)
  moreover have "unat (d_limit d) < used_bytes s' + file_size (ps ! j) + need"
    using lim k without_Suc [OF ps(1) wf j] by (auto simp: s')
  ultimately show ?thesis unfolding gone by blast
qed

theorem evict_minimal_witness:
  "\<exists>p \<in> set (fs_dir foreign_fs) - {(''x'', \<lparr>f_content = Raw ''1234'', f_mtime = 2\<rparr>)}.
     unat (d_limit tiny_disk) < 4 + file_size p + 5"
  using evict_minimal [OF foreign_fs_facts(1) sample_env_sorts foreign_fs_facts(2) foreign_evict]
  by (simp add: foreign_fs_def used_bytes_def file_size_def content_size_def)

section \<open>Round trip\<close>

lemma evict_loop_succeeds:
  assumes "\<And>n. env_remove env n = None"
  shows "distinct (map e_name xs) \<Longrightarrow> e_name ` set xs \<subseteq> dom (map_of (fs_dir s)) \<Longrightarrow>
    fst (evict_loop env limit need used xs s) = None"
proof (induction xs arbitrary: used s)
  case (Cons x xs)
  then obtain f where f: "map_of (fs_dir s) (e_name x) = Some f" by auto
  let ?t = "s\<lparr>fs_dir := AList.delete (e_name x) (fs_dir s)\<rparr>"
  have "os_remove env s (e_name x) = (None, ?t)" using f assms by (simp add: os_remove_def)
  moreover have "e_name ` set xs \<subseteq> dom (map_of (fs_dir ?t))"
    using Cons.prems by (auto intro: rev_image_eqI)
  ultimately show ?case using Cons.IH [of ?t] Cons.prems(1)
    by (simp del: fun_upd_apply map_of_AList_delete)
qed simp

lemma collect_entries_quiet: "env_info env = (\<lambda>_. None) \<Longrightarrow> \<exists>es. collect_entries env xs = Inr es"
  by (induction xs) auto

lemma evict_succeeds:
  assumes "disk_inv s" and "need \<le> d_limit d"
  shows "fst (evict (quiet_env now tmp) d s need) = None"
proof -
  let ?env = "quiet_env now tmp"
  have info: "env_info ?env = (\<lambda>_. None)" by (simp add: quiet_env_def)
  from collect_entries_quiet [OF info] obtain es where
    es: "collect_entries ?env (sort_key fst (fs_dir s)) = Inr es" by blast
  from sorted_entries [OF quiet_env_sorts es] obtain ps where
    ps: "env_sort ?env es = map dirent_of ps" "mset ps = mset (fs_dir s)" .
  have "distinct (map fst ps)"
    using assms(1) ps(2) by (metis disk_inv_def wf_alist_def mset_eq_imp_distinct_iff mset_map)
  then have d: "distinct (map e_name (map dirent_of ps))" by (simp add: comp_def)
  have n: "e_name ` set (map dirent_of ps) \<subseteq> dom (map_of (fs_dir s))"
    using mset_eq_setD [OF ps(2)] by (auto simp: dom_map_of_conv_image_fst image_image)
  have "env_remove ?env n = None" for n by (simp add: quiet_env_def)
  from evict_loop_succeeds [OF this d n] assms(2) es ps(1) show ?thesis
    by (simp add: evict_def os_read_dir_def Let_def not_less) (simp add: quiet_env_def)
qed

lemma disk_put_succeeds:
  assumes "disk_inv s" and "map_of (fs_tmp s) tmp = None"
    and "content_size (entry_archive key m b) \<le> unat (d_limit d)"
  shows "\<exists>s'. disk_put d (quiet_env now tmp) s key m (bytes_reader b) = ((None, length b), s')"
proof -
  let ?env = "quiet_env now tmp" and ?size = "content_size (entry_archive key m b)"
  let ?t = "staged ?env s key m (bytes_reader b)"
  have "unat (d_limit d) < 2 ^ LENGTH(64)" by (rule unsigned_less)
  then have "?size < 2 ^ 64" using assms(3) by simp
  then have "(of_nat ?size :: 64 word) \<le> d_limit d"
    using word_fits [of ?size 0 "d_limit d"] assms(3) by simp
  from evict_succeeds [OF disk_inv_staged [OF assms(1)] this]
  obtain u where u: "evict ?env d ?t (of_nat ?size) = (None, u)" by (metis prod.collapse)
  from evict_without [OF u] have "fs_tmp u = fs_tmp ?t" by auto
  moreover have "env_temp_name ?env = tmp" by (simp add: quiet_env_def)
  ultimately have tmp: "map_of (fs_tmp ?t) tmp = Some (new_file ?env key m (bytes_reader b))"
      "map_of (fs_tmp u) tmp = Some (new_file ?env key m (bytes_reader b))"
    using staged_simps(4) [of ?env s key m "bytes_reader b"] by simp_all
  have "env_stat ?env = None" "env_rename ?env = None" by (simp_all add: quiet_env_def)
  then have "fst (accept ?env d ?t key tmp) = None"
    using tmp u by (simp add: accept_def os_rename_def new_file_def)
  then obtain v where "accept ?env d ?t key tmp = (None, v)" by (metis prod.collapse)
  then show ?thesis using stage_quiet [OF assms(2)] by (simp add: disk_put_def)
qed

lemma disk_get_quiet:
  assumes "disk_stored s (path_name key) = Some (m, b)"
  shows "\<exists>s'. disk_get (quiet_env now tmp) s key = (Inr (bytes_reader b, m), s')"
proof -
  from assms obtain f where f: "map_of (fs_dir s) (path_name key) = Some f" "entry_of f = Some (m, b)"
    by (auto simp: disk_stored_def bind_eq_Some_conv)
  from entry_getInner [OF _ _ _ _ f(2), of "quiet_env now tmp"] obtain i where
    "getInner (quiet_env now tmp) f = Inr (bytes_reader b, i)" "info_metadata i = m"
    by (auto simp: quiet_env_def)
  moreover have "env_open (quiet_env now tmp) n = None" "env_chtimes (quiet_env now tmp) n = None" for n
    by (simp_all add: quiet_env_def)
  ultimately show ?thesis using f(1) by (auto simp: disk_get_def os_open_def os_chtimes_def)
qed

text \<open>
  C15. When no system call fails and the archive fits under the limit, \<^verbatim>\<open>Put\<close> succeeds whatever the
  directory holds (the eviction makes room), and a following \<^verbatim>\<open>Get\<close> of the key returns the blob byte for
  byte with the metadata, its ETag coerced to valid UTF-8 by the JSON encoding.
\<close>

theorem disk_put_get:
  assumes "disk_inv s" and "map_of (fs_tmp s) tmp = None"
    and "content_size (entry_archive key m b) \<le> unat (d_limit d)"
  shows "\<exists>s' s''. disk_put d (quiet_env now tmp) s key m (bytes_reader b) = ((None, length b), s') \<and>
    disk_get (quiet_env now' tmp') s' key = (Inr (bytes_reader b, coerce_metadata m), s'')"
proof -
  obtain s' where s': "disk_put d (quiet_env now tmp) s key m (bytes_reader b) = ((None, length b), s')"
    using disk_put_succeeds [OF assms] by blast
  then have "disk_stored s' (path_name key) = Some (coerce_metadata m, b)"
    by (cases rule: disk_put_cases) (simp_all add: disk_stored_put)
  with s' show ?thesis using disk_get_quiet by blast
qed

theorem disk_put_get_witness:
  "\<exists>s' s''. disk_put sample_disk sample_env empty_fs ''a'' sample_md (bytes_reader ''hi'') = ((None, 2), s') \<and>
     disk_get (quiet_env 9 []) s' ''a'' = (Inr (bytes_reader ''hi'', sample_md), s'')"
proof -
  have "coerce_metadata sample_md = sample_md"
    by (rule coerce_metadata_valid) (simp add: sample_md_def valid_utf8_ascii is_ascii_def)
  then show ?thesis
    using disk_put_get [OF empty_fs_inv, of "''chacha-put-1''" "''a''" sample_md "''hi''" sample_disk 5 9 "[]"]
    by (simp add: sample_size sample_env_def numeral_2_eq_2 [symmetric])
       (simp add: empty_fs_def sample_disk_def)
qed

section \<open>Histories\<close>

text \<open>
  Soundness of the cache over every history: start with an empty directory and run any sequence
  of \<^verbatim>\<open>Get\<close>s and \<^verbatim>\<open>Put\<close>s, each with system calls failing as they like, readers failing half-way,
  and evictions. If a \<^verbatim>\<open>Get\<close> then hits, its blob and metadata are those of the last successful
  \<^verbatim>\<open>Put\<close> to that file name; a blob that comes short ends with an error, and nothing of a failed \<^verbatim>\<open>Put\<close> is
  ever returned.
\<close>

theorem disk_hit_is_last_put:
  assumes "cache_run disk_get (disk_put d) path_name (empty_fs, no_puts) ops = (s, g)"
    and "disk_get env s key = (Inr (b, m), s')"
  shows "\<exists>d. fst (g (path_name key)) = Some (m, d) \<and> reads b d"
proof (rule dc.hit_is_last_put [OF empty_fs_inv _ assms])
  show "disk_stored empty_fs \<subseteq>\<^sub>m (\<lambda>n. fst (no_puts n))" by (auto simp: disk_stored_def empty_fs_def map_le_def)
qed

lemma sample_stored: "disk_stored sample_fs (path_name ''a'') = Some (sample_md, ''hi'')"
proof -
  have "coerce_metadata sample_md = sample_md"
    by (rule coerce_metadata_valid) (simp add: sample_md_def valid_utf8_ascii is_ascii_def)
  then show ?thesis by (simp add: disk_stored_def sample_fs_def new_file_def entry_of_archive)
qed

theorem disk_hit_is_last_put_witness:
  "\<exists>s g s'. cache_run disk_get (disk_put sample_disk) path_name (empty_fs, no_puts)
       [OpPut sample_env ''a'' sample_md (bytes_reader ''hi'')] = (s, g) \<and>
     disk_get (quiet_env 9 []) s ''a'' = (Inr (bytes_reader ''hi'', sample_md), s') \<and>
     fst (g (path_name ''a'')) = Some (sample_md, ''hi'')"
proof -
  obtain g where g: "cache_run disk_get (disk_put sample_disk) path_name (empty_fs, no_puts)
       [OpPut sample_env ''a'' sample_md (bytes_reader ''hi'')] = (sample_fs, g)"
    by (simp add: cache_step_def Let_def sample_put)
  obtain s' where s': "disk_get (quiet_env 9 []) sample_fs ''a'' = (Inr (bytes_reader ''hi'', sample_md), s')"
    using disk_get_quiet [OF sample_stored] by blast
  from disk_hit_is_last_put [OF g s'] g s' show ?thesis by auto
qed

section \<open>Failures and cleanup\<close>

text \<open>
  C36. A \<^verbatim>\<open>Put\<close> that fails adds and changes no file of the cache: what the directory holds afterwards it
  held before, byte for byte and with the same times.
\<close>

theorem disk_put_failed_keeps:
  assumes "disk_put d env s key m b = ((Some e, n), s')"
  shows "set (fs_dir s') \<subseteq> set (fs_dir s)"
  using assms by (cases rule: disk_put_cases) auto

theorem disk_put_failed_keeps_witness:
  "\<exists>e n s'. disk_put sample_disk sample_env sample_fs ''b'' sample_md \<lparr>rd_data = ''hi'', rd_err = Some ErrEOF\<rparr> =
     ((Some e, n), s') \<and> set (fs_dir s') \<subseteq> set (fs_dir sample_fs)"
proof -
  obtain e n s' where p: "disk_put sample_disk sample_env sample_fs ''b'' sample_md
      \<lparr>rd_data = ''hi'', rd_err = Some ErrEOF\<rparr> = ((Some e, n), s')"
    by (simp add: disk_put_def stage_def os_create_temp_def sample_env_def quiet_env_def sample_fs_def
        empty_fs_def writeInfo_def Let_def)
  from disk_put_failed_keeps [OF p] p show ?thesis by blast
qed

text \<open>
  An entry larger than the limit is refused before anything is evicted: the directory stays as
  it was and the caller gets an error.
\<close>

theorem disk_put_too_large:
  assumes "unat (d_limit d) < content_size (entry_archive key m (rd_data b))"
    and "content_size (entry_archive key m (rd_data b)) < 2 ^ 64"
    and "disk_put d env s key m b = ((r, n), s')"
  shows "r \<noteq> None \<and> fs_dir s' = fs_dir s"
proof (cases "stage env s key m b")
  case (fields q k t)
  let ?size = "content_size (entry_archive key m (rd_data b))"
  from fields show ?thesis
  proof (cases rule: stage_cases)
    case (failed e ts)
    with assms(3) fields show ?thesis by (auto simp: disk_put_def)
  next
    case complete
    have "(of_nat ?size :: 64 word) > d_limit d"
      using word_fits [of ?size 0 "d_limit d"] assms(1,2) by (simp add: not_le [symmetric])
    then have "evict env d t (of_nat ?size) =
        (Some (Errorf ''cannot accept cache entry: larger than the disk limit''), t)"
      by (simp add: evict_def)
    then obtain e where "accept env d t key (env_temp_name env) = (Some e, t)"
      using complete(5)
      by (cases "env_stat env") (auto simp: accept_def new_file_def)
    with assms(3) fields complete show ?thesis
      by (auto simp: disk_put_def os_remove_tmp_def split: option.splits)
  qed
qed

theorem disk_put_too_large_witness:
  "\<exists>e n s'. disk_put tiny_disk sample_env foreign_fs ''a'' sample_md (bytes_reader ''hi'') = ((Some e, n), s') \<and>
     fs_dir s' = fs_dir foreign_fs"
proof -
  obtain r n s' where p: "disk_put tiny_disk sample_env foreign_fs ''a'' sample_md (bytes_reader ''hi'') = ((r, n), s')"
    by (metis prod.collapse)
  have "r \<noteq> None \<and> fs_dir s' = fs_dir foreign_fs"
    by (rule disk_put_too_large [OF _ _ p]) (simp_all add: sample_size tiny_disk_def)
  with p show ?thesis by auto
qed

text \<open>
  C37. Every \<^verbatim>\<open>Put\<close>, successful or not, closes the descriptors it opened and, provided the system lets
  it remove its temporary file, leaves the temporary directory as it found it; every \<^verbatim>\<open>Get\<close> leaves
  a descriptor open only with the reader it returns, and closing that reader closes it.
\<close>

theorem disk_no_leaks:
  "(let (r, s') = disk_put d env s key m b in
      fs_fds s' = fs_fds s \<and> (env_remove env (env_temp_name env) = None \<longrightarrow> fs_tmp s' = fs_tmp s)) \<and>
   (let (r, s') = disk_get env s key in
      fs_fds (case r of Inl _ \<Rightarrow> s' | Inr _ \<Rightarrow> snd (reader_close env' s')) = fs_fds s \<and> fs_tmp s' = fs_tmp s)"
proof
  obtain r s' where p: "disk_put d env s key m b = (r, s')" by fastforce
  then show "let (r, s') = disk_put d env s key m b in
      fs_fds s' = fs_fds s \<and> (env_remove env (env_temp_name env) = None \<longrightarrow> fs_tmp s' = fs_tmp s)"
    by (cases rule: disk_put_cases) (auto simp: p)
  obtain r s' where g: "disk_get env s key = (r, s')" by fastforce
  then show "let (r, s') = disk_get env s key in
      fs_fds (case r of Inl _ \<Rightarrow> s' | Inr _ \<Rightarrow> snd (reader_close env' s')) = fs_fds s \<and> fs_tmp s' = fs_tmp s"
    by (cases rule: disk_get_cases) (auto simp: g reader_close_def os_close_def)
qed

theorem disk_no_leaks_witness:
  "fs_fds (snd (disk_put sample_disk sample_env empty_fs ''a'' sample_md \<lparr>rd_data = ''hi'', rd_err = Some ErrEOF\<rparr>)) = 0 \<and>
   fs_tmp (snd (disk_put sample_disk sample_env empty_fs ''a'' sample_md \<lparr>rd_data = ''hi'', rd_err = Some ErrEOF\<rparr>)) = []"
proof -
  have "env_remove sample_env (env_temp_name sample_env) = None"
    by (simp add: sample_env_def quiet_env_def)
  then show ?thesis
    using disk_no_leaks [of sample_disk sample_env empty_fs "''a''" sample_md
        "\<lparr>rd_data = ''hi'', rd_err = Some ErrEOF\<rparr>"]
    by (simp add: case_prod_beta Let_def) (simp add: empty_fs_def)
qed

section \<open>Names, Delete and Walk\<close>

text \<open>
  C40. The file name of an entry is safe for every key: 64 lower-case hexadecimal digits (under the
  255-byte limit of file names, no separator, no dot), and two keys share a name exactly when their
  SHA-256 digests are equal.
\<close>

theorem path_name_safe:
  "length (path_name key) = 64 \<and> set (path_name key) \<subseteq> set ''0123456789abcdef'' \<and>
   (path_name key = path_name key' \<longleftrightarrow> sha256 key = sha256 key')"
  using hex_encode_alphabet [of "sha256 key"] hex_encode_inj [of "sha256 key" "sha256 key'"]
  by (auto simp: path_name_def hex_digits_def)

text \<open>
  \<^verbatim>\<open>Delete\<close> removes exactly the entry of its key: after it succeeds a \<^verbatim>\<open>Get\<close> of the key misses with
  \<^verbatim>\<open>ErrNotFound\<close> and every other name keeps its file; deleting an absent key reports \<^verbatim>\<open>ErrNotFound\<close> and
  changes nothing.
\<close>

theorem disk_delete_exact:
  "case disk_delete env s key of
     (None, s') \<Rightarrow> disk_get env' s' key = (Inl ErrNotFound, s') \<and>
       map_of (fs_dir s') = (map_of (fs_dir s))(path_name key := None)
   | (Some e, s') \<Rightarrow> s' = s \<and> (map_of (fs_dir s) (path_name key) = None \<longrightarrow> e = ErrNotFound)"
proof (cases "map_of (fs_dir s) (path_name key)")
  case None
  then show ?thesis by (simp add: disk_delete_def os_remove_def)
next
  case (Some f)
  then show ?thesis
    by (cases "env_remove env (path_name key)")
       (simp_all add: disk_delete_def os_remove_def disk_get_def os_open_def)
qed

theorem disk_delete_exact_witness:
  "disk_delete sample_env empty_fs ''a'' = (Some ErrNotFound, empty_fs)"
  using disk_delete_exact [where env = sample_env and s = empty_fs and key = "''a''"]
  by (simp add: disk_delete_def os_remove_def empty_fs_def)

text \<open>
  What \<^verbatim>\<open>Walk\<close> hands to its callback for a file, and the number of files that open but are no
  readable entry.
\<close>

definition visit :: "os_env \<Rightarrow> string \<times> dfile \<Rightarrow> (reader \<times> info) result" where
  "visit env p = (case env_open env (fst p) of Some e \<Rightarrow> Inl e | None \<Rightarrow> getInner env (snd p))"

definition broken_files :: "os_env \<Rightarrow> (string \<times> dfile) list \<Rightarrow> nat" where
  "broken_files env xs = length (filter (\<lambda>p. env_open env (fst p) = None \<and> isl (getInner env (snd p))) xs)"

lemma walk_loop_visits:
  "wf_alist (fs_dir s) \<Longrightarrow> set xs \<subseteq> set (fs_dir s) \<Longrightarrow>
    walk_loop env (\<lambda>r a. (None, \<not> isl r, g r a)) xs s a =
      (None, s\<lparr>fs_fds := fs_fds s + broken_files env xs\<rparr>, fold (\<lambda>p. g (visit env p)) xs a)"
proof (induction xs arbitrary: s a)
  case Nil
  then show ?case by (simp add: broken_files_def)
next
  case (Cons x xs)
  obtain n f where x: "x = (n, f)" by fastforce
  have nf: "map_of (fs_dir s) n = Some f"
    using Cons.prems x by (simp add: wf_alist_map_of_eq)
  have IH: "walk_loop env (\<lambda>r a. (None, \<not> isl r, g r a)) xs (s\<lparr>fs_fds := k\<rparr>) a =
      (None, s\<lparr>fs_fds := k + broken_files env xs\<rparr>, fold (\<lambda>p. g (visit env p)) xs a)" for k a
    using Cons.IH [of "s\<lparr>fs_fds := k\<rparr>" a] Cons.prems by simp
  show ?case
    using nf x IH [of "fs_fds s"] IH [of "Suc (fs_fds s)"]
    by (cases "env_open env n"; cases "getInner env f")
       (simp_all add: os_open_def broken_files_def visit_def os_close_def)
qed

text \<open>
  C39. \<^verbatim>\<open>Walk\<close> hands every file of the directory to its callback once, in name order, and changes no
  file. With a callback that closes every reader it is given, one descriptor stays open for each
  file that opens but is no readable entry: the callback gets no reader for it, and \<^verbatim>\<open>Walk\<close>
  does not close the file either.
\<close>

theorem walk_visits_all:
  assumes "disk_inv s" and "env_read_dir env = None"
  shows "walk env (\<lambda>r a. (None, \<not> isl r, g r a)) s a =
    (None, s\<lparr>fs_fds := fs_fds s + broken_files env (sort_key fst (fs_dir s))\<rparr>,
     fold (\<lambda>p. g (visit env p)) (sort_key fst (fs_dir s)) a)"
  using assms walk_loop_visits [of s "sort_key fst (fs_dir s)"]
  by (simp add: walk_def os_read_dir_def disk_inv_def)

theorem walk_visits_all_witness:
  "fs_fds (fst (snd (walk sample_env (\<lambda>r n. (None, \<not> isl r, Suc n)) foreign_fs 0))) = 2 \<and>
   snd (snd (walk sample_env (\<lambda>r n. (None, \<not> isl r, Suc n)) foreign_fs 0)) = 2"
proof -
  have "env_read_dir sample_env = None" by (simp add: sample_env_def quiet_env_def)
  from walk_visits_all [OF foreign_fs_facts(1) this, of "\<lambda>r n. Suc n" 0] show ?thesis
    by (simp add: foreign_fs_def broken_files_def sample_env_def quiet_env_def getInner_def)
qed

end
