(* ===== verification/DiskConcurrent.thy ===== *)
theory DiskConcurrent
  imports DiskProps
begin

text \<open>
  Concurrent use of the disk cache. \<^verbatim>\<open>Put\<close> stages its archive outside the mutex and accepts it under
  the mutex, so the stages of several requests, their accepts, \<^verbatim>\<open>Get\<close>s, \<^verbatim>\<open>Delete\<close>s and the closing of readers
  interleave. The step relation takes each critical section as one step, with an environment of
  its own; the pending list holds the staged entries that are not accepted yet, and \<open>c_last\<close>
  records what the last accepted entry of each file name was.
\<close>

record pending =
  p_tmp :: string
  p_key :: string
  p_md :: metadata
  p_data :: string

record conc =
  c_fs :: fs
  c_pending :: "pending list"
  c_last :: "string \<rightharpoonup> metadata \<times> string"

definition conc_init :: conc where
  "conc_init = \<lparr>c_fs = empty_fs, c_pending = [], c_last = Map.empty\<rparr>"

text \<open>File sizes are \<^verbatim>\<open>int64\<close>, hence the guard of \<open>staged_ok\<close>.\<close>

inductive disk_step :: "disk \<Rightarrow> conc \<Rightarrow> conc \<Rightarrow> bool" for d where
  staged_ok: "stage env (c_fs c) key m b = (Inr tmp, n, s') \<Longrightarrow>
     content_size (entry_archive key m (rd_data b)) < 2 ^ 63 \<Longrightarrow>
     disk_step d c (c\<lparr>c_fs := s', c_pending := \<lparr>p_tmp = tmp, p_key = key, p_md = m, p_data = rd_data b\<rparr> # c_pending c\<rparr>)"
| stage_failed: "stage env (c_fs c) key m b = (Inl e, n, s') \<Longrightarrow> disk_step d c (c\<lparr>c_fs := s'\<rparr>)"
| accepted: "p \<in> set (c_pending c) \<Longrightarrow> env_sorts env \<Longrightarrow>
     accept env d (c_fs c) (p_key p) (p_tmp p) = (None, s') \<Longrightarrow>
     disk_step d c \<lparr>c_fs = s', c_pending = remove1 p (c_pending c),
       c_last = (c_last c)(path_name (p_key p) \<mapsto> (coerce_metadata (p_md p), p_data p))\<rparr>"
| accept_failed: "p \<in> set (c_pending c) \<Longrightarrow> env_sorts env \<Longrightarrow>
     accept env d (c_fs c) (p_key p) (p_tmp p) = (Some e, s') \<Longrightarrow>
     disk_step d c (c\<lparr>c_fs := os_remove_tmp env s' (p_tmp p), c_pending := remove1 p (c_pending c)\<rparr>)"
| got: "disk_get env (c_fs c) key = (r, s') \<Longrightarrow> disk_step d c (c\<lparr>c_fs := s'\<rparr>)"
| deleted: "disk_delete env (c_fs c) key = (r, s') \<Longrightarrow> disk_step d c (c\<lparr>c_fs := s'\<rparr>)"
| closed: "reader_close env (c_fs c) = (r, s') \<Longrightarrow> disk_step d c (c\<lparr>c_fs := s'\<rparr>)"

inductive disk_reachable :: "disk \<Rightarrow> conc \<Rightarrow> bool" for d where
  init: "disk_reachable d conc_init"
| step: "disk_reachable d c \<Longrightarrow> disk_step d c c' \<Longrightarrow> disk_reachable d c'"

section \<open>The invariant\<close>

definition complete_entry :: "string \<times> dfile \<Rightarrow> bool" where
  "complete_entry p \<longleftrightarrow> (\<exists>key m b. fst p = path_name key \<and> f_content (snd p) = entry_archive key m b)"

definition pending_ok :: "fs \<Rightarrow> pending \<Rightarrow> bool" where
  "pending_ok s p \<longleftrightarrow>
     (\<exists>f. map_of (fs_tmp s) (p_tmp p) = Some f \<and>
        f_content f = entry_archive (p_key p) (p_md p) (p_data p) \<and> content_size (f_content f) < 2 ^ 63)"

definition dir_ok :: "disk \<Rightarrow> fs \<Rightarrow> bool" where
  "dir_ok d s \<longleftrightarrow> disk_inv s \<and> used_bytes s \<le> unat (d_limit d) \<and> (\<forall>p \<in> set (fs_dir s). complete_entry p)"

definition conc_inv :: "disk \<Rightarrow> conc \<Rightarrow> bool" where
  "conc_inv d c \<longleftrightarrow> dir_ok d (c_fs c) \<and> distinct (map p_tmp (c_pending c)) \<and>
     (\<forall>p \<in> set (c_pending c). pending_ok (c_fs c) p) \<and> disk_stored (c_fs c) \<subseteq>\<^sub>m c_last c"

lemma pending_ok_tmp: "map_of (fs_tmp s') (p_tmp p) = map_of (fs_tmp s) (p_tmp p) \<Longrightarrow> pending_ok s' p = pending_ok s p"
  by (simp add: pending_ok_def)

lemma used_bytes_without: "used_bytes (without ns s) \<le> used_bytes s"
proof -
  have "sum_list (map file_size (filter P xs)) \<le> sum_list (map file_size xs)" for P and xs :: "(string \<times> dfile) list"
    by (induction xs) auto
  then show ?thesis by (simp add: used_bytes_def)
qed

lemma dir_ok_without: "dir_ok d s \<Longrightarrow> dir_ok d (without ns s)"
  using used_bytes_without [of ns s] disk_inv_without [of s ns] by (auto simp: dir_ok_def intro: le_trans)

lemma dir_ok_same_dir:
  "dir_ok d s \<Longrightarrow> fs_dir s' = fs_dir s \<Longrightarrow> wf_alist (fs_tmp s') \<Longrightarrow> dir_ok d s'"
  by (simp add: dir_ok_def disk_inv_def used_bytes_def)

lemma set_AList_update: "set (AList.update k v xs) \<subseteq> insert (k, v) (set xs)"
  by (induction xs) auto

lemma update_touch_size:
  "map_of xs n = Some f \<Longrightarrow> distinct (map fst xs) \<Longrightarrow>
     sum_list (map file_size (AList.update n (f\<lparr>f_mtime := t\<rparr>) xs)) = sum_list (map file_size xs)"
  by (induction xs) (auto simp: file_size_def)

lemma dir_ok_touch:
  assumes "dir_ok d s" and "map_of (fs_dir s) n = Some f"
  shows "dir_ok d (s\<lparr>fs_dir := AList.update n (f\<lparr>f_mtime := t\<rparr>) (fs_dir s)\<rparr>)"
proof -
  have "(n, f) \<in> set (fs_dir s)" using assms(2) by (rule map_of_SomeD)
  moreover have "set (AList.update n (f\<lparr>f_mtime := t\<rparr>) (fs_dir s)) \<subseteq>
      insert (n, f\<lparr>f_mtime := t\<rparr>) (set (fs_dir s))"
    by (rule set_AList_update)
  ultimately have "\<forall>p \<in> set (AList.update n (f\<lparr>f_mtime := t\<rparr>) (fs_dir s)). complete_entry p"
    using assms(1) by (force simp: dir_ok_def complete_entry_def)
  then show ?thesis
    using assms update_touch_size [OF assms(2)]
    by (simp add: dir_ok_def disk_inv_def used_bytes_def) (simp add: wf_alist_def)
qed

lemma dir_ok_put:
  assumes "dir_ok d s" and "used_bytes (without ns s) + content_size (entry_archive key m b) \<le> unat (d_limit d)"
    and "f_content f = entry_archive key m b"
  shows "dir_ok d (s\<lparr>fs_dir := AList.update (path_name key) f (fs_dir (without ns s))\<rparr>)"
proof -
  let ?dir = "AList.update (path_name key) f (fs_dir (without ns s))"
  have "complete_entry (path_name key, f)" using assms(3) by (auto simp: complete_entry_def)
  moreover have "\<forall>p \<in> set (fs_dir (without ns s)). complete_entry p"
    using dir_ok_without [OF assms(1)] unfolding dir_ok_def by blast
  ultimately have "\<forall>p \<in> set ?dir. complete_entry p" using set_AList_update by fastforce
  moreover have "sum_list (map file_size ?dir) \<le> unat (d_limit d)"
    using sum_list_update_le [of "path_name key" f "fs_dir (without ns s)"] assms(2,3)
    by (simp add: used_bytes_def file_size_def)
  moreover have "wf_alist ?dir" "wf_alist (fs_tmp s)"
    using dir_ok_without [OF assms(1), of ns] unfolding dir_ok_def disk_inv_def by auto
  ultimately show ?thesis by (simp add: dir_ok_def disk_inv_def used_bytes_def del: without_simps)
qed

lemma stage_keeps_tmp:
  assumes "map_of (fs_tmp s) n = Some f" and "stage env s key m b = (r, k, s')"
  shows "map_of (fs_tmp s') n = Some f"
proof (cases "os_create_temp env s")
  case (Pair q t)
  show ?thesis
  proof (cases q)
    case (Inl e)
    with Pair have "t = s" by (auto simp: os_create_temp_def Let_def split: option.splits if_splits)
    with assms Pair Inl show ?thesis by (simp add: stage_def)
  next
    case (Inr tmp)
    with Pair assms(1) have "tmp \<noteq> n" "map_of (fs_tmp t) n = Some f"
      by (auto simp: os_create_temp_def Let_def split: option.splits if_splits)
    with assms(2) Pair Inr show ?thesis
      by (auto simp: stage_def Let_def writeInfo_def os_write_tmp_def os_close_def put_abort_def
          os_remove_tmp_def split: option.splits if_splits)
  qed
qed

lemma conc_inv_same_tmp:
  assumes "conc_inv d c" and "dir_ok d s'" and "fs_tmp s' = fs_tmp (c_fs c)"
    and "disk_stored s' \<subseteq>\<^sub>m disk_stored (c_fs c)"
  shows "conc_inv d (c\<lparr>c_fs := s'\<rparr>)"
  using assms map_le_trans unfolding conc_inv_def pending_ok_def by force

lemma remove1_pending:
  assumes "distinct (map p_tmp ps)" and "p \<in> set ps"
  shows "set (remove1 p ps) = {q \<in> set ps. p_tmp q \<noteq> p_tmp p}" and "distinct (map p_tmp (remove1 p ps))"
proof -
  have "distinct ps" using assms(1) by (rule distinct_map [THEN iffD1, THEN conjunct1])
  then show "set (remove1 p ps) = {q \<in> set ps. p_tmp q \<noteq> p_tmp p}"
    using assms by (auto simp: set_remove1_eq distinct_map inj_on_def)
  then show "distinct (map p_tmp (remove1 p ps))"
    using assms(1) \<open>distinct ps\<close> by (auto simp: distinct_map inj_on_def)
qed

lemma conc_inv_accepted:
  assumes inv: "conc_inv d c" and p: "p \<in> set (c_pending c)" and sorts: "env_sorts env"
    and a: "accept env d (c_fs c) (p_key p) (p_tmp p) = (None, s')" and lim: "unat (d_limit d) < 2 ^ 63"
  shows "conc_inv d \<lparr>c_fs = s', c_pending = remove1 p (c_pending c),
    c_last = (c_last c)(path_name (p_key p) \<mapsto> (coerce_metadata (p_md p), p_data p))\<rparr>"
  using a
proof (cases rule: accept_cases)
  case (accepted f ns)
  let ?s = "c_fs c" and ?n = "path_name (p_key p)"
  from inv p have ok: "dir_ok d ?s" "pending_ok ?s p" "disk_inv ?s" "distinct (map p_tmp (c_pending c))"
    "disk_stored ?s \<subseteq>\<^sub>m c_last c"
    by (auto simp: conc_inv_def dir_ok_def)
  from ok(2) accepted(2) have f: "f_content f = entry_archive (p_key p) (p_md p) (p_data p)"
    "content_size (f_content f) < 2 ^ 63" by (auto simp: pending_ok_def)
  have "used_bytes ?s + content_size (f_content f) < 2 ^ 64"
    using ok(1) f(2) lim by (simp add: dir_ok_def)
  from evict_outcome [OF sorts ok(3) accepted(3) this]
  have "used_bytes (without ns ?s) + content_size (entry_archive (p_key p) (p_md p) (p_data p)) \<le> unat (d_limit d)"
    by (auto simp: f(1))
  from dir_ok_put [OF ok(1) this f(1)] have dir: "dir_ok d s'"
    using ok(3) by (intro dir_ok_same_dir [where s' = s']) (auto simp: accepted(4) disk_inv_def)
  have "pending_ok s' q" if "q \<in> set (remove1 p (c_pending c))" for q
    using that inv remove1_pending(1) [OF ok(4) p]
    by (auto simp: conc_inv_def pending_ok_def accepted(4))
  moreover have "disk_stored s' = (\<lambda>n. if n = ?n then Some (coerce_metadata (p_md p), p_data p)
      else if n \<in> ns then None else disk_stored ?s n)"
    by (auto simp: accepted(4) disk_stored_def map_of_filter_fst entry_of_archive [OF f(1)] fun_eq_iff)
  then have "disk_stored s' \<subseteq>\<^sub>m (c_last c)(?n \<mapsto> (coerce_metadata (p_md p), p_data p))"
    using ok(5) by (auto simp: map_le_def split: if_splits)
  ultimately show ?thesis using dir remove1_pending(2) [OF ok(4) p] by (simp add: conc_inv_def)
qed simp

lemma conc_inv_accept_failed:
  assumes inv: "conc_inv d c" and p: "p \<in> set (c_pending c)"
    and a: "accept env d (c_fs c) (p_key p) (p_tmp p) = (Some e, s')"
  shows "conc_inv d (c\<lparr>c_fs := os_remove_tmp env s' (p_tmp p), c_pending := remove1 p (c_pending c)\<rparr>)"
  using a
proof (cases rule: accept_cases)
  case (failed e' ns)
  let ?u = "os_remove_tmp env s' (p_tmp p)"
  from inv p have ok: "dir_ok d (c_fs c)" "distinct (map p_tmp (c_pending c))"
    "disk_stored (c_fs c) \<subseteq>\<^sub>m c_last c" "wf_alist (fs_tmp (c_fs c))"
    by (auto simp: conc_inv_def dir_ok_def disk_inv_def)
  have u: "fs_dir ?u = fs_dir (without ns (c_fs c))" "wf_alist (fs_tmp ?u)"
    "disk_stored ?u = disk_stored (without ns (c_fs c))"
    "\<And>n. n \<noteq> p_tmp p \<Longrightarrow> map_of (fs_tmp ?u) n = map_of (fs_tmp (c_fs c)) n"
    using ok(4) by (auto simp: failed os_remove_tmp_def split: option.splits)
  have "dir_ok d ?u" by (rule dir_ok_same_dir [OF dir_ok_without [OF ok(1)] u(1,2)])
  moreover have "pending_ok ?u q" if "q \<in> set (remove1 p (c_pending c))" for q
    using that inv remove1_pending(1) [OF ok(2) p] u(4) by (auto simp: conc_inv_def pending_ok_def)
  moreover have "disk_stored ?u \<subseteq>\<^sub>m c_last c"
    using ok(3) by (auto simp: u(3) disk_stored_without map_le_def split: if_splits)
  ultimately show ?thesis using remove1_pending(2) [OF ok(2) p] by (simp add: conc_inv_def)
qed simp

lemma stage_dir:
  assumes "stage env s key m b = (r, n, s')"
  shows "fs_dir s' = fs_dir s" and "wf_alist (fs_tmp s) \<Longrightarrow> wf_alist (fs_tmp s')"
  using assms by (cases rule: stage_cases; simp add: staged_def)+

lemma conc_inv_stage:
  assumes "conc_inv d c" and "stage env (c_fs c) key m b = (r, n, s')"
  shows "conc_inv d (c\<lparr>c_fs := s'\<rparr>)"
proof -
  have ok: "dir_ok d (c_fs c)" "wf_alist (fs_tmp (c_fs c))"
    using assms(1) by (simp_all add: conc_inv_def dir_ok_def disk_inv_def)
  have "dir_ok d s'" by (rule dir_ok_same_dir [OF ok(1) stage_dir(1) [OF assms(2)] stage_dir(2) [OF assms(2) ok(2)]])
  moreover have "pending_ok s' p" if "p \<in> set (c_pending c)" for p
  proof -
    from that assms(1) obtain f where f: "map_of (fs_tmp (c_fs c)) (p_tmp p) = Some f"
      by (auto simp: conc_inv_def pending_ok_def)
    with stage_keeps_tmp [OF f assms(2)] that assms(1) show ?thesis
      by (simp add: conc_inv_def pending_ok_tmp [of s' p "c_fs c"])
  qed
  moreover have "disk_stored s' = disk_stored (c_fs c)"
    using stage_dir(1) [OF assms(2)] by (simp add: disk_stored_def fun_eq_iff)
  ultimately show ?thesis using assms(1) by (simp add: conc_inv_def)
qed

lemma conc_inv_staged_ok:
  assumes "conc_inv d c" and st: "stage env (c_fs c) key m b = (Inr tmp, n, s')"
    and "content_size (entry_archive key m (rd_data b)) < 2 ^ 63"
  shows "conc_inv d (c\<lparr>c_fs := s', c_pending := \<lparr>p_tmp = tmp, p_key = key, p_md = m, p_data = rd_data b\<rparr> # c_pending c\<rparr>)"
proof -
  let ?p = "\<lparr>p_tmp = tmp, p_key = key, p_md = m, p_data = rd_data b\<rparr>"
  from st have tmp: "tmp = env_temp_name env" "map_of (fs_tmp (c_fs c)) tmp = None"
    "s' = staged env (c_fs c) key m b"
    by (cases rule: stage_cases; simp)+
  have "pending_ok s' ?p" using assms(3) by (simp add: pending_ok_def tmp(1,3) new_file_def)
  moreover have "tmp \<notin> p_tmp ` set (c_pending c)"
    using assms(1) tmp(2) by (auto simp: conc_inv_def pending_ok_def)
  ultimately show ?thesis using conc_inv_stage [OF assms(1) st] by (simp add: conc_inv_def)
qed

lemma conc_inv_get:
  assumes "conc_inv d c" and "disk_get env (c_fs c) key = (r, s')"
  shows "conc_inv d (c\<lparr>c_fs := s'\<rparr>)"
proof (rule conc_inv_same_tmp [OF assms(1)])
  have ok: "dir_ok d (c_fs c)" using assms(1) by (simp add: conc_inv_def)
  show "dir_ok d s'" using assms(2)
  proof (cases rule: disk_get_cases)
    case (hit f b i)
    from dir_ok_touch [OF ok hit(2), of "env_now env"] show ?thesis
      by (rule dir_ok_same_dir) (use ok in \<open>simp_all add: hit dir_ok_def disk_inv_def\<close>)
  qed (use ok dir_ok_touch in auto)
  show "fs_tmp s' = fs_tmp (c_fs c)" using assms(2) by (cases rule: disk_get_cases) auto
  show "disk_stored s' \<subseteq>\<^sub>m disk_stored (c_fs c)" using disk_get_stored [OF assms(2)] by simp
qed

lemma disk_delete_without:
  "disk_delete env s key = (r, s') \<Longrightarrow> s' = s \<or> s' = without {path_name key} s"
  by (auto simp: disk_delete_def split: prod.splits option.splits dest!: os_remove_cases)

lemma conc_inv_delete:
  assumes "conc_inv d c" and "disk_delete env (c_fs c) key = (r, s')"
  shows "conc_inv d (c\<lparr>c_fs := s'\<rparr>)"
  using disk_delete_without [OF assms(2)] assms(1) dir_ok_without
  by (intro conc_inv_same_tmp [OF assms(1)])
     (auto simp: conc_inv_def disk_stored_without map_le_def split: if_splits)

lemma disk_step_inv:
  assumes "disk_step d c c'" and "unat (d_limit d) < 2 ^ 63" and "conc_inv d c"
  shows "conc_inv d c'"
  using assms
proof (induction rule: disk_step.induct)
  case (closed env c r s')
  then show ?case
    by (intro conc_inv_same_tmp) (auto simp: conc_inv_def reader_close_def os_close_def dir_ok_def)
qed (auto intro: conc_inv_staged_ok conc_inv_stage conc_inv_accepted conc_inv_accept_failed
    conc_inv_get conc_inv_delete)

lemma conc_inv_init: "conc_inv d conc_init"
  by (simp add: conc_inv_def conc_init_def dir_ok_def empty_fs_def disk_inv_def used_bytes_def
      disk_stored_def map_le_def)

lemma reachable_inv:
  assumes "disk_reachable d c" and "unat (d_limit d) < 2 ^ 63"
  shows "conc_inv d c"
  using assms by (induction rule: disk_reachable.induct) (auto intro: conc_inv_init disk_step_inv)

section \<open>Properties of every interleaving\<close>

text \<open>
  C2. In every state that concurrent \<^verbatim>\<open>Put\<close>s, \<^verbatim>\<open>Get\<close>s and \<^verbatim>\<open>Delete\<close>s can reach from an empty directory, with
  any system call failing at any time, the files of the cache together stay within the limit and
  each of them is the complete archive of some key, under the file name of that key.
\<close>

theorem disk_concurrent_bounded:
  assumes "disk_reachable d c" and "unat (d_limit d) < 2 ^ 63"
  shows "used_bytes (c_fs c) \<le> unat (d_limit d) \<and> (\<forall>p \<in> set (fs_dir (c_fs c)). complete_entry p)"
  using reachable_inv [OF assms] by (simp add: conc_inv_def dir_ok_def)

text \<open>A history: stage the entry \<^verbatim>\<open>a\<close>, accept it.\<close>

definition sample_pending :: pending where
  "sample_pending = \<lparr>p_tmp = ''chacha-put-1'', p_key = ''a'', p_md = sample_md, p_data = ''hi''\<rparr>"

definition sample_conc :: conc where
  "sample_conc = \<lparr>c_fs = sample_fs, c_pending = [],
     c_last = [path_name ''a'' \<mapsto> (coerce_metadata sample_md, ''hi'')]\<rparr>"

lemma sample_reachable: "disk_reachable sample_disk sample_conc"
proof -
  let ?s = "staged sample_env empty_fs ''a'' sample_md (bytes_reader ''hi'')"
  have st: "stage sample_env (c_fs conc_init) ''a'' sample_md (bytes_reader ''hi'') = (Inr ''chacha-put-1'', 2, ?s)"
    using stage_quiet [of empty_fs "''chacha-put-1''" 5 "''a''" sample_md "''hi''"]
    by (simp add: sample_env_def empty_fs_def conc_init_def)
  let ?c = "conc_init\<lparr>c_fs := ?s, c_pending := sample_pending # c_pending conc_init\<rparr>"
  have "disk_step sample_disk conc_init ?c"
    using disk_step.staged_ok [OF st, of sample_disk] by (simp add: sample_size sample_pending_def)
  with disk_reachable.init have "disk_reachable sample_disk ?c" by (rule disk_reachable.step)
  moreover have "accept sample_env sample_disk ?s ''a'' ''chacha-put-1'' = (None, sample_fs)"
    using sample_put st by (auto simp: disk_put_def conc_init_def split: prod.splits option.splits)
  then have "disk_step sample_disk ?c sample_conc"
    using disk_step.accepted [of sample_pending ?c sample_env sample_disk sample_fs]
    by (simp add: sample_conc_def sample_pending_def conc_init_def)
  ultimately show ?thesis by (rule disk_reachable.step)
qed

lemma sample_limit: "unat (d_limit sample_disk) < 2 ^ 63"
  by (simp add: sample_disk_def)

theorem disk_concurrent_bounded_witness:
  "fs_dir (c_fs sample_conc) \<noteq> [] \<and> used_bytes (c_fs sample_conc) \<le> unat (d_limit sample_disk)"
  using disk_concurrent_bounded [OF sample_reachable sample_limit]
  by (simp add: sample_conc_def sample_fs_def)

text \<open>
  C3. In every such state, a \<^verbatim>\<open>Get\<close> that hits returns the metadata and a reader of the blob of the entry that
  was accepted last under the file name of the key: the cache is linearizable at \<^verbatim>\<open>accept\<close>. The reader yields
  that blob byte for byte, unless a read of the file fails, and then it ends there with the error.
\<close>

theorem disk_concurrent_hit:
  assumes "disk_reachable d c" and "unat (d_limit d) < 2 ^ 63"
    and "disk_get env (c_fs c) key = (Inr (b, m), s')"
  shows "\<exists>blob. c_last c (path_name key) = Some (m, blob) \<and> b = cut_reader (env_read_blob env) blob"
proof -
  have "disk_stored (c_fs c) \<subseteq>\<^sub>m c_last c" using reachable_inv [OF assms(1,2)] by (simp add: conc_inv_def)
  with disk_get_sound [OF assms(3)] show ?thesis by (force simp: map_le_def)
qed

theorem disk_concurrent_hit_witness:
  "\<exists>b m s'. disk_get (quiet_env 9 []) (c_fs sample_conc) ''a'' = (Inr (b, m), s') \<and>
     c_last sample_conc (path_name ''a'') = Some (m, rd_data b) \<and> rd_err b = None"
proof -
  obtain s' where s': "disk_get (quiet_env 9 []) (c_fs sample_conc) ''a'' = (Inr (bytes_reader ''hi'', sample_md), s')"
    using disk_get_quiet [OF sample_stored, of 9 "[]"] by (auto simp: sample_conc_def)
  from disk_concurrent_hit [OF sample_reachable sample_limit s'] s' show ?thesis by (auto simp: quiet_env_def)
qed

end
