(* ===== verification/GoHttp.thy ===== *)
theory GoHttp
  imports GoStrings
begin

text \<open>
  The part of \<^verbatim>\<open>net/http\<close> the program uses: header maps with canonical keys, requests and
  responses, and the server's response writer (implicit status 200 on the first write,
  superfluous \<^verbatim>\<open>WriteHeader\<close> calls ignored, no body for \<^verbatim>\<open>HEAD\<close> and for statuses without one, an
  announced length that is not exceeded, a client that may go away).
\<close>

section \<open>Headers\<close>

type_synonym header = "(string \<times> string list) list"

text \<open>\<^verbatim>\<open>textproto.CanonicalMIMEHeaderKey\<close>: a key with a byte that is no token character is left alone.\<close>

definition is_letter :: "char \<Rightarrow> bool" where
  "is_letter c \<longleftrightarrow> 65 \<le> (of_char c :: nat) \<and> (of_char c :: nat) \<le> 90
     \<or> 97 \<le> (of_char c :: nat) \<and> (of_char c :: nat) \<le> 122"

definition is_digit :: "char \<Rightarrow> bool" where
  "is_digit c \<longleftrightarrow> 48 \<le> (of_char c :: nat) \<and> (of_char c :: nat) \<le> 57"

definition valid_header_byte :: "char \<Rightarrow> bool" where
  "valid_header_byte c \<longleftrightarrow> is_letter c \<or> is_digit c \<or> c \<in> set ''!#$%&*+-.^_`|~'' \<or> c = CHR 0x27"

fun canon_from :: "bool \<Rightarrow> string \<Rightarrow> string" where
  "canon_from up [] = []"
| "canon_from up (c # cs) =
     (if up then upper_char c else lower_char c) # canon_from (c = CHR ''-'') cs"

definition canonical_key :: "string \<Rightarrow> string" where
  "canonical_key k = (if list_all valid_header_byte k then canon_from True k else k)"

definition header_values :: "header \<Rightarrow> string \<Rightarrow> string list" where
  "header_values h k = (case map_of h (canonical_key k) of None \<Rightarrow> [] | Some vs \<Rightarrow> vs)"

definition header_get :: "header \<Rightarrow> string \<Rightarrow> string" where
  "header_get h k = (case header_values h k of [] \<Rightarrow> [] | v # _ \<Rightarrow> v)"

definition header_set :: "header \<Rightarrow> string \<Rightarrow> string \<Rightarrow> header" where
  "header_set h k v = AList.update (canonical_key k) [v] h"

definition header_del :: "header \<Rightarrow> string \<Rightarrow> header" where
  "header_del h k = AList.delete (canonical_key k) h"

lemma header_values_set:
  "header_values (header_set h k v) k' =
     (if canonical_key k' = canonical_key k then [v] else header_values h k')"
  by (simp add: header_values_def header_set_def)

lemma header_get_set:
  "header_get (header_set h k v) k' =
     (if canonical_key k' = canonical_key k then v else header_get h k')"
  by (simp add: header_get_def header_values_set)

lemma header_values_del:
  "header_values (header_del h k) k' =
     (if canonical_key k' = canonical_key k then [] else header_values h k')"
  by (simp add: header_values_def header_del_def)

lemma header_get_del:
  "header_get (header_del h k) k' =
     (if canonical_key k' = canonical_key k then [] else header_get h k')"
  by (simp add: header_get_def header_values_del)

lemma header_get_Nil [simp]: "header_get [] k = []"
  by (simp add: header_get_def header_values_def)

lemma wf_header_set [simp, intro]: "wf_alist h \<Longrightarrow> wf_alist (header_set h k v)"
  by (simp add: header_set_def)

lemma wf_header_del [simp, intro]: "wf_alist h \<Longrightarrow> wf_alist (header_del h k)"
  by (simp add: header_del_def)

section \<open>Requests and responses\<close>

text \<open>
  \<^verbatim>\<open>url.URL\<close>, without the opaque form and the fragment, which the request line of a served
  request does not carry; \<open>u_user\<close> is the rendered user information.
\<close>

record url =
  u_scheme :: string
  u_user :: "string option"
  u_host :: string
  u_path :: string
  u_rawpath :: string
  u_force_query :: bool
  u_rawquery :: string

definition empty_url :: url where
  "empty_url = \<lparr>u_scheme = [], u_user = None, u_host = [], u_path = [], u_rawpath = [],
     u_force_query = False, u_rawquery = []\<rparr>"

record request =
  rq_method :: string
  rq_host :: string
  rq_tls :: bool
  rq_url :: url
  rq_header :: header
  rq_body :: reader

record response =
  rs_status :: int
  rs_header :: header
  rs_body :: reader

section \<open>The response writer\<close>

text \<open>
  \<open>rw_head\<close> tells that the request is a \<^verbatim>\<open>HEAD\<close> request; \<open>rw_sent\<close> is the status and the headers
  that went out, once they did; \<open>rw_body\<close> the body bytes that the server took for the client, and
  \<open>rw_written\<close> how many the handler has offered; \<open>rw_budget\<close> how many more bytes the connection takes
  before a write fails (\<^term>\<open>None\<close>: the client reads everything). A handler writes in pieces of a size
  the source of its bytes decides: \<open>rw_cut\<close> is how many bytes come in whole pieces before the piece that
  exceeds the announced length. Only final status codes occur: an HTTP client returns no informational
  response, and the handlers write none.
\<close>

record response_writer =
  rw_head :: bool
  rw_header :: header
  rw_sent :: "(int \<times> header) option"
  rw_body :: string
  rw_written :: nat
  rw_budget :: "nat option"
  rw_cut :: nat

definition fresh_writer :: "nat option \<Rightarrow> response_writer" where
  "fresh_writer b = \<lparr>rw_head = False, rw_header = [], rw_sent = None, rw_body = [], rw_written = 0, rw_budget = b, rw_cut = 0\<rparr>"

text \<open>The writer that the server makes for a request.\<close>

definition writer_for :: "request \<Rightarrow> nat option \<Rightarrow> response_writer" where
  "writer_for rq b = (fresh_writer b)\<lparr>rw_head := (rq_method rq = ''HEAD'')\<rparr>"

text \<open>
  The length that a header announces: \<^verbatim>\<open>strconv.ParseInt\<close> of \<^verbatim>\<open>Content-Length\<close>; what does not parse or is
  negative counts as absent.
\<close>

definition declared_length :: "header \<Rightarrow> nat option" where
  "declared_length h =
     (case atoi (header_get h ''Content-Length'') of
        None \<Rightarrow> None | Some v \<Rightarrow> if v < 0 then None else Some (nat v))"

definition body_allowed :: "int \<Rightarrow> bool" where
  "body_allowed code \<longleftrightarrow> \<not> (100 \<le> code \<and> code \<le> 199) \<and> code \<noteq> 204 \<and> code \<noteq> 304"

definition rw_write_header :: "int \<Rightarrow> response_writer \<Rightarrow> response_writer" where
  "rw_write_header code w =
     (case rw_sent w of Some _ \<Rightarrow> w | None \<Rightarrow> w\<lparr>rw_sent := Some (code, rw_header w)\<rparr>)"

text \<open>The status and the headers of the answer as a write finds them, after its implicit \<^verbatim>\<open>WriteHeader(200)\<close>.\<close>

definition rw_answer :: "response_writer \<Rightarrow> int \<times> header" where
  "rw_answer w = (case rw_sent w of Some sh \<Rightarrow> sh | None \<Rightarrow> (200, rw_header w))"

text \<open>
  How many of \<open>n\<close> offered bytes the server takes, and the error of the write that ends the copy: a status
  without body takes none, an announced length is not exceeded, the body of an answer to \<^verbatim>\<open>HEAD\<close> is
  swallowed, and the connection may break.
\<close>

definition rw_accept :: "nat \<Rightarrow> response_writer \<Rightarrow> nat \<times> go_error option" where
  "rw_accept n w =
     (let (status, h) = rw_answer w in
      if n = 0 then (0, None)
      else if \<not> body_allowed status then
        (0, Some (Errorf ''http: request method or response status code does not allow body''))
      else
        (let (m, over) =
           (case declared_length h of
              Some l \<Rightarrow> if l < rw_written w + n
                       then (min (l - rw_written w) (rw_cut w),
                             Some (Errorf ''http: wrote more than the declared Content-Length''))
                       else (n, None)
            | None \<Rightarrow> (n, None))
         in if rw_head w then (m, over)
            else (case rw_budget w of
                    None \<Rightarrow> (m, over)
                  | Some b \<Rightarrow> if m \<le> b then (m, over) else (b, Some (Errorf ''write: broken pipe'')))))"

definition rw_write :: "string \<Rightarrow> response_writer \<Rightarrow> go_error option \<times> response_writer" where
  "rw_write bs w =
     (case rw_accept (length bs) w of
        (k, e) \<Rightarrow>
          (e, (rw_write_header 200 w)
                \<lparr>rw_body := rw_body w @ (if rw_head w then [] else take k bs),
                 rw_written := rw_written w + length bs,
                 rw_budget := (if rw_head w then rw_budget w else map_option (\<lambda>b. b - k) (rw_budget w))\<rparr>))"

lemma rw_write_header_sent: "rw_sent w = Some x \<Longrightarrow> rw_write_header code w = w"
  by (simp add: rw_write_header_def)

lemma rw_write_header_fresh:
  "rw_sent w = None \<Longrightarrow> rw_sent (rw_write_header code w) = Some (code, rw_header w)"
  by (simp add: rw_write_header_def)

lemma rw_write_header_body [simp]: "rw_body (rw_write_header code w) = rw_body w"
  by (simp add: rw_write_header_def split: option.splits)

lemma rw_write_header_budget [simp]: "rw_budget (rw_write_header code w) = rw_budget w"
  by (simp add: rw_write_header_def split: option.splits)

lemma rw_write_header_header [simp]: "rw_header (rw_write_header code w) = rw_header w"
  by (simp add: rw_write_header_def split: option.splits)

lemma rw_write_header_simps [simp]:
  "rw_head (rw_write_header code w) = rw_head w" "rw_written (rw_write_header code w) = rw_written w"
  "rw_cut (rw_write_header code w) = rw_cut w"
  by (simp_all add: rw_write_header_def split: option.splits)

lemma fresh_writer_simps [simp]:
  "rw_head (fresh_writer b) = False" "rw_header (fresh_writer b) = []" "rw_sent (fresh_writer b) = None"
  "rw_body (fresh_writer b) = []" "rw_written (fresh_writer b) = 0" "rw_budget (fresh_writer b) = b"
  by (simp_all add: fresh_writer_def)

lemma writer_for_simps [simp]:
  "rw_head (writer_for rq b) \<longleftrightarrow> rq_method rq = ''HEAD''" "rw_header (writer_for rq b) = []"
  "rw_sent (writer_for rq b) = None" "rw_body (writer_for rq b) = []" "rw_written (writer_for rq b) = 0"
  "rw_budget (writer_for rq b) = b"
  by (simp_all add: writer_for_def)

lemma writer_for_fresh: "rq_method rq \<noteq> ''HEAD'' \<Longrightarrow> writer_for rq b = fresh_writer b"
  by (simp add: writer_for_def fresh_writer_def)

lemma declared_length_Nil [simp]: "declared_length [] = None"
  by (simp add: declared_length_def atoi_def)

lemma rw_answer_header [simp]: "rw_answer (rw_write_header 200 w) = rw_answer w"
  by (simp add: rw_answer_def rw_write_header_def split: option.splits)

text \<open>A writer that takes \<open>n\<close> more bytes: the status has a body, the announced length leaves room, the client reads.\<close>

definition rw_room :: "nat \<Rightarrow> response_writer \<Rightarrow> bool" where
  "rw_room n w \<longleftrightarrow> n = 0 \<or> (body_allowed (fst (rw_answer w)) \<and>
     (\<forall>l. declared_length (snd (rw_answer w)) = Some l \<longrightarrow> rw_written w + n \<le> l) \<and>
     (rw_head w \<or> (\<forall>b. rw_budget w = Some b \<longrightarrow> n \<le> b)))"

lemma rw_accept_room: "rw_room n w \<Longrightarrow> rw_accept n w = (n, None)"
  by (auto simp: rw_accept_def rw_room_def Let_def split: prod.splits option.splits)

lemma rw_accept_ok: "snd (rw_accept n w) = None \<longleftrightarrow> rw_room n w"
  by (auto simp: rw_accept_def rw_room_def Let_def not_less split: prod.splits option.splits if_splits)

lemma rw_accept_le: "fst (rw_accept n w) \<le> n"
  by (auto simp: rw_accept_def Let_def split: prod.splits option.splits if_splits)

lemma rw_write_room:
  assumes "rw_room (length bs) w"
  shows "rw_write bs w =
    (None, (rw_write_header 200 w)
       \<lparr>rw_body := rw_body w @ (if rw_head w then [] else bs), rw_written := rw_written w + length bs,
        rw_budget := (if rw_head w then rw_budget w else map_option (\<lambda>b. b - length bs) (rw_budget w))\<rparr>)"
  using rw_accept_room [OF assms] by (simp add: rw_write_def)

lemma rw_write_error: "fst (rw_write bs w) = snd (rw_accept (length bs) w)"
  by (simp add: rw_write_def split: prod.splits)

lemma rw_write_sent: "rw_sent w = Some x \<Longrightarrow> rw_write bs w = (e, w') \<Longrightarrow> rw_sent w' = Some x"
  by (auto simp: rw_write_def rw_write_header_sent split: prod.splits)

end
