(* ===== verification/GoUrl.thy ===== *)
theory GoUrl
  imports GoHttp GoEncoding "HOL-Library.Char_ord" "HOL-Library.List_Lexorder" "HOL-Library.Multiset"
begin

text \<open>
  \<^verbatim>\<open>net/url\<close>, as far as the program uses it: percent-encoding by component, \<^verbatim>\<open>URL.String\<close>,
  \<^verbatim>\<open>Query\<close> and \<^verbatim>\<open>Values.Encode\<close>, and the parser for the absolute URLs that the program hands to
  \<^verbatim>\<open>http.NewRequest\<close>. The cache key is such a rendered URL, so the laws here say when two of
  them are equal.
\<close>

section \<open>Percent-encoding\<close>

datatype url_mode = EncHost | EncZone | EncPath | EncUser | EncQuery

definition should_escape :: "url_mode \<Rightarrow> char \<Rightarrow> bool" where
  "should_escape m c =
     (if is_letter c \<or> is_digit c then False
      else if (m = EncHost \<or> m = EncZone) \<and> (c \<in> set ''!$&()*+,;=:[]<>'' \<or> c = CHR 0x27 \<or> c = CHR 0x22) then False
      else if c \<in> set ''-_.~'' then False
      else if c \<in> set ''$&+,/:;=?@'' then
        (case m of EncPath \<Rightarrow> c = CHR ''?'' | EncUser \<Rightarrow> c \<in> set ''@/?:'' | _ \<Rightarrow> True)
      else True)"

definition upper_hex :: string where
  "upper_hex = ''0123456789ABCDEF''"

fun escape :: "url_mode \<Rightarrow> string \<Rightarrow> string" where
  "escape m [] = []"
| "escape m (c # s) =
     (if c = CHR 0x20 \<and> m = EncQuery then CHR ''+'' # escape m s
      else if should_escape m c then
        CHR ''%'' # upper_hex ! (byte c div 16) # upper_hex ! (byte c mod 16) # escape m s
      else c # escape m s)"

definition unhex :: "char \<Rightarrow> nat option" where
  "unhex c = (case index_of c upper_hex of Some n \<Rightarrow> Some n | None \<Rightarrow> index_of c hex_digits)"

text \<open>
  In a host only bytes outside ASCII may be percent-encoded (and \<^verbatim>\<open>%25\<close>, which starts a zone); in
  a zone only bytes that need no escape in a host.
\<close>

definition escape_allowed :: "url_mode \<Rightarrow> nat \<Rightarrow> nat \<Rightarrow> bool" where
  "escape_allowed m a b =
     (case m of
        EncHost \<Rightarrow> 8 \<le> a \<or> (a = 2 \<and> b = 5)
      | EncZone \<Rightarrow> (a = 2 \<and> b = 5) \<or> 16 * a + b = 32 \<or> \<not> should_escape EncHost (char_of (16 * a + b))
      | _ \<Rightarrow> True)"

fun unescape :: "url_mode \<Rightarrow> string \<Rightarrow> string option" where
  "unescape m [] = Some []"
| "unescape m (c # s) =
     (if c = CHR ''%'' then
        (case s of
           a # b # t \<Rightarrow>
             (case (unhex a, unhex b) of
                (Some x, Some y) \<Rightarrow>
                  if escape_allowed m x y then map_option ((#) (char_of (16 * x + y))) (unescape m t) else None
              | _ \<Rightarrow> None)
         | _ \<Rightarrow> None)
      else if c = CHR ''+'' \<and> m = EncQuery then map_option ((#) (CHR 0x20)) (unescape m s)
      else if (m = EncHost \<or> m = EncZone) \<and> byte c < 128 \<and> should_escape m c then None
      else map_option ((#) c) (unescape m s))"

lemma upper_hex_facts: "length upper_hex = 16" "distinct upper_hex"
  by code_simp+

lemma upper_hex_inj: "m < 16 \<Longrightarrow> n < 16 \<Longrightarrow> upper_hex ! m = upper_hex ! n \<Longrightarrow> m = n"
  by (metis nth_eq_iff_index_eq upper_hex_facts)

lemma upper_hex_mem: "n < 16 \<Longrightarrow> upper_hex ! n \<in> set upper_hex"
  by (rule nth_mem) (simp add: upper_hex_facts)

lemma unhex_upper: "n < 16 \<Longrightarrow> unhex (upper_hex ! n) = Some n"
proof -
  have "list_all (\<lambda>n. unhex (upper_hex ! n) = Some n) [0..<16]" by code_simp
  then show "n < 16 \<Longrightarrow> unhex (upper_hex ! n) = Some n" by (simp add: list_all_iff)
qed

lemma percent_escaped [simp]: "should_escape m (CHR ''%'')"
  by (simp add: should_escape_def is_letter_def is_digit_def)

lemma plus_escaped [simp]: "should_escape EncQuery (CHR ''+'')"
  by (simp add: should_escape_def is_letter_def is_digit_def)

text \<open>Encoding is injective in every mode, and decoding undoes it where the program decodes.\<close>

lemma escape_inj: "escape m s = escape m t \<Longrightarrow> s = t"
proof (induction s arbitrary: t)
  case Nil
  then show ?case by (cases t) (auto split: if_splits)
next
  case (Cons c s)
  then obtain d u where t: "t = d # u" by (cases t) (auto split: if_splits)
  have "c = d \<and> escape m s = escape m u"
  proof (cases "should_escape m c \<and> should_escape m d \<and> \<not> (m = EncQuery \<and> (c = CHR 0x20 \<or> d = CHR 0x20))")
    case True
    with Cons.prems t have "upper_hex ! (byte c div 16) = upper_hex ! (byte d div 16)"
      "upper_hex ! (byte c mod 16) = upper_hex ! (byte d mod 16)" "escape m s = escape m u" by auto
    then have "byte c div 16 = byte d div 16" "byte c mod 16 = byte d mod 16"
      by (auto intro!: upper_hex_inj)
    then have "byte c = byte d" by (metis div_mult_mod_eq)
    with \<open>escape m s = escape m u\<close> show ?thesis by simp
  next
    case False
    with Cons.prems t show ?thesis by (auto split: if_splits)
  qed
  with Cons.IH t show ?case by simp
qed

definition percent :: "char \<Rightarrow> string" where
  "percent c = [CHR ''%'', upper_hex ! (byte c div 16), upper_hex ! (byte c mod 16)]"

lemma unescape_percent:
  "m = EncPath \<or> m = EncQuery \<Longrightarrow> unescape m (percent c @ t) = map_option ((#) c) (unescape m t)"
proof -
  have "unhex (upper_hex ! (byte c div 16)) = Some (byte c div 16)"
    "unhex (upper_hex ! (byte c mod 16)) = Some (byte c mod 16)"
    by (auto intro!: unhex_upper)
  moreover have "char_of (16 * (byte c div 16) + byte c mod 16) = c" by (simp del: mult_div_mod_eq add: mult_div_mod_eq)
  ultimately show "m = EncPath \<or> m = EncQuery \<Longrightarrow> ?thesis"
    by (auto simp: percent_def escape_allowed_def)
qed

lemma escape_Cons:
  "escape m (c # s) =
     (if c = CHR 0x20 \<and> m = EncQuery then [CHR ''+''] else if should_escape m c then percent c else [c]) @ escape m s"
  by (simp add: percent_def)

lemma unescape_plain:
  "m = EncPath \<or> m = EncQuery \<Longrightarrow> \<not> should_escape m c \<Longrightarrow> unescape m (c # t) = map_option ((#) c) (unescape m t)"
proof -
  assume "m = EncPath \<or> m = EncQuery" "\<not> should_escape m c"
  then have "c \<noteq> CHR ''%''" "\<not> (c = CHR ''+'' \<and> m = EncQuery)" "\<not> (m = EncHost \<or> m = EncZone)"
    using percent_escaped [of m] plus_escaped by auto
  then show ?thesis by (simp only: unescape.simps if_False simp_thms)
qed

lemma unescape_escape: "m = EncPath \<or> m = EncQuery \<Longrightarrow> unescape m (escape m s) = Some s"
proof (induction s)
  case (Cons c s)
  then have IH: "unescape m (escape m s) = Some s" by simp
  show ?case
  proof (cases "c = CHR 0x20 \<and> m = EncQuery")
    case True
    with IH show ?thesis by simp
  next
    case False
    with Cons.prems IH show ?thesis
      by (cases "should_escape m c")
         (simp_all only: escape_Cons unescape_percent unescape_plain if_False if_True append_Cons
            append_Nil option.map simp_thms)
  qed
qed simp

lemma percent_alphabet: "d \<in> set (percent c) \<Longrightarrow> d = CHR ''%'' \<or> d \<in> set upper_hex"
  by (auto simp: percent_def intro!: upper_hex_mem)

lemma escape_alphabet:
  "d \<in> set (escape m s) \<Longrightarrow> d = CHR ''%'' \<or> d \<in> set upper_hex \<or> (d = CHR ''+'' \<and> m = EncQuery) \<or> \<not> should_escape m d"
proof (induction s)
  case (Cons c s)
  from Cons.prems consider "d \<in> set (escape m s)" | "d = CHR ''+''" "m = EncQuery" | "d \<in> set (percent c)"
    | "d = c" "\<not> should_escape m c"
    unfolding escape_Cons set_append Un_iff by (cases "c = CHR 0x20 \<and> m = EncQuery"; cases "should_escape m c") auto
  then show ?case using Cons.IH percent_alphabet by cases blast+
qed simp

lemma escape_free:
  assumes "should_escape m d" and "d \<notin> set ''%0123456789ABCDEF''" and "m = EncQuery \<longrightarrow> d \<noteq> CHR ''+''"
  shows "d \<notin> set (escape m s)"
proof
  assume "d \<in> set (escape m s)"
  from escape_alphabet [OF this] assms have "d = CHR ''%'' \<or> d \<in> set upper_hex" by blast
  with assms(2) show False unfolding upper_hex_def by (elim disjE) (simp_all only: list.set insert_iff simp_thms)
qed

lemma escape_Nil_iff [simp]: "escape m s = [] \<longleftrightarrow> s = []"
  by (cases s) auto

section \<open>Query strings\<close>

type_synonym url_values = "(string \<times> string list) list"

definition values_add :: "url_values \<Rightarrow> string \<Rightarrow> string \<Rightarrow> url_values" where
  "values_add m k v = AList.update k ((case map_of m k of None \<Rightarrow> [] | Some vs \<Rightarrow> vs) @ [v]) m"

definition values_get :: "url_values \<Rightarrow> string \<Rightarrow> string" where
  "values_get m k = (case map_of m k of Some (v # _) \<Rightarrow> v | _ \<Rightarrow> [])"

definition values_set :: "url_values \<Rightarrow> string \<Rightarrow> string \<Rightarrow> url_values" where
  "values_set m k v = AList.update k [v] m"

definition values_del :: "url_values \<Rightarrow> string \<Rightarrow> url_values" where
  "values_del m k = AList.delete k m"

text \<open>\<^verbatim>\<open>URL.Query\<close> drops what does not parse: pairs with a semicolon or a malformed escape.\<close>

definition query_pair :: "url_values \<Rightarrow> string \<Rightarrow> url_values" where
  "query_pair m key =
     (if CHR '';'' \<in> set key \<or> key = [] then m
      else (case strings_cut (CHR ''='') key of
              (k, v, _) \<Rightarrow>
                (case (unescape EncQuery k, unescape EncQuery v) of
                   (Some k', Some v') \<Rightarrow> values_add m k' v'
                 | _ \<Rightarrow> m)))"

definition parse_query :: "string \<Rightarrow> url_values" where
  "parse_query q = foldl query_pair [] (strings_split (CHR ''&'') q)"

definition values_pairs :: "url_values \<Rightarrow> (string \<times> string) list" where
  "values_pairs m = concat (map (\<lambda>(k, vs). map (Pair k) vs) (sort_key fst m))"

definition encode_pair :: "string \<times> string \<Rightarrow> string" where
  "encode_pair = (\<lambda>(k, v). escape EncQuery k @ CHR ''='' # escape EncQuery v)"

definition values_encode :: "url_values \<Rightarrow> string" where
  "values_encode m = strings_join (CHR ''&'') (map encode_pair (values_pairs m))"

text \<open>Well-formed values: a map, with at least one value per key, as \<^verbatim>\<open>Query\<close> returns them.\<close>

definition wf_values :: "url_values \<Rightarrow> bool" where
  "wf_values m \<longleftrightarrow> wf_alist m \<and> (\<forall>(k, vs) \<in> set m. vs \<noteq> [])"

lemma wf_values_add: "wf_values m \<Longrightarrow> wf_values (values_add m k v)"
proof -
  assume m: "wf_values m"
  have "vs \<noteq> []" if "(k', vs) \<in> set (values_add m k v)" for k' vs
  proof -
    have "set (AList.update k w m) \<subseteq> insert (k, w) (set m)" for w by (induction m) auto
    with that m show ?thesis by (fastforce simp: values_add_def wf_values_def)
  qed
  with m show ?thesis by (auto simp: wf_values_def values_add_def)
qed

lemma wf_values_del [simp]: "wf_values m \<Longrightarrow> wf_values (values_del m k)"
  by (auto simp: wf_values_def values_del_def set_AList_delete)

lemma wf_parse_query [simp]: "wf_values (parse_query q)"
proof -
  have "wf_values m \<Longrightarrow> wf_values (foldl query_pair m ps)" for m ps
    by (induction ps arbitrary: m)
       (auto simp: query_pair_def intro: wf_values_add split: prod.splits option.splits)
  moreover have "wf_values []" by (simp add: wf_values_def)
  ultimately show ?thesis by (simp add: parse_query_def)
qed

lemma values_pairs_lookup:
  assumes "wf_values m"
  shows "map snd (filter (\<lambda>p. fst p = k) (values_pairs m)) = (case map_of m k of None \<Rightarrow> [] | Some vs \<Rightarrow> vs)"
proof -
  have "map snd (filter (\<lambda>p. fst p = k) (concat (map (\<lambda>(k, vs). map (Pair k) vs) xs))) =
      (case map_of xs k of None \<Rightarrow> [] | Some vs \<Rightarrow> vs)" if "distinct (map fst xs)" for xs :: url_values
    using that
  proof (induction xs)
    case (Cons x xs)
    obtain k' vs where x: "x = (k', vs)" by fastforce
    have "map snd (filter (\<lambda>p. fst p = k) (map (Pair k') vs)) = (if k = k' then vs else [])"
      by (simp add: filter_map comp_def)
    moreover have "k = k' \<Longrightarrow> map_of xs k = None" using Cons.prems x by (simp add: map_of_eq_None_iff)
    ultimately show ?case using Cons x by auto
  qed simp
  moreover have d: "distinct (map fst (sort_key fst m))"
    using assms by (simp add: wf_values_def wf_alist_def distinct_map)
  moreover have "map_of (sort_key fst m) = map_of m"
    using assms d by (intro map_of_inject_set [THEN iffD2]) (auto simp: wf_values_def wf_alist_def)
  ultimately show ?thesis by (simp add: values_pairs_def)
qed

lemma values_pairs_eq_iff:
  assumes "wf_values m" and "wf_values m'"
  shows "values_pairs m = values_pairs m' \<longleftrightarrow> map_of m = map_of m'"
proof
  assume eq: "values_pairs m = values_pairs m'"
  show "map_of m = map_of m'"
  proof
    fix k
    have "(case map_of m k of None \<Rightarrow> [] | Some vs \<Rightarrow> vs) = (case map_of m' k of None \<Rightarrow> [] | Some vs \<Rightarrow> vs)"
      using values_pairs_lookup [OF assms(1), of k] values_pairs_lookup [OF assms(2), of k] eq by simp
    moreover have "map_of m k \<noteq> Some []" "map_of m' k \<noteq> Some []"
      using assms by (auto simp: wf_values_def dest: map_of_SomeD)
    ultimately show "map_of m k = map_of m' k" by (auto split: option.splits)
  qed
next
  assume "map_of m = map_of m'"
  then have "set m = set m'"
    using assms by (intro map_of_inject_set [THEN iffD1]) (auto simp: wf_values_def wf_alist_def)
  then have "mset m = mset m'"
    using assms by (intro set_eq_iff_mset_eq_distinct [THEN iffD1])
      (auto simp: wf_values_def wf_alist_def distinct_map)
  then have "sort_key fst m = sort_key fst m'"
    using assms by (intro sort_key_inj_key_eq) (auto simp: wf_values_def wf_alist_def distinct_map)
  then show "values_pairs m = values_pairs m'" by (simp add: values_pairs_def)
qed

lemma query_separators [simp]:
  "CHR ''&'' \<notin> set (escape EncQuery s)" "CHR ''='' \<notin> set (escape EncQuery s)"
  by (rule escape_free; simp add: should_escape_def is_letter_def is_digit_def)+

lemma encode_pair_inj: "encode_pair p = encode_pair q \<Longrightarrow> p = q"
proof -
  assume eq: "encode_pair p = encode_pair q"
  have "strings_cut (CHR ''='') (encode_pair r) = (escape EncQuery (fst r), escape EncQuery (snd r), True)" for r
    by (simp add: encode_pair_def case_prod_beta strings_cut_append)
  with eq show "p = q" by (metis escape_inj prod.inject prod.collapse)
qed

lemma encode_pair_facts: "CHR ''&'' \<notin> set (encode_pair p)" "encode_pair p \<noteq> []"
  by (auto simp: encode_pair_def case_prod_beta)

lemma join_encode_inj:
  assumes "strings_join (CHR ''&'') (map encode_pair ps) = strings_join (CHR ''&'') (map encode_pair qs)"
  shows "ps = qs"
proof -
  have split: "ps \<noteq> [] \<Longrightarrow> strings_split (CHR ''&'') (strings_join (CHR ''&'') (map encode_pair ps)) = map encode_pair ps" for ps
    by (rule strings_split_join) (auto simp: encode_pair_facts)
  have "strings_join (CHR ''&'') (map encode_pair ps) = [] \<longleftrightarrow> ps = []" for ps
    by (induction ps rule: induct_list012) (auto simp: encode_pair_facts)
  with assms split show ?thesis
    by (metis encode_pair_inj injI map_injective)
qed

text \<open>Two well-formed query maps render to the same string exactly when they are the same map.\<close>

lemma values_encode_eq_iff:
  "wf_values m \<Longrightarrow> wf_values m' \<Longrightarrow> values_encode m = values_encode m' \<longleftrightarrow> map_of m = map_of m'"
  using join_encode_inj values_pairs_eq_iff by (metis values_encode_def)

section \<open>Rendering\<close>

definition valid_encoded :: "string \<Rightarrow> bool" where
  "valid_encoded s \<longleftrightarrow>
     list_all (\<lambda>c. c \<in> set ''!$&()*+,;=:@[]%'' \<or> c = CHR 0x27 \<or> \<not> should_escape EncPath c) s"

definition escaped_path :: "url \<Rightarrow> string" where
  "escaped_path u =
     (if u_rawpath u \<noteq> [] \<and> valid_encoded (u_rawpath u) \<and> unescape EncPath (u_rawpath u) = Some (u_path u)
      then u_rawpath u
      else if u_path u = ''*'' then ''*''
      else escape EncPath (u_path u))"

text \<open>
  \<^verbatim>\<open>URL.String\<close> of a URL with a scheme, the only ones the program renders (a URL without a scheme
  may need a leading \<^verbatim>\<open>./\<close>).
\<close>

definition url_string :: "url \<Rightarrow> string" where
  "url_string u =
     (let path = escaped_path u in
      u_scheme u @ '':'' @
      (if u_host u \<noteq> [] \<or> u_path u \<noteq> [] \<or> u_user u \<noteq> None then ''//'' else []) @
      (case u_user u of None \<Rightarrow> [] | Some x \<Rightarrow> x @ ''@'') @
      escape EncHost (u_host u) @
      (if path \<noteq> [] \<and> hd path \<noteq> CHR ''/'' \<and> u_host u \<noteq> [] then ''/'' else []) @
      path @
      (if u_force_query u \<or> u_rawquery u \<noteq> [] then CHR ''?'' # u_rawquery u else []))"

text \<open>The path as \<^verbatim>\<open>String\<close> shows it after a host: with a leading slash unless it is empty.\<close>

definition rooted :: "string \<Rightarrow> string" where
  "rooted p = (if p \<noteq> [] \<and> hd p \<noteq> CHR ''/'' then CHR ''/'' # p else p)"

lemma host_separators [simp]: "CHR ''/'' \<notin> set (escape EncHost s)" "CHR ''?'' \<notin> set (escape EncHost s)"
  by (rule escape_free; simp add: should_escape_def is_letter_def is_digit_def)+

lemma path_separator [simp]: "CHR ''?'' \<notin> set (escape EncPath s)" "CHR ''*'' \<notin> set (escape EncPath s)"
  by (rule escape_free; simp add: should_escape_def is_letter_def is_digit_def)+

lemma slash_plain [simp]: "\<not> should_escape EncPath (CHR ''/'')"
  by (simp add: should_escape_def is_letter_def is_digit_def)

lemma escape_slash: "escape EncPath (CHR ''/'' # p) = CHR ''/'' # escape EncPath p"
  by simp

lemma rooted_escape: "rooted (escape EncPath p) = escape EncPath (rooted p)"
proof (cases p)
  case (Cons c q)
  have "hd (escape EncPath p) = CHR ''/'' \<longleftrightarrow> c = CHR ''/''"
    using Cons by (auto split: if_splits)
  with Cons show ?thesis by (simp add: rooted_def)
qed (simp add: rooted_def)

text \<open>
  What the rendered URL of a cache key keeps of the path: nothing but a missing leading slash is
  lost, and \<^verbatim>\<open>*\<close> stays apart from everything else.
\<close>

definition key_path :: "string \<Rightarrow> string option" where
  "key_path p = (if p = ''*'' then None else Some (rooted p))"

lemma rooted_path_eq_iff:
  "rooted (if p = ''*'' then ''*'' else escape EncPath p) = rooted (if q = ''*'' then ''*'' else escape EncPath q) \<longleftrightarrow>
     key_path p = key_path q"
proof -
  have star: "CHR ''*'' \<notin> set (rooted (escape EncPath p))" for p by (simp add: rooted_def)
  have "CHR ''*'' \<in> set (rooted ''*'')" by (simp add: rooted_def)
  then have "rooted ''*'' \<noteq> rooted (escape EncPath p)" for p using star by metis
  then show ?thesis
    by (auto simp: key_path_def rooted_escape dest: escape_inj dest!: sym [of _ "rooted ''*''"])
qed

definition key_url :: "string \<Rightarrow> string \<Rightarrow> string \<Rightarrow> string \<Rightarrow> url" where
  "key_url scheme host path q =
     empty_url\<lparr>u_scheme := scheme, u_host := host, u_path := path, u_rawquery := q\<rparr>"

lemma url_string_key:
  "host \<noteq> [] \<Longrightarrow> url_string (key_url scheme host path q) =
     scheme @ ''://'' @ escape EncHost host @ rooted (if path = ''*'' then ''*'' else escape EncPath path) @
     (if q \<noteq> [] then CHR ''?'' # q else [])"
  by (simp add: url_string_def key_url_def empty_url_def escaped_path_def rooted_def Let_def)

lemma cut_query:
  "CHR ''?'' \<notin> set a \<Longrightarrow> strings_cut (CHR ''?'') (a @ (if q \<noteq> [] then CHR ''?'' # q else [])) = (a, q, q \<noteq> [])"
  using strings_cut_append [of "CHR ''?''" a q] by simp

lemma cut_path:
  "CHR ''/'' \<notin> set h \<Longrightarrow> p = [] \<or> hd p = CHR ''/'' \<Longrightarrow>
     strings_cut (CHR ''/'') (h @ p) = (h, tl p, p \<noteq> [])"
  using strings_cut_append [of "CHR ''/''" h "tl p"] by (cases p) auto

lemma rooted_hd: "rooted p = [] \<or> hd (rooted p) = CHR ''/''"
  by (simp add: rooted_def)

text \<open>Rendered key URLs are equal exactly when scheme, host, path and query agree.\<close>

lemma key_url_string_eq_iff:
  assumes "host \<noteq> []" and "host' \<noteq> []" and "set scheme \<subseteq> set ''htps''" and "set scheme' \<subseteq> set ''htps''"
  shows "url_string (key_url scheme host path q) = url_string (key_url scheme' host' path' q') \<longleftrightarrow>
    scheme = scheme' \<and> host = host' \<and> key_path path = key_path path' \<and> q = q'"
proof -
  let ?e = "\<lambda>p. if p = ''*'' then ''*'' else escape EncPath p"
  let ?r = "\<lambda>h p q. (escape EncHost h @ rooted (?e p)) @ (if q \<noteq> [] then CHR ''?'' # q else [])"
  have colon: "CHR '':'' \<notin> set scheme" "CHR '':'' \<notin> set scheme'" using assms(3,4) by auto
  have str: "h \<noteq> [] \<Longrightarrow> url_string (key_url s h p q) = s @ CHR '':'' # ''//'' @ ?r h p q" for s h p q
    by (simp add: url_string_key)
  have noq: "CHR ''?'' \<notin> set (escape EncHost h @ rooted (?e p))" for h p
    by (simp add: rooted_def)
  have "?r h p q = ?r h' p' q' \<longleftrightarrow> h = h' \<and> key_path p = key_path p' \<and> q = q'" (is "?L \<longleftrightarrow> ?R") for h p q h' p' q'
  proof
    assume ?L
    then have "strings_cut (CHR ''?'') (?r h p q) = strings_cut (CHR ''?'') (?r h' p' q')" by simp
    then have hp: "escape EncHost h @ rooted (?e p) = escape EncHost h' @ rooted (?e p')" and q: "q = q'"
      unfolding cut_query [OF noq] by simp_all
    from hp have "strings_cut (CHR ''/'') (escape EncHost h @ rooted (?e p)) =
        strings_cut (CHR ''/'') (escape EncHost h' @ rooted (?e p'))" by simp
    then have "escape EncHost h = escape EncHost h'"
      unfolding cut_path [OF host_separators(1) rooted_hd] by simp
    with hp q show ?R using escape_inj rooted_path_eq_iff by blast
  next
    assume ?R
    then show ?L using rooted_path_eq_iff [of p p'] by (simp only: simp_thms)
  qed
  moreover have "s @ CHR '':'' # x = s' @ CHR '':'' # y \<longleftrightarrow> s = s' \<and> x = y"
    if "CHR '':'' \<notin> set s" "CHR '':'' \<notin> set s'" for s s' x y
    using that by (metis append_Cons append_eq_append_conv_if strings_cut_append prod.inject)
  ultimately show ?thesis using assms colon by (simp only: str append_same_eq same_append_eq simp_thms)
qed

section \<open>Parsing absolute URLs\<close>

text \<open>Split at the last occurrence of a byte: before, after, found.\<close>

definition split_last :: "char \<Rightarrow> string \<Rightarrow> string \<times> string \<times> bool" where
  "split_last c s = (case strings_cut c (rev s) of (a, b, f) \<Rightarrow> if f then (rev b, rev a, True) else (s, [], False))"

fun cut_before :: "string \<Rightarrow> string \<Rightarrow> string \<times> string \<times> bool" where
  "cut_before sub [] = ([], [], sub = [])"
| "cut_before sub (c # s) =
     (if has_prefix sub (c # s) then ([], c # s, True)
      else (case cut_before sub s of (a, b, f) \<Rightarrow> (c # a, b, f)))"

definition opt_append :: "string option \<Rightarrow> string option \<Rightarrow> string option" where
  "opt_append a b = (case (a, b) of (Some x, Some y) \<Rightarrow> Some (x @ y) | _ \<Rightarrow> None)"

definition valid_optional_port :: "string \<Rightarrow> bool" where
  "valid_optional_port s \<longleftrightarrow> s = [] \<or> (hd s = CHR '':'' \<and> list_all is_digit (tl s))"

definition parse_host :: "string \<Rightarrow> string option" where
  "parse_host host =
     (if has_prefix ''['' host then
        (case split_last (CHR '']'') host of
           (inner, port, found) \<Rightarrow>
             if \<not> found \<or> \<not> valid_optional_port port then None
             else (case cut_before ''%25'' inner of
                     (h1, h2, True) \<Rightarrow>
                       opt_append (unescape EncHost h1)
                         (opt_append (unescape EncZone h2) (unescape EncHost (CHR '']'' # port)))
                   | _ \<Rightarrow> unescape EncHost host))
      else
        (case split_last (CHR '':'') host of
           (_, port, found) \<Rightarrow>
             if found \<and> \<not> list_all is_digit port then None else unescape EncHost host))"

definition valid_userinfo :: "string \<Rightarrow> bool" where
  "valid_userinfo s \<longleftrightarrow>
     list_all (\<lambda>c. is_letter c \<or> is_digit c \<or> c \<in> set ''-._:~!$&()*+,;=%@'' \<or> c = CHR 0x27) s"

text \<open>The user information, rendered again as \<^verbatim>\<open>Userinfo.String\<close> does.\<close>

definition parse_userinfo :: "string \<Rightarrow> string option" where
  "parse_userinfo s =
     (if \<not> valid_userinfo s then None
      else (case strings_cut (CHR '':'') s of
              (n, p, found) \<Rightarrow>
                if found then
                  (case (unescape EncUser n, unescape EncUser p) of
                     (Some n', Some p') \<Rightarrow> Some (escape EncUser n' @ CHR '':'' # escape EncUser p')
                   | _ \<Rightarrow> None)
                else map_option (escape EncUser) (unescape EncUser s)))"

definition parse_authority :: "string \<Rightarrow> (string option \<times> string) option" where
  "parse_authority s =
     (case split_last (CHR ''@'') s of
        (user, host, True) \<Rightarrow>
          (case (parse_host host, parse_userinfo user) of
             (Some h, Some u) \<Rightarrow> Some (Some u, h)
           | _ \<Rightarrow> None)
      | _ \<Rightarrow> map_option (Pair None) (parse_host s))"

text \<open>\<^verbatim>\<open>setPath\<close>: the raw path is kept only when it is not the default encoding of the path.\<close>

definition set_path :: "string \<Rightarrow> url \<Rightarrow> url option" where
  "set_path p u =
     (case unescape EncPath p of
        None \<Rightarrow> None
      | Some path \<Rightarrow> Some (u\<lparr>u_path := path, u_rawpath := if p = escape EncPath path then [] else p\<rparr>))"

definition is_ctl :: "char \<Rightarrow> bool" where
  "is_ctl c \<longleftrightarrow> byte c < 32 \<or> c = CHR 0x7F"

text \<open>
  \<^verbatim>\<open>url.Parse\<close> of a string that starts with \<^verbatim>\<open>http://\<close> or \<^verbatim>\<open>https://\<close>, as every string the program
  parses does. The fragment is checked and dropped: no request carries it.
\<close>

definition url_parse :: "string \<Rightarrow> url result" where
  "url_parse raw =
     (let bad = Inl (Errorf ''parse: invalid URL'');
          (s, frag, _) = strings_cut (CHR ''#'') raw;
          (scheme, rest) = (if has_prefix ''http://'' s then (''http'', drop 7 s) else (''https'', drop 8 s))
      in if list_ex is_ctl s \<or> unescape EncPath frag = None \<or>
            \<not> (has_prefix ''http://'' s \<or> has_prefix ''https://'' s) then bad
         else
           (let (loc, q, found) = strings_cut (CHR ''?'') rest;
                (auth, _, _) = strings_cut (CHR ''/'') loc
            in (case parse_authority auth of
                  None \<Rightarrow> bad
                | Some (user, host) \<Rightarrow>
                    (case set_path (drop (length auth) loc)
                        (empty_url\<lparr>u_scheme := scheme, u_user := user, u_host := host,
                           u_force_query := found \<and> q = [], u_rawquery := q\<rparr>) of
                       None \<Rightarrow> bad
                     | Some u \<Rightarrow> Inr u))))"

section \<open>New requests\<close>

definition valid_method :: "string \<Rightarrow> bool" where
  "valid_method m \<longleftrightarrow> m \<noteq> [] \<and> list_all valid_header_byte m"

definition remove_empty_port :: "string \<Rightarrow> string" where
  "remove_empty_port host =
     (case split_last (CHR '':'') host of
        (before, after, found) \<Rightarrow> if found \<and> after = [] then before else host)"

text \<open>\<^verbatim>\<open>http.NewRequestWithContext\<close>; an empty method means \<^verbatim>\<open>GET\<close>.\<close>

definition http_new_request :: "string \<Rightarrow> string \<Rightarrow> reader \<Rightarrow> request result" where
  "http_new_request m raw body =
     (let m' = (if m = [] then ''GET'' else m) in
      if \<not> valid_method m' then Inl (Errorf ''net/http: invalid method'')
      else (case url_parse raw of
              Inl e \<Rightarrow> Inl e
            | Inr u \<Rightarrow>
                (let u' = u\<lparr>u_host := remove_empty_port (u_host u)\<rparr> in
                 Inr \<lparr>rq_method = m', rq_host = u_host u', rq_tls = False, rq_url = u', rq_header = [],
                      rq_body = body\<rparr>)))"

lemma url_parse_example:
  "url_parse ''http://10.0.0.1:8080/a%2Fb?x=1'' =
     Inr (empty_url\<lparr>u_scheme := ''http'', u_host := ''10.0.0.1:8080'', u_path := ''/a/b'', u_rawpath := ''/a%2Fb'',
       u_rawquery := ''x=1''\<rparr>)"
  by code_simp

section \<open>Host and port\<close>

text \<open>A node address: a name or an IPv4 address, a colon and a port number.\<close>

definition plain_char :: "char \<Rightarrow> bool" where
  "plain_char c \<longleftrightarrow> is_letter c \<or> is_digit c \<or> c = CHR ''.'' \<or> c = CHR ''-''"

definition host_port :: "string \<Rightarrow> bool" where
  "host_port n \<longleftrightarrow>
     (case split_last (CHR '':'') n of
        (h, p, found) \<Rightarrow> found \<and> h \<noteq> [] \<and> list_all plain_char h \<and> p \<noteq> [] \<and> list_all is_digit p)"

lemma split_last_join: "split_last c s = (a, b, True) \<Longrightarrow> s = a @ c # b \<and> c \<notin> set b"
proof -
  have cut: "strings_cut c s = (x, y, True) \<Longrightarrow> s = x @ c # y \<and> c \<notin> set x" for s x y
    by (induction s arbitrary: x) (auto split: if_splits prod.splits)
  assume "split_last c s = (a, b, True)"
  then have "strings_cut c (rev s) = (rev b, rev a, True)"
    by (auto simp: split_last_def split: prod.splits if_splits)
  from cut [OF this] have "rev s = rev b @ c # rev a" "c \<notin> set b" by auto
  from arg_cong [OF this(1), of rev] this(2) show ?thesis by simp
qed

lemma split_last_absent: "c \<notin> set s \<Longrightarrow> split_last c s = (s, [], False)"
  by (simp add: split_last_def)

lemma host_port_chars: "host_port n \<Longrightarrow> c \<in> set n \<Longrightarrow> plain_char c \<or> c = CHR '':''"
  unfolding host_port_def
  by (auto split: prod.splits dest!: split_last_join simp: list_all_iff plain_char_def)

lemma plain_not_special:
  "plain_char c \<Longrightarrow> c \<notin> set ''#?/@[]%''"
  by (auto simp: plain_char_def is_letter_def is_digit_def)

lemma host_port_no_special: "host_port n \<Longrightarrow> c \<in> set ''#?/@[]%'' \<Longrightarrow> c \<notin> set n"
  using host_port_chars plain_not_special by fastforce

lemma plain_char_safe: "plain_char c \<or> c = CHR '':'' \<Longrightarrow> c \<noteq> CHR ''%'' \<and> \<not> should_escape EncHost c \<and> \<not> is_ctl c"
proof -
  assume c: "plain_char c \<or> c = CHR '':''"
  have "\<not> should_escape EncHost (CHR ''.'')" "\<not> should_escape EncHost (CHR ''-'')"
    "\<not> should_escape EncHost (CHR '':'')"
    by (simp_all add: should_escape_def is_letter_def is_digit_def)
  moreover have "is_letter c \<or> is_digit c \<Longrightarrow> \<not> should_escape EncHost c" by (simp add: should_escape_def)
  ultimately have esc: "\<not> should_escape EncHost c" using c unfolding plain_char_def by blast
  have "\<not> is_ctl (CHR ''.'')" "\<not> is_ctl (CHR ''-'')" "\<not> is_ctl (CHR '':'')"
    by (simp_all add: is_ctl_def)
  moreover have "is_letter c \<or> is_digit c \<Longrightarrow> \<not> is_ctl c"
    by (auto simp: is_ctl_def is_letter_def is_digit_def)
  ultimately have "\<not> is_ctl c" using c unfolding plain_char_def by blast
  with esc show ?thesis using percent_escaped by metis
qed

lemma unescape_host_safe: "(\<And>c. c \<in> set s \<Longrightarrow> plain_char c \<or> c = CHR '':'') \<Longrightarrow> unescape EncHost s = Some s"
proof (induction s)
  case (Cons c s)
  then have "c \<noteq> CHR ''%''" "\<not> should_escape EncHost c" using plain_char_safe [of c] by auto
  with Cons show ?case by (simp only: unescape.simps if_False simp_thms url_mode.distinct) simp
qed simp

lemma parse_host_port:
  assumes "host_port n"
  shows "parse_authority n = Some (None, n)" and "remove_empty_port n = n"
proof -
  obtain h p where n: "split_last (CHR '':'') n = (h, p, True)" "list_all is_digit p" "p \<noteq> []"
    using assms by (auto simp: host_port_def split: prod.splits)
  have "CHR ''@'' \<notin> set n" "CHR ''['' \<notin> set n" using host_port_no_special [OF assms] by simp_all
  then have "\<not> has_prefix ''['' n" "split_last (CHR ''@'') n = (n, [], False)"
    by (auto simp: has_prefix_iff split_last_absent)
  moreover have "unescape EncHost n = Some n"
    using host_port_chars [OF assms] by (intro unescape_host_safe)
  ultimately show "parse_authority n = Some (None, n)" by (simp add: parse_authority_def parse_host_def n)
  show "remove_empty_port n = n" by (simp add: remove_empty_port_def n)
qed

lemma url_parse_host_port:
  assumes "host_port n"
  shows "url_parse (''http://'' @ n) = Inr (key_url ''http'' n [] [])"
proof -
  have free: "CHR ''#'' \<notin> set n" "CHR ''?'' \<notin> set n" "CHR ''/'' \<notin> set n"
    using host_port_no_special [OF assms] by simp_all
  have ctl: "\<not> list_ex is_ctl n"
    using host_port_chars [OF assms] plain_char_safe by (fastforce simp: list_ex_iff)
  have "strings_cut (CHR ''#'') (''http://'' @ n) = (''http://'' @ n, [], False)"
    using free by (intro strings_cut_no_sep) simp
  moreover have "\<not> list_ex is_ctl ''http://''" by code_simp
  ultimately show ?thesis
    using free ctl parse_host_port [OF assms]
    by (simp add: url_parse_def set_path_def key_url_def empty_url_def Let_def)
qed

lemma new_request_host_port:
  assumes "host_port n" and "valid_method m"
  shows "http_new_request m (''http://'' @ n) b =
    Inr \<lparr>rq_method = m, rq_host = n, rq_tls = False, rq_url = key_url ''http'' n [] [], rq_header = [], rq_body = b\<rparr>"
proof -
  have "u_host (key_url ''http'' n [] []) = n" by (simp add: key_url_def)
  moreover have "(key_url ''http'' n [] [])\<lparr>u_host := n\<rparr> = key_url ''http'' n [] []"
    by (simp add: key_url_def)
  moreover have "m \<noteq> []" using assms(2) by (simp add: valid_method_def)
  ultimately show ?thesis
    using assms(2) by (simp add: http_new_request_def url_parse_host_port [OF assms(1), simplified]
        parse_host_port(2) [OF assms(1)])
qed

end
