(* ===== verification/Kv.thy ===== *)
theory Kv
  imports Cache GoUrl
begin

text \<open>
  \<^verbatim>\<open>internal/cache/kv\<close>: the client side of the cluster protocol. A cache entry of another node is read
  with \<^verbatim>\<open>GET\<close> and written with \<^verbatim>\<open>PUT\<close>; key and metadata travel base64-encoded in two headers and the cluster
  secret as the password of basic authentication. The HTTP client is a parameter: in an
  environment it takes a request and answers with a response or an error, and tells how many bytes
  of the request body it has read.
\<close>

type_synonym ('e, 'n) http_client = "'e \<Rightarrow> request \<Rightarrow> 'n \<Rightarrow> response result \<times> nat \<times> 'n"

section \<open>Headers\<close>

definition HeaderKey :: string where
  "HeaderKey = ''X-Chacha-Key''"

definition HeaderMetadata :: string where
  "HeaderMetadata = ''X-Chacha-Metadata''"

definition kv_decode :: "header \<Rightarrow> string \<Rightarrow> string result" where
  "kv_decode h key =
     (let headerValueRaw = header_get h key in
      if headerValueRaw = [] then Inl (Errorf ''no header is found or it is empty'')
      else (case b64_decode headerValueRaw of
              None \<Rightarrow> Inl (Wrap ''unable to decode header contents'' (Errorf ''illegal base64 data''))
            | Some bytes \<Rightarrow> Inr bytes))"

definition GetKey :: "header \<Rightarrow> string result" where
  "GetKey h = kv_decode h HeaderKey"

definition SetKey :: "header \<Rightarrow> string \<Rightarrow> header" where
  "SetKey h key = header_set h HeaderKey (b64_encode key)"

definition GetMetadata :: "header \<Rightarrow> metadata result" where
  "GetMetadata h =
     (case kv_decode h HeaderMetadata of
        Inl e \<Rightarrow> Inl e
      | Inr bytes \<Rightarrow>
          (case unmarshal_metadata bytes of
             Inl e \<Rightarrow> Inl (Wrap ''unable to unmarshal metadata'' e)
           | Inr m \<Rightarrow> Inr m))"

definition SetMetadata :: "header \<Rightarrow> metadata \<Rightarrow> header" where
  "SetMetadata h m = header_set h HeaderMetadata (b64_encode (marshal_metadata m))"

section \<open>Basic authentication\<close>

text \<open>\<^verbatim>\<open>Request.SetBasicAuth\<close> and \<^verbatim>\<open>Request.BasicAuth\<close> of \<^verbatim>\<open>net/http\<close>.\<close>

definition set_basic_auth :: "header \<Rightarrow> string \<Rightarrow> string \<Rightarrow> header" where
  "set_basic_auth h user pass =
     header_set h ''Authorization'' (''Basic '' @ b64_encode (user @ CHR '':'' # pass))"

definition basic_auth :: "header \<Rightarrow> (string \<times> string) option" where
  "basic_auth h =
     (let auth = header_get h ''Authorization'' in
      if length auth < 6 \<or> map lower_char (take 6 auth) \<noteq> ''basic '' then None
      else (case b64_decode (drop 6 auth) of
              None \<Rightarrow> None
            | Some c \<Rightarrow>
                (case strings_cut (CHR '':'') c of
                   (user, pass, found) \<Rightarrow> if found then Some (user, pass) else None)))"

section \<open>The client\<close>

record ('e, 'n) kv =
  kv_node :: string
  kv_secret :: string
  kv_client :: "('e, 'n) http_client option"

definition WithHTTPClient :: "('e, 'n) http_client \<Rightarrow> ('e, 'n) kv \<Rightarrow> ('e, 'n) kv" where
  "WithHTTPClient c k = k\<lparr>kv_client := Some c\<rparr>"

definition kv_new :: "('e, 'n) http_client \<Rightarrow> string \<Rightarrow> string \<Rightarrow> (('e, 'n) kv \<Rightarrow> ('e, 'n) kv) list \<Rightarrow> ('e, 'n) kv" where
  "kv_new default_client node secret opts =
     (let k = fold (\<lambda>opt. opt) opts \<lparr>kv_node = node, kv_secret = secret, kv_client = None\<rparr>
      in (case kv_client k of None \<Rightarrow> k\<lparr>kv_client := Some default_client\<rparr> | Some _ \<Rightarrow> k))"

definition kv_url :: "('e, 'n) kv \<Rightarrow> string" where
  "kv_url k = ''http://'' @ kv_node k"

definition kv_authorize :: "('e, 'n) kv \<Rightarrow> header \<Rightarrow> header" where
  "kv_authorize k h = (if kv_secret k \<noteq> [] then set_basic_auth h [] (kv_secret k) else h)"

text \<open>\<^verbatim>\<open>httpClient.Do\<close>; \<^verbatim>\<open>New\<close> makes sure that there is a client.\<close>

definition kv_do :: "('e, 'n) kv \<Rightarrow> ('e, 'n) http_client" where
  "kv_do k e rq n =
     (case kv_client k of None \<Rightarrow> (Inl (Errorf ''no HTTP client''), 0, n) | Some c \<Rightarrow> c e rq n)"

definition kv_get :: "('e, 'n) kv \<Rightarrow> ('e, 'n) cache_get" where
  "kv_get k e n key =
     (case http_new_request ''GET'' (kv_url k) (bytes_reader []) of
        Inl err \<Rightarrow> (Inl err, n)
      | Inr rq \<Rightarrow>
          (case kv_do k e (rq\<lparr>rq_header := SetKey (kv_authorize k (rq_header rq)) key\<rparr>) n of
             (Inl err, _, n') \<Rightarrow> (Inl err, n')
           | (Inr rs, _, n') \<Rightarrow>
               (if rs_status rs = 200 then
                  (case GetMetadata (rs_header rs) of
                     Inl err \<Rightarrow> (Inl err, n')
                   | Inr m \<Rightarrow> (Inr (rs_body rs, m), n'))
                else if rs_status rs = 404 then (Inl ErrNotFound, n')
                else (Inl (Errorf ''unexpected HTTP status''), n'))))"

definition kv_put :: "('e, 'n) kv \<Rightarrow> ('e, 'n) cache_put" where
  "kv_put k e n key m b =
     (case http_new_request ''PUT'' (kv_url k) b of
        Inl err \<Rightarrow> ((Some err, 0), n)
      | Inr rq \<Rightarrow>
          (case kv_do k e (rq\<lparr>rq_header := SetMetadata (SetKey (kv_authorize k (rq_header rq)) key) m\<rparr>) n of
             (Inl err, c, n') \<Rightarrow> ((Some err, c), n')
           | (Inr rs, c, n') \<Rightarrow>
               (if rs_status rs \<noteq> 200 then ((Some (Errorf ''unexpected HTTP status''), c), n')
                else ((None, c), n'))))"

section \<open>The headers carry what was put into them\<close>

lemma canonical_kv [simp]:
  "canonical_key HeaderKey = HeaderKey" "canonical_key HeaderMetadata = HeaderMetadata"
  "canonical_key ''Authorization'' = ''Authorization''"
  by code_simp+

lemma kv_names_distinct [simp]:
  "HeaderKey \<noteq> HeaderMetadata" "HeaderMetadata \<noteq> HeaderKey" "HeaderKey \<noteq> ''Authorization''"
  "HeaderMetadata \<noteq> ''Authorization''" "''Authorization'' \<noteq> HeaderKey" "''Authorization'' \<noteq> HeaderMetadata"
  by (simp_all add: HeaderKey_def HeaderMetadata_def)

lemma header_get_kv [simp]:
  "header_get (SetKey h k) HeaderKey = b64_encode k"
  "header_get (SetKey h k) HeaderMetadata = header_get h HeaderMetadata"
  "header_get (SetKey h k) ''Authorization'' = header_get h ''Authorization''"
  "header_get (SetMetadata h m) HeaderKey = header_get h HeaderKey"
  "header_get (SetMetadata h m) HeaderMetadata = b64_encode (marshal_metadata m)"
  "header_get (SetMetadata h m) ''Authorization'' = header_get h ''Authorization''"
  by (simp_all add: SetKey_def SetMetadata_def header_get_set)

lemma GetKey_SetKey:
  "GetKey (SetKey h k) = (if k = [] then Inl (Errorf ''no header is found or it is empty'') else Inr k)"
  by (simp add: GetKey_def kv_decode_def)

lemma GetKey_SetMetadata [simp]: "GetKey (SetMetadata h m) = GetKey h"
  by (simp add: GetKey_def kv_decode_def)

lemma marshal_metadata_not_Nil [simp]: "marshal_metadata m \<noteq> []"
  by (simp add: marshal_metadata_def)

lemma GetMetadata_SetMetadata [simp]: "GetMetadata (SetMetadata h m) = Inr (coerce_metadata m)"
  by (simp add: GetMetadata_def kv_decode_def unmarshal_marshal_metadata)

lemma basic_auth_set: "CHR '':'' \<notin> set user \<Longrightarrow> basic_auth (set_basic_auth h user pass) = Some (user, pass)"
proof -
  have "map lower_char ''Basic '' = ''basic ''" by code_simp
  then show "CHR '':'' \<notin> set user \<Longrightarrow> ?thesis"
    by (simp add: basic_auth_def set_basic_auth_def header_get_set strings_cut_append numeral_eq_Suc)
qed

lemma basic_auth_kv [simp]:
  "basic_auth (SetKey h k) = basic_auth h" "basic_auth (SetMetadata h m) = basic_auth h"
  by (simp_all add: basic_auth_def)

lemma basic_auth_authorize:
  "basic_auth (kv_authorize k []) = (if kv_secret k = [] then None else Some ([], kv_secret k))"
  by (simp add: kv_authorize_def basic_auth_set) (simp add: basic_auth_def)

lemma kv_new_client: "kv_new dflt node secret [WithHTTPClient c] = \<lparr>kv_node = node, kv_secret = secret, kv_client = Some c\<rparr>"
  by (simp add: kv_new_def WithHTTPClient_def)

text \<open>
  The headers of the cluster protocol round-trip. A key comes back byte for byte from
  \<^verbatim>\<open>GetKey\<close> after \<^verbatim>\<open>SetKey\<close>, whatever bytes it has (only the empty key is refused, as a missing header); metadata
  comes back with its ETag made valid UTF-8; the password of the client's authorization comes back as
  the secret; and setting one of them does not disturb the others.
\<close>

theorem kv_headers_roundtrip:
  "let h' = SetMetadata (SetKey (kv_authorize c []) key) m in
   GetKey h' = (if key = [] then Inl (Errorf ''no header is found or it is empty'') else Inr key) \<and>
   GetMetadata h' = Inr (coerce_metadata m) \<and>
   basic_auth h' = (if kv_secret c = [] then None else Some ([], kv_secret c))"
  by (simp add: Let_def GetKey_SetKey basic_auth_authorize)

end
