(* ===== verification/Responder.thy ===== *)
theory Responder
  imports GoHttp
begin

text \<open>
  \<^verbatim>\<open>internal/server/responder\<close> and \<^verbatim>\<open>internal/server/capturingresponsewriter\<close>: what a handler returns, and
  the response writer that remembers the status code for the log and the metrics.
\<close>

section \<open>Responders\<close>

text \<open>\<^verbatim>\<open>Code\<close> sends a status, \<^verbatim>\<open>Empty\<close> nothing; of the message only the constant text is kept.\<close>

datatype responder = Code int string | Empty string

primrec responder_message :: "responder \<Rightarrow> string" where
  "responder_message (Code c m) = m"
| "responder_message (Empty m) = m"

section \<open>The capturing writer\<close>

record capturing_writer =
  cw_status :: int
  cw_inner :: response_writer

definition cw_wrap :: "response_writer \<Rightarrow> capturing_writer" where
  "cw_wrap w = \<lparr>cw_status = 0, cw_inner = w\<rparr>"

definition cw_write_header :: "int \<Rightarrow> capturing_writer \<Rightarrow> capturing_writer" where
  "cw_write_header code w = w\<lparr>cw_status := code, cw_inner := rw_write_header code (cw_inner w)\<rparr>"

definition cw_write :: "string \<Rightarrow> capturing_writer \<Rightarrow> go_error option \<times> capturing_writer" where
  "cw_write bs w = (case rw_write bs (cw_inner w) of (e, i) \<Rightarrow> (e, w\<lparr>cw_inner := i\<rparr>))"

text \<open>\<^verbatim>\<open>writer.Header()\<close> is the header map of the wrapped writer.\<close>

definition cw_header :: "capturing_writer \<Rightarrow> header" where
  "cw_header w = rw_header (cw_inner w)"

definition cw_set_header :: "header \<Rightarrow> capturing_writer \<Rightarrow> capturing_writer" where
  "cw_set_header h w = w\<lparr>cw_inner := (cw_inner w)\<lparr>rw_header := h\<rparr>\<rparr>"

text \<open>\<^verbatim>\<open>io.Copy(writer, reader)\<close>, as a single write of what the reader yields.\<close>

definition cw_copy :: "reader \<Rightarrow> capturing_writer \<Rightarrow> go_error option \<times> capturing_writer" where
  "cw_copy r w =
     (if rd_data r = [] then (rd_err r, w)
      else (case cw_write (rd_data r) w of
              (Some e, w') \<Rightarrow> (Some e, w')
            | (None, w') \<Rightarrow> (rd_err r, w')))"

definition respond :: "responder \<Rightarrow> capturing_writer \<Rightarrow> capturing_writer" where
  "respond r w = (case r of Code c m \<Rightarrow> cw_write_header c w | Empty m \<Rightarrow> w)"

section \<open>Laws\<close>

lemma cw_copy_status: "cw_copy r w = (e, w') \<Longrightarrow> cw_status w' = cw_status w"
  by (auto simp: cw_copy_def cw_write_def split: if_splits prod.splits option.splits)

lemma cw_header_simps [simp]:
  "cw_header (cw_set_header h w) = h" "cw_header (cw_write_header c w) = cw_header w"
  "cw_status (cw_set_header h w) = cw_status w" "cw_status (cw_write_header c w) = c"
  "rw_sent (cw_inner (cw_set_header h w)) = rw_sent (cw_inner w)"
  "rw_budget (cw_inner (cw_set_header h w)) = rw_budget (cw_inner w)"
  "rw_body (cw_inner (cw_set_header h w)) = rw_body (cw_inner w)"
  "rw_body (cw_inner (cw_write_header c w)) = rw_body (cw_inner w)"
  "rw_budget (cw_inner (cw_write_header c w)) = rw_budget (cw_inner w)"
  "rw_head (cw_inner (cw_set_header h w)) = rw_head (cw_inner w)"
  "rw_head (cw_inner (cw_write_header c w)) = rw_head (cw_inner w)"
  "rw_written (cw_inner (cw_set_header h w)) = rw_written (cw_inner w)"
  "rw_written (cw_inner (cw_write_header c w)) = rw_written (cw_inner w)"
  by (simp_all add: cw_header_def cw_set_header_def cw_write_header_def)

lemma cw_write_header_sent:
  "rw_sent (cw_inner (cw_write_header c w)) =
     (case rw_sent (cw_inner w) of None \<Rightarrow> Some (c, cw_header w) | Some x \<Rightarrow> Some x)"
  by (simp add: cw_write_header_def rw_write_header_def cw_header_def split: option.splits)

text \<open>What a client receives of a copy that fits.\<close>

lemma cw_copy_room:
  assumes "rw_room (length (rd_data r)) (cw_inner w)"
  shows "cw_copy r w =
    (rd_err r, if rd_data r = [] then w
       else w\<lparr>cw_inner := (rw_write_header 200 (cw_inner w))
         \<lparr>rw_body := rw_body (cw_inner w) @ (if rw_head (cw_inner w) then [] else rd_data r),
          rw_written := rw_written (cw_inner w) + length (rd_data r),
          rw_budget := (if rw_head (cw_inner w) then rw_budget (cw_inner w)
                        else map_option (\<lambda>b. b - length (rd_data r)) (rw_budget (cw_inner w)))\<rparr>\<rparr>)"
  using rw_write_room [OF assms] by (simp add: cw_copy_def cw_write_def)

lemma rw_write_prefix: "\<exists>n. rw_body (snd (rw_write bs w)) = rw_body w @ take n bs"
proof (cases "rw_head w")
  case True
  then show ?thesis by (intro exI [of _ 0]) (simp add: rw_write_def split: prod.splits)
next
  case False
  then show ?thesis
    by (intro exI [of _ "fst (rw_accept (length bs) w)"]) (simp add: rw_write_def split: prod.splits)
qed

lemma rw_write_sent_eq: "rw_sent (snd (rw_write bs w)) = rw_sent (rw_write_header 200 w)"
  by (simp add: rw_write_def split: prod.splits)

lemma cw_copy_inner:
  "cw_inner (snd (cw_copy r w)) =
     (if rd_data r = [] then cw_inner w else snd (rw_write (rd_data r) (cw_inner w)))"
  by (cases "rw_write (rd_data r) (cw_inner w)") (simp add: cw_copy_def cw_write_def split: option.splits)

lemma cw_copy_prefix:
  "\<exists>n. rw_body (cw_inner (snd (cw_copy r w))) = rw_body (cw_inner w) @ take n (rd_data r)"
  using rw_write_prefix by (simp add: cw_copy_inner)

lemma cw_copy_sent:
  "rw_sent (cw_inner (snd (cw_copy r w))) =
    (case rw_sent (cw_inner w) of
       Some x \<Rightarrow> Some x
     | None \<Rightarrow> if rd_data r = [] then None else Some (200, cw_header w))"
  by (simp add: cw_copy_inner rw_write_sent_eq rw_write_header_def cw_header_def split: option.splits)

end
