(* ===== verification/Rule.thy ===== *)
theory Rule
  imports Prelude
begin

text \<open>
  \<^verbatim>\<open>internal/server/rule\<close>: caching rules. A rule holds a compiled regular expression; the model keeps
  its \<^verbatim>\<open>MatchString\<close> function, and \<^verbatim>\<open>regexp.Compile\<close> is a parameter of \<^verbatim>\<open>New\<close>.
\<close>

record rule =
  re :: "string \<Rightarrow> bool"
  ignoreAuthorizationHeader :: bool
  ignoreParameters :: "string list"
  directConnect :: bool
  directConnectHeader :: bool

definition rule_new ::
    "(string \<Rightarrow> (string \<Rightarrow> bool) result) \<Rightarrow> string \<Rightarrow> bool \<Rightarrow> string list \<Rightarrow> bool \<Rightarrow> bool \<Rightarrow> rule result" where
  "rule_new compile pattern ignoreAuth ignoreParams direct directHeader =
     (case compile pattern of
        Inl e \<Rightarrow> Inl (Wrap ''failed to parse regular expression for path pattern'' e)
      | Inr m \<Rightarrow>
          Inr \<lparr>re = m, ignoreAuthorizationHeader = ignoreAuth, ignoreParameters = ignoreParams,
               directConnect = direct, directConnectHeader = directHeader\<rparr>)"

primrec rules_get :: "rule list \<Rightarrow> string \<Rightarrow> rule option" where
  "rules_get [] url = None"
| "rules_get (r # rs) url = (if re r url then Some r else rules_get rs url)"

text \<open>
  \<^verbatim>\<open>Rules.Get\<close> returns the first rule whose expression matches the URL, in the order of the
  configuration, and nothing exactly when no rule matches.
\<close>

theorem rules_get_first:
  "case rules_get rs url of
     None \<Rightarrow> list_all (\<lambda>r. \<not> re r url) rs
   | Some r \<Rightarrow> (\<exists>before after. rs = before @ r # after \<and> re r url \<and> list_all (\<lambda>q. \<not> re q url) before)"
proof (induction rs)
  case (Cons q rs)
  show ?case
  proof (cases "re q url")
    case True
    then show ?thesis by (simp, intro exI [of _ "[]"]) simp
  next
    case False
    show ?thesis
    proof (cases "rules_get rs url")
      case None
      with Cons False show ?thesis by simp
    next
      case (Some r)
      with Cons obtain before after where
        "rs = before @ r # after" "re r url" "list_all (\<lambda>q. \<not> re q url) before" by auto
      with False Some show ?thesis by (simp, intro exI [of _ "q # before"]) simp
    qed
  qed
qed simp

end
