(* ===== verification/Cluster.thy ===== *)
theory Cluster
  imports Prelude "HOL-Library.Multiset"
begin

text \<open>
  \<^verbatim>\<open>internal/server/cluster\<close>: the nodes of a cluster and the choice of the node that stores a key. The
  rendezvous-hashing package is a parameter: \<open>hrw key nodes\<close> is the list \<^verbatim>\<open>hrw.Sort\<close> leaves. The set of
  nodes is a list without duplicates, in the order the set happens to be iterated in.
\<close>

section \<open>The cluster\<close>

record cluster =
  cl_secret :: string
  cl_addr :: string
  cl_nodes :: "string list"

definition cluster_new :: "string \<Rightarrow> string \<Rightarrow> string list \<Rightarrow> cluster" where
  "cluster_new secret addr nodes = \<lparr>cl_secret = secret, cl_addr = addr, cl_nodes = remdups nodes\<rparr>"

type_synonym hrw_sort = "string \<Rightarrow> string list \<Rightarrow> string list"

text \<open>Indexing the first element of an empty slice panics: \<^term>\<open>None\<close>.\<close>

definition target_node :: "hrw_sort \<Rightarrow> cluster \<Rightarrow> string \<Rightarrow> string option" where
  "target_node hrw c key = (case hrw key (cl_nodes c) of [] \<Rightarrow> None | n # _ \<Rightarrow> Some n)"

definition contains_node :: "cluster \<Rightarrow> string \<Rightarrow> bool" where
  "contains_node c node \<longleftrightarrow> node \<in> set (cl_nodes c)"

section \<open>What rendezvous hashing promises\<close>

text \<open>
  \<^verbatim>\<open>hrw.Sort\<close> sorts the nodes by a weight of node and key. A weight function without ties for the
  key, on the nodes at hand, makes the order independent of the order of the argument.
\<close>

definition hrw_sorts :: "(string \<Rightarrow> string \<Rightarrow> nat) \<Rightarrow> hrw_sort \<Rightarrow> bool" where
  "hrw_sorts weight hrw \<longleftrightarrow>
     (\<forall>key xs. mset (hrw key xs) = mset xs \<and> sorted (map (weight key) (hrw key xs)))"

definition no_ties :: "(string \<Rightarrow> string \<Rightarrow> nat) \<Rightarrow> string \<Rightarrow> string set \<Rightarrow> bool" where
  "no_ties weight key ns \<longleftrightarrow> inj_on (weight key) ns"

lemma target_node_least:
  assumes "hrw_sorts weight hrw" and "target_node hrw c key = Some n"
  shows "n \<in> set (cl_nodes c) \<and> (\<forall>m \<in> set (cl_nodes c). weight key n \<le> weight key m)"
proof -
  from assms(2) obtain ns where ns: "hrw key (cl_nodes c) = n # ns"
    by (auto simp: target_node_def split: list.splits)
  have "mset (n # ns) = mset (cl_nodes c)" "sorted (map (weight key) (n # ns))"
    using assms(1) ns by (metis hrw_sorts_def)+
  from mset_eq_setD [OF this(1)] this(2) show ?thesis by auto
qed

lemma target_node_exists:
  assumes "hrw_sorts weight hrw" and "cl_nodes c \<noteq> []"
  shows "\<exists>n. target_node hrw c key = Some n"
proof -
  have "mset (hrw key (cl_nodes c)) = mset (cl_nodes c)" using assms(1) by (simp add: hrw_sorts_def)
  with assms(2) have "hrw key (cl_nodes c) \<noteq> []" by auto
  then show ?thesis by (auto simp: target_node_def split: list.splits)
qed

section \<open>Properties\<close>

text \<open>
  All nodes of a cluster agree on where a key lives: two configurations with the same set of
  nodes, listed in any order and with any duplicates, choose the same target for a key, and the
  target is one of the nodes.
\<close>

theorem target_node_agreement:
  assumes "hrw_sorts weight hrw" and "no_ties weight key (set nodes)" and "set nodes = set nodes'"
    and "nodes \<noteq> []"
  shows "\<exists>n \<in> set nodes. target_node hrw (cluster_new secret addr nodes) key = Some n \<and>
    target_node hrw (cluster_new secret' addr' nodes') key = Some n"
proof -
  let ?c = "cluster_new secret addr nodes" and ?c' = "cluster_new secret' addr' nodes'"
  have nodes: "set (cl_nodes ?c) = set nodes" "set (cl_nodes ?c') = set nodes"
    using assms(3) by (simp_all add: cluster_new_def)
  then have "cl_nodes ?c \<noteq> []" "cl_nodes ?c' \<noteq> []" using assms(4) by auto
  with target_node_exists [OF assms(1)] obtain n n' where
    n: "target_node hrw ?c key = Some n" and n': "target_node hrw ?c' key = Some n'" by blast
  have "weight key n = weight key n'" "n \<in> set nodes" "n' \<in> set nodes"
    using target_node_least [OF assms(1) n] target_node_least [OF assms(1) n'] nodes
    by (auto intro: antisym)
  then have "n = n'" using assms(2) by (simp add: no_ties_def inj_on_def)
  with n n' \<open>n \<in> set nodes\<close> show ?thesis by blast
qed

text \<open>
  Removing a node from the cluster moves only the keys it held: a key whose target is another
  node keeps its target.
\<close>

theorem target_node_stable:
  assumes "hrw_sorts weight hrw" and "no_ties weight key (set nodes)"
    and "target_node hrw (cluster_new secret addr nodes) key = Some n" and "n \<noteq> gone"
  shows "target_node hrw (cluster_new secret addr (filter (\<lambda>m. m \<noteq> gone) nodes)) key = Some n"
proof -
  let ?c = "cluster_new secret addr nodes" and ?c' = "cluster_new secret addr (filter (\<lambda>m. m \<noteq> gone) nodes)"
  have n: "n \<in> set nodes" "\<forall>m \<in> set nodes. weight key n \<le> weight key m"
    using target_node_least [OF assms(1,3)] by (simp_all add: cluster_new_def)
  with assms(4) have "n \<in> set (cl_nodes ?c')" by (simp add: cluster_new_def)
  then have "cl_nodes ?c' \<noteq> []" by auto
  from target_node_exists [OF assms(1) this] obtain n' where n': "target_node hrw ?c' key = Some n'" by blast
  from target_node_least [OF assms(1) n'] have "n' \<in> set nodes" "weight key n' \<le> weight key n"
    using n(1) assms(4) by (auto simp: cluster_new_def)
  with n assms(2) have "n' = n" by (metis antisym inj_onD no_ties_def)
  with n' show ?thesis by simp
qed

text \<open>A concrete weight for the witnesses: the distance of the lengths.\<close>

definition sample_weight :: "string \<Rightarrow> string \<Rightarrow> nat" where
  "sample_weight key n = length n"

definition sample_hrw :: hrw_sort where
  "sample_hrw key ns = sort_key (sample_weight key) ns"

lemma sample_hrw_sorts: "hrw_sorts sample_weight sample_hrw"
  by (simp add: hrw_sorts_def sample_hrw_def)

theorem target_node_agreement_witness:
  "\<exists>n \<in> {''a:1'', ''bb:1''}.
     target_node sample_hrw (cluster_new ''s'' ''a:1'' [''bb:1'', ''a:1'']) ''k'' = Some n \<and>
     target_node sample_hrw (cluster_new ''s'' ''bb:1'' [''a:1'', ''bb:1'', ''a:1'']) ''k'' = Some n"
  using target_node_agreement [OF sample_hrw_sorts, of "''k''" "[''bb:1'', ''a:1'']" "[''a:1'', ''bb:1'', ''a:1'']"
      "''s''" "''a:1''" "''s''" "''bb:1''"]
  by (auto simp: no_ties_def sample_weight_def)

theorem target_node_stable_witness:
  "target_node sample_hrw (cluster_new ''s'' ''a:1'' [''a:1'']) ''k'' = Some ''a:1''"
proof -
  have "target_node sample_hrw (cluster_new ''s'' ''a:1'' [''bb:1'', ''a:1'']) ''k'' = Some ''a:1''"
    by (simp add: target_node_def cluster_new_def sample_hrw_def sample_weight_def)
  from target_node_stable [OF sample_hrw_sorts _ this, of "''bb:1''"] show ?thesis
    by (simp add: no_ties_def sample_weight_def)
qed

end
