(* ===== verification/Policy.thy ===== *)
theory Policy
  imports GoUrl Rule
begin

text \<open>
  The caching policy of \<^verbatim>\<open>internal/server/handle_proxy_default.go\<close>: the cache key of a request, when a
  response may be cached, and the removal of hop-by-hop headers.
\<close>

section \<open>Cache keys\<close>

definition ignored_parameters :: "rule option \<Rightarrow> string list" where
  "ignored_parameters ru = (case ru of None \<Rightarrow> [] | Some r \<Rightarrow> ignoreParameters r)"

definition cache_key :: "request \<Rightarrow> rule option \<Rightarrow> string" where
  "cache_key rq ru =
     (let scheme = (if rq_tls rq then ''https'' else ''http'');
          query = parse_query (u_rawquery (rq_url rq));
          query' = foldl values_del query (ignored_parameters ru)
      in url_string (key_url scheme (rq_host rq) (u_path (rq_url rq)) (values_encode query')))"

section \<open>Cache-Control\<close>

definition directive_key :: "string \<Rightarrow> string" where
  "directive_key headerDirective = trim_space (hd (strings_split (CHR ''='') headerDirective))"

definition headers_contain_directive :: "string list \<Rightarrow> string \<Rightarrow> bool" where
  "headers_contain_directive headers directive =
     list_ex (\<lambda>header. list_ex (\<lambda>headerDirective. equal_fold (directive_key headerDirective) directive)
                          (strings_split (CHR '','') header)) headers"

definition is_cacheable_cache_control :: "string list \<Rightarrow> bool" where
  "is_cacheable_cache_control vs =
     (if headers_contain_directive vs ''no-store'' then False
      else if headers_contain_directive vs ''private'' then False
      else True)"

definition cache_control_explicitly_allows :: "string list \<Rightarrow> bool" where
  "cache_control_explicitly_allows vs =
     (if headers_contain_directive vs ''must-revalidate'' then True
      else if headers_contain_directive vs ''public'' then True
      else if headers_contain_directive vs ''s-maxage'' then True
      else False)"

definition should_cache :: "request \<Rightarrow> response \<Rightarrow> rule option \<Rightarrow> bool" where
  "should_cache rq rs ru =
     (case ru of
        None \<Rightarrow> False
      | Some r \<Rightarrow>
          if rq_method rq \<noteq> ''GET'' then False
          else if \<not> is_cacheable_cache_control (header_values (rq_header rq) ''Cache-Control'') then False
          else if strings_contains (header_get (rq_header rq) ''Pragma'') ''no-cache'' then False
          else if \<not> is_cacheable_cache_control (header_values (rs_header rs) ''Cache-Control'') then False
          else if header_get (rq_header rq) ''Authorization'' \<noteq> [] \<and>
                  \<not> cache_control_explicitly_allows (header_values (rs_header rs) ''Cache-Control'') \<and>
                  \<not> ignoreAuthorizationHeader r then False
          else if length (header_values (rs_header rs) ''Vary'') \<noteq> 0 then False
          else if rs_status rs \<noteq> 200 then False
          else True)"

section \<open>Hop-by-hop headers\<close>

definition hop_by_hop :: "string list" where
  "hop_by_hop = [''Connection'', ''Proxy-Connection'', ''Keep-Alive'', ''TE'', ''Transfer-Encoding'', ''Upgrade'',
     ''Proxy-Authenticate'', ''Proxy-Authorization'']"

definition remove_end_to_end_headers :: "header \<Rightarrow> header" where
  "remove_end_to_end_headers h = foldl header_del h hop_by_hop"

section \<open>When keys are equal\<close>

lemma wf_values_foldl_del: "wf_values m \<Longrightarrow> wf_values (foldl values_del m ks)"
  by (induction ks arbitrary: m) simp_all

lemma map_of_foldl_del: "map_of (foldl values_del m ks) k = (if k \<in> set ks then None else map_of m k)"
  by (induction ks arbitrary: m) (auto simp: values_del_def)

text \<open>The query parameters that count: the parsed ones the rule does not ignore.\<close>

definition kept_query :: "request \<Rightarrow> rule option \<Rightarrow> string \<Rightarrow> string list option" where
  "kept_query rq ru k =
     (if k \<in> set (ignored_parameters ru) then None else map_of (parse_query (u_rawquery (rq_url rq))) k)"

lemma cache_key_eq:
  assumes "rq_host rq \<noteq> []" and "rq_host rq' \<noteq> []"
  shows "cache_key rq ru = cache_key rq' ru' \<longleftrightarrow>
    rq_tls rq = rq_tls rq' \<and> rq_host rq = rq_host rq' \<and>
    key_path (u_path (rq_url rq)) = key_path (u_path (rq_url rq')) \<and> kept_query rq ru = kept_query rq' ru'"
proof -
  let ?q = "\<lambda>rq ru. foldl values_del (parse_query (u_rawquery (rq_url rq))) (ignored_parameters ru)"
  have "values_encode (?q rq ru) = values_encode (?q rq' ru') \<longleftrightarrow> kept_query rq ru = kept_query rq' ru'"
    by (simp add: values_encode_eq_iff wf_values_foldl_del fun_eq_iff map_of_foldl_del kept_query_def)
  moreover have "(if rq_tls rq then ''https'' else ''http'') = (if rq_tls rq' then ''https'' else ''http'') \<longleftrightarrow>
      rq_tls rq = rq_tls rq'" by auto
  ultimately show ?thesis
    using assms by (simp add: cache_key_def Let_def key_url_string_eq_iff)
qed

text \<open>
  C20. The cache key is exact: two proxied requests have the same key if and only if they agree on
  TLS, on the host, on the decoded path (up to a missing leading slash) and on every parsed query
  parameter their rule does not ignore, with all its values in order. So requests that differ in
  anything that is part of the key never share an entry, and ignored parameters or the
  order of the parameters make no difference.
\<close>

theorem cache_key_exact:
  assumes "rq_host rq \<noteq> []" and "rq_host rq' \<noteq> []"
  shows "cache_key rq ru = cache_key rq' ru' \<longleftrightarrow>
    rq_tls rq = rq_tls rq' \<and> rq_host rq = rq_host rq' \<and>
    key_path (u_path (rq_url rq)) = key_path (u_path (rq_url rq')) \<and> kept_query rq ru = kept_query rq' ru'"
  by (rule cache_key_eq [OF assms])

definition sample_request :: "string \<Rightarrow> request" where
  "sample_request q =
     \<lparr>rq_method = ''GET'', rq_host = ''example.com'', rq_tls = True,
      rq_url = empty_url\<lparr>u_path := ''/a'', u_rawquery := q\<rparr>, rq_header = [], rq_body = bytes_reader []\<rparr>"

definition sample_rule :: rule where
  "sample_rule = \<lparr>re = (\<lambda>_. True), ignoreAuthorizationHeader = False, ignoreParameters = [''sig''],
     directConnect = False, directConnectHeader = False\<rparr>"

lemma sample_queries:
  "parse_query ''v=1&sig=x&w=%20'' = [(''v'', [''1'']), (''sig'', [''x'']), (''w'', ['' ''])]"
  "parse_query ''w=+&v=1'' = [(''w'', ['' '']), (''v'', [''1''])]"
  by code_simp+

theorem cache_key_exact_witness:
  "cache_key (sample_request ''v=1&sig=x&w=%20'') (Some sample_rule) = cache_key (sample_request ''w=+&v=1'') (Some sample_rule)"
  by (subst cache_key_exact)
     (auto simp: sample_request_def empty_url_def kept_query_def ignored_parameters_def sample_rule_def
       sample_queries fun_eq_iff)

section \<open>Directives and headers\<close>

text \<open>
  A cache directive is found wherever it stands: in any of the header's values, at any place
  of the comma-separated list, in any case, with white space around it and with or without an argument;
  and only then.
\<close>

theorem directive_found:
  assumes "list_all (\<lambda>d. d \<noteq> [] \<and> list_all (\<lambda>x. CHR '','' \<notin> set x) d) vs"
  shows "headers_contain_directive (map (strings_join (CHR '','')) vs) directive \<longleftrightarrow>
    (\<exists>d \<in> set vs. \<exists>x \<in> set d. equal_fold (directive_key x) directive)"
proof -
  have "strings_split (CHR '','') (strings_join (CHR '','') d) = d" if "d \<in> set vs" for d
    using that assms by (intro strings_split_join) (auto simp: list_all_iff)
  then show ?thesis by (auto simp: headers_contain_directive_def list_ex_iff)
qed

theorem directive_found_witness:
  "headers_contain_directive [''max-age=5, No-Store '', ''x''] ''no-store''"
proof -
  have "equal_fold (directive_key '' No-Store '') ''no-store''" by code_simp
  then show ?thesis
    using directive_found [of "[[''max-age=5'', '' No-Store ''], [''x'']]" "''no-store''"] by simp
qed

lemma header_values_foldl_del:
  "header_values (foldl header_del h ks) k =
     (if canonical_key k \<in> canonical_key ` set ks then [] else header_values h k)"
  by (induction ks arbitrary: h) (auto simp: header_values_del)

text \<open>
  \<^verbatim>\<open>removeEndToEndHeaders\<close> removes the eight connection-level headers, whatever the case of
  their names, and no other header.
\<close>

theorem hop_by_hop_removed:
  "header_values (remove_end_to_end_headers h) k =
     (if canonical_key k \<in> set [''Connection'', ''Proxy-Connection'', ''Keep-Alive'', ''Te'', ''Transfer-Encoding'',
        ''Upgrade'', ''Proxy-Authenticate'', ''Proxy-Authorization''] then [] else header_values h k)"
proof -
  have "map canonical_key hop_by_hop = [''Connection'', ''Proxy-Connection'', ''Keep-Alive'', ''Te'', ''Transfer-Encoding'',
        ''Upgrade'', ''Proxy-Authenticate'', ''Proxy-Authorization'']" by code_simp
  then have "canonical_key ` set hop_by_hop = set [''Connection'', ''Proxy-Connection'', ''Keep-Alive'', ''Te'',
      ''Transfer-Encoding'', ''Upgrade'', ''Proxy-Authenticate'', ''Proxy-Authorization'']"
    by (metis set_map)
  then show ?thesis unfolding remove_end_to_end_headers_def header_values_foldl_del by (simp only:)
qed

end
