(* ===== verification/Server.thy ===== *)
theory Server
  imports Kv Responder Rule Cluster Policy
begin

text \<open>
  \<^verbatim>\<open>internal/server\<close>: the server's state, the world its handlers change, and the handlers of the cluster
  protocol (\<^verbatim>\<open>handle_kv.go\<close>) and of direct connect (\<^verbatim>\<open>handle_direct_connect.go\<close>).

  The server reaches its cache through the interface: \<open>'s\<close> is the state of the local cache, \<open>'e\<close>
  the environment of one call (which system calls fail, what the network does), \<open>'n\<close> the state of
  everything behind the HTTP clients. A handler takes the capturing writer and the world and
  returns the responder with both of them updated.
\<close>

section \<open>State\<close>

record ('e, 's) cache_ops =
  co_get :: "('e, 's) cache_get"
  co_put :: "('e, 's) cache_put"
  co_close :: "'e \<Rightarrow> 's \<Rightarrow> go_error option \<times> 's"

record ('e, 's, 'n) server =
  sv_listener :: string
  sv_internal :: "('e, 'n) http_client"
  sv_external :: "('e, 'n) http_client"
  sv_disk :: "('e, 's) cache_ops"
  sv_tls :: "(string \<Rightarrow> unit result) option"
  sv_rules :: "rule list"
  sv_cluster :: "cluster option"

datatype log_level = Infof | Warnf | Errorlf

text \<open>
  The world: the local cache, the network, the counters \<^verbatim>\<open>cacheOperationCounter\<close> (by type) and
  \<^verbatim>\<open>requestsCounter\<close> (by method, status and operation), and the log. Latest entries come first.
\<close>

record ('s, 'n) world =
  w_disk :: 's
  w_net :: 'n
  w_cache_ops :: "string list"
  w_requests :: "(string \<times> int \<times> string) list"
  w_log :: "(log_level \<times> string) list"

definition count_cache_op :: "string \<Rightarrow> ('s, 'n) world \<Rightarrow> ('s, 'n) world" where
  "count_cache_op t w = w\<lparr>w_cache_ops := t # w_cache_ops w\<rparr>"

text \<open>The environments of the calls one request makes, and the clock in nanoseconds.\<close>

record 'e request_env =
  re_get :: 'e
  re_upstream :: 'e
  re_put :: 'e
  re_close :: 'e
  re_now :: int

section \<open>Tokens\<close>

text \<open>
  The JWT package is a parameter: signing claims with a secret, whether the signature of a token (HS256 only) is
  valid under a secret, and parsing a token at a time with a leeway, which checks the signature and the times
  that the token has: \<^verbatim>\<open>nbf\<close> and \<^verbatim>\<open>exp\<close> (in seconds) are optional, the program does not ask for them. The other claims of a
  parsed token are read through accessors that fail on a claim of the wrong type.
\<close>

record claims =
  cm_issuer :: string
  cm_audience :: "string list"
  cm_subject :: string
  cm_not_before :: int
  cm_expires_at :: int

record parsed_token =
  pt_issuer :: "string result"
  pt_audience :: "string list result"
  pt_subject :: "string result"
  pt_not_before :: "int option"
  pt_expires_at :: "int option"

record packages =
  pk_hrw :: hrw_sort
  pk_jwt_sign :: "string \<Rightarrow> claims \<Rightarrow> string result"
  pk_jwt_verify :: "string \<Rightarrow> string \<Rightarrow> bool"
  pk_jwt_parse :: "int \<Rightarrow> int \<Rightarrow> string \<Rightarrow> string \<Rightarrow> parsed_token result"

definition jwtIssuerChacha :: string where
  "jwtIssuerChacha = ''chacha''"

definition jwtAudienceDirectConnect :: string where
  "jwtAudienceDirectConnect = ''direct-connect''"

definition second :: int where
  "second = 1000000000"

definition jwtValidity :: int where
  "jwtValidity = 10 * 60 * second"

definition jwtLeeway :: int where
  "jwtLeeway = 10 * second"

text \<open>\<^verbatim>\<open>jwt.NewNumericDate\<close> truncates to seconds.\<close>

definition numeric_date :: "int \<Rightarrow> int" where
  "numeric_date t = t div second"

definition generate_direct_connect_token ::
    "packages \<Rightarrow> int \<Rightarrow> ('e, 's, 'n) server \<Rightarrow> string \<Rightarrow> string result" where
  "generate_direct_connect_token pk now sv key =
     (case sv_cluster sv of
        None \<Rightarrow> Inl (Errorf ''direct connect token requested, but cluster is not initialized'')
      | Some c \<Rightarrow>
          pk_jwt_sign pk (cl_secret c)
            \<lparr>cm_issuer = jwtIssuerChacha, cm_audience = [jwtAudienceDirectConnect], cm_subject = key,
             cm_not_before = numeric_date now, cm_expires_at = numeric_date (now + jwtValidity)\<rparr>)"

definition perform_direct_connect_auth ::
    "packages \<Rightarrow> int \<Rightarrow> ('e, 's, 'n) server \<Rightarrow> request \<Rightarrow> responder + string" where
  "perform_direct_connect_auth pk now sv rq =
     (case sv_cluster sv of
        None \<Rightarrow> Inl (Code 404 ''direct connect request received, but cluster mode is not configured'')
      | Some c \<Rightarrow>
          (let token = values_get (parse_query (u_rawquery (rq_url rq))) ''token'' in
           if token = [] then Inl (Code 401 ''direct connect token is missing or is empty'')
           else
             (case pk_jwt_parse pk now jwtLeeway (cl_secret c) token of
                Inl _ \<Rightarrow> Inl (Code 401 ''direct connect token is invalid'')
              | Inr parsedToken \<Rightarrow>
                  (case pt_issuer parsedToken of
                     Inl _ \<Rightarrow> Inl (Code 401 ''direct connect token is invalid: missing issuer'')
                   | Inr issuer \<Rightarrow>
                       if issuer \<noteq> jwtIssuerChacha
                       then Inl (Code 401 ''direct connect token is invalid: invalid issuer'')
                       else
                         (case pt_audience parsedToken of
                            Inl _ \<Rightarrow> Inl (Code 401 ''direct connect token is invalid: missing audience'')
                          | Inr audience \<Rightarrow>
                              if jwtAudienceDirectConnect \<notin> set audience
                              then Inl (Code 401 ''direct connect token is invalid: mismatched audience'')
                              else
                                (case pt_subject parsedToken of
                                   Inl _ \<Rightarrow> Inl (Code 401 ''direct connect token is invalid: missing subject'')
                                 | Inr subject \<Rightarrow> Inr subject))))))"

section \<open>Cluster handlers\<close>

definition perform_cluster_auth :: "('e, 's, 'n) server \<Rightarrow> request \<Rightarrow> responder option" where
  "perform_cluster_auth sv rq =
     (case sv_cluster sv of
        None \<Rightarrow> Some (Code 404 ''KV request received, but cluster mode is not configured'')
      | Some c \<Rightarrow>
          (case basic_auth (rq_header rq) of
             None \<Rightarrow> Some (Code 401 ''failed to get basic auth'')
           | Some (_, providedToken) \<Rightarrow>
               if cl_secret c \<noteq> providedToken then Some (Code 401 ''invalid secret'') else None))"

definition not_found_or_error :: "go_error \<Rightarrow> responder" where
  "not_found_or_error err =
     (if errors_is err ErrNotFound then Code 404 ''no cache entry found''
      else Code 500 ''failed to get cache entry'')"

definition handle_cluster_get ::
    "'e request_env \<Rightarrow> ('e, 's, 'n) server \<Rightarrow> request \<Rightarrow> capturing_writer \<Rightarrow> ('s, 'n) world \<Rightarrow>
     responder \<times> capturing_writer \<times> ('s, 'n) world" where
  "handle_cluster_get env sv rq cw w =
     (case perform_cluster_auth sv rq of
        Some r \<Rightarrow> (r, cw, w)
      | None \<Rightarrow>
          (case GetKey (rq_header rq) of
             Inl _ \<Rightarrow> (Code 400 ''failed to determine the key'', cw, w)
           | Inr key \<Rightarrow>
               (case co_get (sv_disk sv) (re_get env) (w_disk w) key of
                  (Inl err, s) \<Rightarrow> (not_found_or_error err, cw, w\<lparr>w_disk := s\<rparr>)
                | (Inr (cacheEntryReader, metadata), s) \<Rightarrow>
                    (case cw_copy cacheEntryReader (cw_set_header (SetMetadata (cw_header cw) metadata) cw) of
                       (Some _, cw') \<Rightarrow> (Code 500 ''unable to write cache entry'', cw', w\<lparr>w_disk := s\<rparr>)
                     | (None, cw') \<Rightarrow>
                         (case co_close (sv_disk sv) (re_close env) s of
                            (Some _, s') \<Rightarrow> (Code 500 ''unable to close cache entry'', cw', w\<lparr>w_disk := s'\<rparr>)
                          | (None, s') \<Rightarrow> (Empty ''cache entry read successfully'', cw', w\<lparr>w_disk := s'\<rparr>))))))"

text \<open>
  \<^verbatim>\<open>Put\<close> reads the request body; the number of bytes it read is the third component, which the
  client's transport sees.
\<close>

definition handle_cluster_put ::
    "'e request_env \<Rightarrow> ('e, 's, 'n) server \<Rightarrow> request \<Rightarrow> ('s, 'n) world \<Rightarrow> responder \<times> nat \<times> ('s, 'n) world" where
  "handle_cluster_put env sv rq w =
     (case perform_cluster_auth sv rq of
        Some r \<Rightarrow> (r, 0, w)
      | None \<Rightarrow>
          (case GetKey (rq_header rq) of
             Inl _ \<Rightarrow> (Code 400 ''failed to determine the key'', 0, w)
           | Inr key \<Rightarrow>
               (case GetMetadata (rq_header rq) of
                  Inl _ \<Rightarrow> (Code 400 ''failed to determine the metadata'', 0, w)
                | Inr metadata \<Rightarrow>
                    (case co_put (sv_disk sv) (re_put env) (w_disk w) key metadata (rq_body rq) of
                       ((Some _, n), s) \<Rightarrow> (Code 500 ''unable to put cache entry'', n, w\<lparr>w_disk := s\<rparr>)
                     | ((None, n), s) \<Rightarrow> (Code 200 ''cache entry written successfully'', n, w\<lparr>w_disk := s\<rparr>)))))"

section \<open>Direct connect\<close>

definition handle_direct_connect_get ::
    "packages \<Rightarrow> 'e request_env \<Rightarrow> ('e, 's, 'n) server \<Rightarrow> request \<Rightarrow> capturing_writer \<Rightarrow> ('s, 'n) world \<Rightarrow>
     responder \<times> capturing_writer \<times> ('s, 'n) world" where
  "handle_direct_connect_get pk env sv rq cw w =
     (case perform_direct_connect_auth pk (re_now env) sv rq of
        Inl r \<Rightarrow> (r, cw, w)
      | Inr key \<Rightarrow>
          (case co_get (sv_disk sv) (re_get env) (w_disk w) key of
             (Inl err, s) \<Rightarrow> (not_found_or_error err, cw, w\<lparr>w_disk := s\<rparr>)
           | (Inr (cacheEntryReader, _), s) \<Rightarrow>
               (case cw_copy cacheEntryReader cw of
                  (Some _, cw') \<Rightarrow> (Code 500 ''unable to write cache entry'', cw', w\<lparr>w_disk := s\<rparr>)
                | (None, cw') \<Rightarrow>
                    (case co_close (sv_disk sv) (re_close env) s of
                       (Some _, s') \<Rightarrow>
                         (Code 500 ''unable to close cache entry'', cw', count_cache_op ''direct-connect'' (w\<lparr>w_disk := s'\<rparr>))
                     | (None, s') \<Rightarrow>
                         (Empty ''cache entry read successfully'', cw',
                          count_cache_op ''direct-connect'' (w\<lparr>w_disk := s'\<rparr>))))))"

section \<open>Properties of the tokens\<close>

text \<open>
  What the JWT package documents. A token signed with a secret parses with that secret from
  \<open>nbf - leeway\<close> until before \<open>exp + leeway\<close>, and gives back its claims. A token parses with a secret only if its
  signature is valid under that secret and the time is not outside those of its limits that it has; and if it is
  the token of some claims (of valid UTF-8 strings, which JSON keeps), then these are what it gives back.
\<close>

definition token_of :: "claims \<Rightarrow> parsed_token" where
  "token_of c =
     \<lparr>pt_issuer = Inr (cm_issuer c), pt_audience = Inr (cm_audience c), pt_subject = Inr (cm_subject c),
      pt_not_before = Some (cm_not_before c), pt_expires_at = Some (cm_expires_at c)\<rparr>"

definition claims_current :: "int \<Rightarrow> int \<Rightarrow> claims \<Rightarrow> bool" where
  "claims_current now leeway c \<longleftrightarrow>
     cm_not_before c * second - leeway \<le> now \<and> now < cm_expires_at c * second + leeway"

definition jwt_complete :: "packages \<Rightarrow> bool" where
  "jwt_complete pk \<longleftrightarrow>
     (\<forall>secret c tok now leeway. pk_jwt_sign pk secret c = Inr tok \<longrightarrow> claims_current now leeway c \<longrightarrow>
        tok \<noteq> [] \<and> pk_jwt_parse pk now leeway secret tok = Inr (token_of c))"

definition token_current :: "int \<Rightarrow> int \<Rightarrow> parsed_token \<Rightarrow> bool" where
  "token_current now leeway pt \<longleftrightarrow>
     (\<forall>t. pt_not_before pt = Some t \<longrightarrow> t * second - leeway \<le> now) \<and>
     (\<forall>t. pt_expires_at pt = Some t \<longrightarrow> now < t * second + leeway)"

definition utf8_claims :: "claims \<Rightarrow> bool" where
  "utf8_claims c \<longleftrightarrow> valid_utf8 (cm_issuer c) \<and> list_all valid_utf8 (cm_audience c) \<and> valid_utf8 (cm_subject c)"

definition jwt_sound :: "packages \<Rightarrow> bool" where
  "jwt_sound pk \<longleftrightarrow>
     (\<forall>secret tok now leeway pt. pk_jwt_parse pk now leeway secret tok = Inr pt \<longrightarrow>
        pk_jwt_verify pk secret tok \<and> token_current now leeway pt \<and>
        (\<forall>c. utf8_claims c \<longrightarrow> pk_jwt_sign pk secret c = Inr tok \<longrightarrow> pt = token_of c))"

end
