(* ===== verification/ProxyDefault.thy ===== *)
theory ProxyDefault
  imports Server
begin

text \<open>
  \<^verbatim>\<open>handle_proxy_default.go\<close>: the proxy. Every request is forwarded to the upstream server, made
  conditional with the ETag of the cached entry; the answer decides whether the client gets the
  upstream's body (and the cache a copy of it) or the cached one.
\<close>

section \<open>The cache of a key\<close>

text \<open>
  \<^verbatim>\<open>server.cache\<close>: the local cache (\<open>Some None\<close>) or the client of the node that owns the key;
  \<^term>\<open>None\<close> is the panic of \<^verbatim>\<open>TargetNode\<close> on a cluster without nodes.
\<close>

definition choose_cache :: "packages \<Rightarrow> ('e, 's, 'n) server \<Rightarrow> string \<Rightarrow> ('e, 'n) kv option option" where
  "choose_cache pk sv key =
     (case sv_cluster sv of
        None \<Rightarrow> Some None
      | Some c \<Rightarrow>
          (case target_node (pk_hrw pk) c key of
             None \<Rightarrow> None
           | Some targetNode \<Rightarrow>
               if targetNode \<noteq> cl_addr c
               then Some (Some (kv_new (sv_internal sv) targetNode (cl_secret c) [WithHTTPClient (sv_internal sv)]))
               else Some None))"

definition chosen_get ::
    "('e, 's, 'n) server \<Rightarrow> ('e, 'n) kv option \<Rightarrow> ('e, ('s, 'n) world) cache_get" where
  "chosen_get sv ca e w key =
     (case ca of
        None \<Rightarrow> (case co_get (sv_disk sv) e (w_disk w) key of (r, s) \<Rightarrow> (r, w\<lparr>w_disk := s\<rparr>))
      | Some k \<Rightarrow> (case kv_get k e (w_net w) key of (r, n) \<Rightarrow> (r, w\<lparr>w_net := n\<rparr>)))"

definition chosen_put ::
    "('e, 's, 'n) server \<Rightarrow> ('e, 'n) kv option \<Rightarrow> ('e, ('s, 'n) world) cache_put" where
  "chosen_put sv ca e w key m b =
     (case ca of
        None \<Rightarrow> (case co_put (sv_disk sv) e (w_disk w) key m b of (r, s) \<Rightarrow> (r, w\<lparr>w_disk := s\<rparr>))
      | Some k \<Rightarrow> (case kv_put k e (w_net w) key m b of (r, n) \<Rightarrow> (r, w\<lparr>w_net := n\<rparr>)))"

text \<open>The deferred \<^verbatim>\<open>Close\<close> of the cache entry; its error is dropped.\<close>

definition chosen_close :: "('e, 's, 'n) server \<Rightarrow> ('e, 'n) kv option \<Rightarrow> 'e \<Rightarrow> ('s, 'n) world \<Rightarrow> ('s, 'n) world" where
  "chosen_close sv ca e w =
     (case ca of
        None \<Rightarrow> w\<lparr>w_disk := snd (co_close (sv_disk sv) e (w_disk w))\<rparr>
      | Some k \<Rightarrow> w)"

section \<open>Requests and responses\<close>

text \<open>The loops that copy headers: \<^verbatim>\<open>Set\<close> for each value in turn.\<close>

definition propagate :: "header \<Rightarrow> header \<Rightarrow> header" where
  "propagate src dst = foldl (\<lambda>h (k, vs). foldl (\<lambda>h v. header_set h k v) h vs) dst src"

definition fix_url :: "request \<Rightarrow> request" where
  "fix_url rq =
     rq\<lparr>rq_url := (rq_url rq)\<lparr>u_scheme := if rq_tls rq then ''https'' else ''http'', u_host := rq_host rq\<rparr>\<rparr>"

definition upstream_headers :: "metadata \<Rightarrow> request \<Rightarrow> header" where
  "upstream_headers m rq =
     remove_end_to_end_headers
       (propagate (rq_header rq) (if etag m \<noteq> [] then header_set [] ''If-None-Match'' (etag m) else []))"

definition upstream_client :: "('e, 's, 'n) server \<Rightarrow> request \<Rightarrow> ('e, 'n) http_client" where
  "upstream_client sv urq =
     (case sv_cluster sv of
        Some c \<Rightarrow> if contains_node c (u_host (rq_url urq)) then sv_internal sv else sv_external sv
      | None \<Rightarrow> sv_external sv)"

definition clean_response :: "response \<Rightarrow> response" where
  "clean_response rs =
     rs\<lparr>rs_header := header_del (remove_end_to_end_headers (rs_header rs)) ''X-Chacha-Direct-Connect''\<rparr>"

text \<open>
  \<^verbatim>\<open>io.TeeReader(body, writer)\<close>: a read returns the bytes that the writer took; a write error ends
  the stream. \<open>tee_drain c\<close> is the writer after \<open>c\<close> bytes went through; a first write that takes nothing
  hands nothing over.
\<close>

definition tee_reader :: "reader \<Rightarrow> capturing_writer \<Rightarrow> reader" where
  "tee_reader body cw =
     (case rw_accept (length (rd_data body)) (cw_inner cw) of
        (k, None) \<Rightarrow> body
      | (k, Some e) \<Rightarrow> \<lparr>rd_data = take k (rd_data body), rd_err = Some e\<rparr>)"

definition tee_drain :: "nat \<Rightarrow> reader \<Rightarrow> capturing_writer \<Rightarrow> capturing_writer" where
  "tee_drain c body cw = (if c = 0 then cw else snd (cw_write (take c (rd_data body)) cw))"

definition direct_connect_url :: "string \<Rightarrow> string \<Rightarrow> string" where
  "direct_connect_url node tok =
     url_string (key_url ''http'' node ''/direct-connect'' (values_encode (values_set (parse_query []) ''token'' tok)))"

section \<open>The three ways to answer\<close>

type_synonym ('s, 'n) handled = "responder \<times> capturing_writer \<times> ('s, 'n) world"

definition answer_and_cache ::
    "('e, 's, 'n) server \<Rightarrow> 'e request_env \<Rightarrow> ('e, 'n) kv option \<Rightarrow> string \<Rightarrow> response \<Rightarrow> capturing_writer \<Rightarrow>
     ('s, 'n) world \<Rightarrow> ('s, 'n) handled" where
  "answer_and_cache sv env ca key rs cw w =
     (case chosen_put sv ca (re_put env) w key \<lparr>etag = header_get (rs_header rs) ''ETag''\<rparr>
        (tee_reader (rs_body rs) cw) of
        ((Some _, c), w') \<Rightarrow> (Code 500 ''failed to create a cache entry'', tee_drain c (tee_reader (rs_body rs) cw) cw, w')
      | ((None, c), w') \<Rightarrow>
          (Empty ''fetched from the upstream, cache entry is outdated'',
           tee_drain c (tee_reader (rs_body rs) cw) cw, count_cache_op ''miss'' w'))"

definition answer_redirect ::
    "packages \<Rightarrow> ('e, 's, 'n) server \<Rightarrow> 'e request_env \<Rightarrow> cluster \<Rightarrow> rule \<Rightarrow> string \<Rightarrow> capturing_writer \<Rightarrow>
     ('s, 'n) world \<Rightarrow> ('s, 'n) handled option" where
  "answer_redirect pk sv env c r key cw w =
     (case target_node (pk_hrw pk) c key of
        None \<Rightarrow> None
      | Some node \<Rightarrow>
          (case generate_direct_connect_token pk (re_now env) sv key of
             Inl _ \<Rightarrow> Some (Code 500 ''failed to generate direct connect token'', cw, w)
           | Inr tok \<Rightarrow>
               (let h = header_set (cw_header cw) ''Location'' (direct_connect_url node tok);
                    h' = (if directConnectHeader r then header_set h ''X-Chacha-Direct-Connect'' ''1'' else h)
                in Some (Code 307 ''redirected with a direct connect hint'', cw_set_header h' cw, w))))"

definition answer_copy :: "int \<Rightarrow> string \<Rightarrow> string \<Rightarrow> reader \<Rightarrow> capturing_writer \<Rightarrow> ('s, 'n) world \<Rightarrow> ('s, 'n) handled" where
  "answer_copy status op msg body cw w =
     (case cw_copy body (cw_write_header status cw) of
        (Some _, cw') \<Rightarrow> (Code 500 ''failed to write all data to the client'', cw', w)
      | (None, cw') \<Rightarrow> (Empty msg, cw', count_cache_op op w))"

definition answer ::
    "packages \<Rightarrow> ('e, 's, 'n) server \<Rightarrow> 'e request_env \<Rightarrow> request \<Rightarrow> rule option \<Rightarrow> ('e, 'n) kv option \<Rightarrow> string \<Rightarrow>
     reader option \<Rightarrow> response \<Rightarrow> capturing_writer \<Rightarrow> ('s, 'n) world \<Rightarrow> ('s, 'n) handled option" where
  "answer pk sv env rq ru ca key cacheEntryReader rs cw w =
     (if rs_status rs = 200 \<and> should_cache rq rs ru then
        Some (answer_and_cache sv env ca key rs cw w)
      else
        (case (if rs_status rs = 304 then cacheEntryReader else None) of
           Some reader \<Rightarrow>
             (case (sv_cluster sv, ru) of
                (Some c, Some r) \<Rightarrow>
                  if directConnect r then answer_redirect pk sv env c r key cw w
                  else Some (answer_copy 200 ''hit'' ''retrieved from the cache'' reader cw w)
              | _ \<Rightarrow> Some (answer_copy 200 ''hit'' ''retrieved from the cache'' reader cw w))
         | None \<Rightarrow>
             Some (answer_copy (rs_status rs) ''not-allowed'' ''fetched from the upstream, caching is not allowed''
                     (rs_body rs) cw w)))"

section \<open>The handler\<close>

text \<open>From the upstream request on, with the cache entry (if any) at hand.\<close>

definition proxy_upstream ::
    "packages \<Rightarrow> ('e, 's, 'n) server \<Rightarrow> 'e request_env \<Rightarrow> request \<Rightarrow> rule option \<Rightarrow> ('e, 'n) kv option \<Rightarrow> string \<Rightarrow>
     reader option \<Rightarrow> metadata \<Rightarrow> capturing_writer \<Rightarrow> ('s, 'n) world \<Rightarrow> ('s, 'n) handled option" where
  "proxy_upstream pk sv env rq ru ca key cacheEntryReader m cw w =
     (case http_new_request (rq_method rq) (url_string (rq_url rq)) (rq_body rq) of
        Inl _ \<Rightarrow> Some (Code 500 ''failed to create an upstream request'', cw, w)
      | Inr urq \<Rightarrow>
          (let urq' = urq\<lparr>rq_header := upstream_headers m rq\<rparr> in
           case upstream_client sv urq' (re_upstream env) urq' (w_net w) of
             (Inl _, _, n) \<Rightarrow> Some (Code 500 ''failed to perform a request to the upstream'', cw, w\<lparr>w_net := n\<rparr>)
           | (Inr rs, _, n) \<Rightarrow>
               (let rs' = clean_response rs in
                answer pk sv env rq ru ca key cacheEntryReader rs'
                  (cw_set_header (propagate (rs_header rs') (cw_header cw)) cw) (w\<lparr>w_net := n\<rparr>))))"

definition handle_proxy_default ::
    "packages \<Rightarrow> 'e request_env \<Rightarrow> ('e, 's, 'n) server \<Rightarrow> request \<Rightarrow> capturing_writer \<Rightarrow> ('s, 'n) world \<Rightarrow>
     ('s, 'n) handled option" where
  "handle_proxy_default pk env sv request cw w =
     (if rq_host request = [] then Some (Code 400 ''Host header is empty'', cw, w)
      else
        (let rq = fix_url request;
             ru = rules_get (sv_rules sv) (url_string (rq_url rq));
             key = cache_key rq ru
         in case choose_cache pk sv key of
              None \<Rightarrow> None
            | Some ca \<Rightarrow>
                (case chosen_get sv ca (re_get env) w key of
                   (Inl err, w1) \<Rightarrow>
                     if \<not> errors_is err ErrNotFound then
                       (case ca of
                          Some k \<Rightarrow> Some (Code 502 ''failed to retrieve cache entry: cluster node is not available'', cw, w1)
                        | None \<Rightarrow> Some (Code 500 ''failed to retrieve cache entry'', cw, w1))
                     else proxy_upstream pk sv env rq ru ca key None no_metadata cw w1
                 | (Inr (reader, m), w1) \<Rightarrow>
                     map_option (\<lambda>(r, cw', w2). (r, cw', chosen_close sv ca (re_close env) w2))
                       (proxy_upstream pk sv env rq ru ca key (Some reader) m cw w1))))"

section \<open>Case analysis\<close>

text \<open>What the handler knows when it forwards: the entry it got, or that there is none.\<close>

definition looked_up ::
    "('e, 's, 'n) server \<Rightarrow> 'e request_env \<Rightarrow> ('e, 'n) kv option \<Rightarrow> string \<Rightarrow> ('s, 'n) world \<Rightarrow> reader option \<Rightarrow> metadata \<Rightarrow>
     ('s, 'n) world \<Rightarrow> bool" where
  "looked_up sv env ca key w entry m w1 \<longleftrightarrow>
     (case entry of
        None \<Rightarrow> m = no_metadata \<and> (\<exists>err. chosen_get sv ca (re_get env) w key = (Inl err, w1) \<and> errors_is err ErrNotFound)
      | Some reader \<Rightarrow> chosen_get sv ca (re_get env) w key = (Inr (reader, m), w1))"

definition proxy_rule :: "('e, 's, 'n) server \<Rightarrow> request \<Rightarrow> rule option" where
  "proxy_rule sv request = rules_get (sv_rules sv) (url_string (rq_url (fix_url request)))"

definition proxy_key :: "('e, 's, 'n) server \<Rightarrow> request \<Rightarrow> string" where
  "proxy_key sv request = cache_key (fix_url request) (proxy_rule sv request)"

lemma proxy_cases:
  assumes "handle_proxy_default pk env sv request cw w = Some (r, cw', w')" and "rq_host request \<noteq> []"
  obtains (unavailable) ca err w1 where "choose_cache pk sv (proxy_key sv request) = Some ca"
      "chosen_get sv ca (re_get env) w (proxy_key sv request) = (Inl err, w1)" "\<not> errors_is err ErrNotFound"
      "\<exists>st msg. r = Code st msg \<and> st = (case ca of None \<Rightarrow> 500 | Some _ \<Rightarrow> 502)" "cw' = cw" "w' = w1"
  | (forwarded) ca entry m w1 w2 where "choose_cache pk sv (proxy_key sv request) = Some ca"
      "looked_up sv env ca (proxy_key sv request) w entry m w1"
      "proxy_upstream pk sv env (fix_url request) (proxy_rule sv request) ca (proxy_key sv request) entry m cw w1 =
         Some (r, cw', w2)"
      "w' = (case entry of None \<Rightarrow> w2 | Some _ \<Rightarrow> chosen_close sv ca (re_close env) w2)"
proof -
  let ?key = "proxy_key sv request"
  from assms obtain ca where ca: "choose_cache pk sv ?key = Some ca"
    by (auto simp: handle_proxy_default_def proxy_key_def proxy_rule_def Let_def split: option.splits)
  obtain q w1 where q: "chosen_get sv ca (re_get env) w ?key = (q, w1)" by fastforce
  note h = assms(1) [unfolded handle_proxy_default_def Let_def, folded proxy_rule_def, folded proxy_key_def]
  show thesis
  proof (cases q)
    case (Inl err)
    show thesis
    proof (cases "errors_is err ErrNotFound")
      case True
      with h assms(2) ca q Inl show thesis
        by (intro forwarded [of ca None no_metadata w1 w']) (auto simp: looked_up_def)
    next
      case False
      with h assms(2) ca q Inl show thesis
        by (intro unavailable [of ca err w1]) (auto split: option.splits)
    qed
  next
    case (Inr p)
    obtain reader m where p: "p = (reader, m)" by fastforce
    with h assms(2) ca q Inr obtain w2 where
      "proxy_upstream pk sv env (fix_url request) (proxy_rule sv request) ca ?key (Some reader) m cw w1 = Some (r, cw', w2)"
      "w' = chosen_close sv ca (re_close env) w2"
      by auto
    with ca q Inr p show thesis by (intro forwarded [of ca "Some reader" m w1 w2]) (auto simp: looked_up_def)
  qed
qed

lemma upstream_cases:
  assumes "proxy_upstream pk sv env rq ru ca key entry m cw w = Some (r, cw', w')"
  obtains (unsent) "\<exists>msg. r = Code 500 msg" "cw' = cw" "w' = w"
  | (unanswered) urq e k n where "\<exists>msg. r = Code 500 msg" "cw' = cw" "w' = w\<lparr>w_net := n\<rparr>"
      "http_new_request (rq_method rq) (url_string (rq_url rq)) (rq_body rq) = Inr urq"
      "upstream_client sv (urq\<lparr>rq_header := upstream_headers m rq\<rparr>) (re_upstream env)
         (urq\<lparr>rq_header := upstream_headers m rq\<rparr>) (w_net w) = (Inl e, k, n)"
  | (responded) urq rs k n where
      "http_new_request (rq_method rq) (url_string (rq_url rq)) (rq_body rq) = Inr urq"
      "upstream_client sv (urq\<lparr>rq_header := upstream_headers m rq\<rparr>) (re_upstream env)
         (urq\<lparr>rq_header := upstream_headers m rq\<rparr>) (w_net w) = (Inr rs, k, n)"
      "answer pk sv env rq ru ca key entry (clean_response rs)
         (cw_set_header (propagate (rs_header (clean_response rs)) (cw_header cw)) cw) (w\<lparr>w_net := n\<rparr>) = Some (r, cw', w')"
proof (cases "http_new_request (rq_method rq) (url_string (rq_url rq)) (rq_body rq)")
  case (Inl e)
  with assms show thesis by (intro unsent) (auto simp: proxy_upstream_def)
next
  case (Inr urq)
  let ?urq = "urq\<lparr>rq_header := upstream_headers m rq\<rparr>"
  obtain q k n where q: "upstream_client sv ?urq (re_upstream env) ?urq (w_net w) = (q, k, n)"
    by (metis prod.collapse)
  show thesis
  proof (cases q)
    case (Inl e)
    with assms Inr q show thesis by (intro unanswered [of n urq e k]) (auto simp: proxy_upstream_def Let_def)
  next
    case (Inr rs)
    with assms \<open>http_new_request _ _ _ = Inr urq\<close> q show thesis
      by (intro responded [of urq rs k n]) (auto simp: proxy_upstream_def Let_def)
  qed
qed

lemma answer_cases:
  assumes "answer pk sv env rq ru ca key entry rs cw w = Some (r, cw', w')"
  obtains (cached) "rs_status rs = 200" "should_cache rq rs ru" "(r, cw', w') = answer_and_cache sv env ca key rs cw w"
  | (redirect) c ru' reader where "rs_status rs = 304" "entry = Some reader" "sv_cluster sv = Some c" "ru = Some ru'"
      "directConnect ru'" "answer_redirect pk sv env c ru' key cw w = Some (r, cw', w')"
  | (hit) reader where "rs_status rs = 304" "entry = Some reader"
      "(r, cw', w') = answer_copy 200 ''hit'' ''retrieved from the cache'' reader cw w"
  | (passed) "rs_status rs = 304 \<longrightarrow> entry = None"
      "(r, cw', w') = answer_copy (rs_status rs) ''not-allowed'' ''fetched from the upstream, caching is not allowed''
         (rs_body rs) cw w"
proof (cases "rs_status rs = 200 \<and> should_cache rq rs ru")
  case True
  with assms show thesis by (intro cached) (auto simp: answer_def)
next
  case False
  show thesis
  proof (cases "rs_status rs = 304 \<and> entry \<noteq> None")
    case True
    then obtain reader where "rs_status rs = 304" "entry = Some reader" by auto
    with assms False show thesis
      by (auto simp: answer_def split: option.splits if_splits intro: redirect hit)
  next
    case no: False
    then have "(if rs_status rs = 304 then entry else None) = None" by auto
    with assms False no show thesis by (intro passed) (auto simp: answer_def)
  qed
qed

end
