(* ===== verification/ProxyCache.thy ===== *)
theory ProxyCache
  imports ProxyDefault DiskCorrect
begin

text \<open>
  The proxy in front of a cache that keeps the interface's contract: what may enter the cache, and that an
  exchange counted as served was delivered completely. The cache of a request is the one the handler chooses, over the
  world of the node: the locale \<^verbatim>\<open>proxied_cache\<close> states what the handler needs of it. A local cache whose returned
  readers can be closed is of that kind; the disk and the no-op cache are its instances.
\<close>

section \<open>The interfaces\<close>

locale closable_cache = reliable_cache get put slot stored inv
  for get :: "('e, 's) cache_get" and put :: "('e, 's) cache_put" and slot :: "string \<Rightarrow> 'k"
    and stored :: "'s \<Rightarrow> 'k \<Rightarrow> (metadata \<times> string) option" and inv :: "'s \<Rightarrow> bool" +
  fixes close :: "'e \<Rightarrow> 's \<Rightarrow> go_error option \<times> 's"
  assumes close_inv: "inv s \<Longrightarrow> inv (snd (close e s))"
    and close_stored: "inv s \<Longrightarrow> stored (snd (close e s)) = stored s"

text \<open>The cache that the handler uses for a key, as operations on the world; counting leaves it alone.\<close>

locale proxied_cache = cache "chosen_get sv ca" "chosen_put sv ca" slot stored inv intact
  for sv :: "('e, 's, 'n) server" and ca :: "('e, 'n) kv option" and slot :: "string \<Rightarrow> 'k"
    and stored :: "('s, 'n) world \<Rightarrow> 'k \<Rightarrow> (metadata \<times> string) option" and inv :: "('s, 'n) world \<Rightarrow> bool"
    and intact :: "'e \<Rightarrow> bool" +
  assumes chosen_close_inv: "inv w \<Longrightarrow> inv (chosen_close sv ca e w)"
    and chosen_close_stored: "inv w \<Longrightarrow> stored (chosen_close sv ca e w) = stored w"
    and count_inv: "inv (count_cache_op op w) \<longleftrightarrow> inv w"
    and count_stored: "stored (count_cache_op op w) = stored w"

text \<open>A server with such a local cache.\<close>

locale local_proxy = closable_cache get put slot stored inv close
  for get :: "('e, 's) cache_get" and put :: "('e, 's) cache_put" and slot :: "string \<Rightarrow> 'k"
    and stored :: "'s \<Rightarrow> 'k \<Rightarrow> (metadata \<times> string) option" and inv :: "'s \<Rightarrow> bool"
    and close :: "'e \<Rightarrow> 's \<Rightarrow> go_error option \<times> 's" +
  fixes sv :: "('e, 's, 'n) server"
  assumes local_disk: "sv_disk sv = \<lparr>co_get = get, co_put = put, co_close = close\<rparr>"

sublocale local_proxy \<subseteq> px: proxied_cache sv None slot "\<lambda>w. stored (w_disk w)" "\<lambda>w. inv (w_disk w)" "\<lambda>_. True"
proof unfold_locales
  note ops = chosen_get_def chosen_put_def chosen_close_def local_disk
  show "inv (w_disk w) \<Longrightarrow> chosen_get sv None e w k = (r, w') \<Longrightarrow> inv (w_disk w')" for w e k r w'
    by (auto simp: ops split: prod.splits dest: get_inv)
  show "inv (w_disk w) \<Longrightarrow> chosen_get sv None e w k = (r, w') \<Longrightarrow> stored (w_disk w') = stored (w_disk w)" for w e k r w'
    by (auto simp: ops split: prod.splits dest: get_stored)
  show "inv (w_disk w) \<Longrightarrow> chosen_get sv None e w k = (Inr (b, m), w') \<Longrightarrow>
      \<exists>d. stored (w_disk w) (slot k) = Some (m, d) \<and> prefix (rd_data b) d \<and> (True \<longrightarrow> reads b d)" for w e k b m w'
    by (auto simp: ops split: prod.splits dest: get_sound)
  show "inv (w_disk w) \<Longrightarrow> chosen_put sv None e w k m b = (q, w') \<Longrightarrow> inv (w_disk w')" for w e k m b q w'
    by (auto simp: ops split: prod.splits dest: put_inv)
  show "inv (w_disk w) \<Longrightarrow> chosen_put sv None e w k m b = ((None, n), w') \<Longrightarrow> rd_err b = None \<and> n = length (rd_data b) \<and>
      stored (w_disk w') \<subseteq>\<^sub>m (stored (w_disk w))(slot k \<mapsto> (coerce_metadata m, rd_data b))" for w e k m b n w'
    by (auto simp: ops split: prod.splits dest: put_ok)
  show "inv (w_disk w) \<Longrightarrow> chosen_put sv None e w k m b = ((Some err, n), w') \<Longrightarrow> stored (w_disk w') \<subseteq>\<^sub>m stored (w_disk w) \<or>
      (rd_err b = None \<and> stored (w_disk w') \<subseteq>\<^sub>m (stored (w_disk w))(slot k \<mapsto> (coerce_metadata m, rd_data b)))"
    for w e k m b err n w'
    by (auto simp: ops split: prod.splits dest: put_failed_keeps)
  show "inv (w_disk w) \<Longrightarrow> inv (w_disk (chosen_close sv None e w))" for w e by (simp add: ops close_inv)
  show "inv (w_disk w) \<Longrightarrow> stored (w_disk (chosen_close sv None e w)) = stored (w_disk w)" for w e by (simp add: ops close_stored)
qed (simp_all add: count_cache_op_def)

section \<open>Complete deliveries\<close>

text \<open>What the client of a writer gets of a body: nothing of the answer to a \<^verbatim>\<open>HEAD\<close> request.\<close>

definition client_gets :: "response_writer \<Rightarrow> string \<Rightarrow> string" where
  "client_gets w d = (if rw_head w then [] else d)"

lemma client_gets_header [simp]:
  "client_gets (cw_inner (cw_set_header h cw)) = client_gets (cw_inner cw)"
  "client_gets (cw_inner (cw_write_header c cw)) = client_gets (cw_inner cw)"
  by (simp_all add: client_gets_def fun_eq_iff)

lemma clean_response_simps [simp]:
  "rs_status (clean_response rs) = rs_status rs" "rs_body (clean_response rs) = rs_body rs"
  by (simp_all add: clean_response_def)

lemma rw_write_ok: "fst (rw_write bs w) = None \<Longrightarrow> rw_body (snd (rw_write bs w)) = rw_body w @ client_gets w bs"
  using rw_write_room [of bs w] by (simp add: rw_write_error rw_accept_ok client_gets_def)

lemma cw_copy_ok:
  assumes "cw_copy r w = (None, w')"
  shows "rd_err r = None \<and> rw_body (cw_inner w') = rw_body (cw_inner w) @ client_gets (cw_inner w) (rd_data r)"
proof (cases "rd_data r = []")
  case True
  with assms show ?thesis by (simp add: cw_copy_def client_gets_def)
next
  case False
  obtain e i where i: "rw_write (rd_data r) (cw_inner w) = (e, i)" by fastforce
  with assms False have e: "e = None" "rd_err r = None" "w' = w\<lparr>cw_inner := i\<rparr>"
    by (cases e; simp add: cw_copy_def cw_write_def)+
  with rw_write_ok [of "rd_data r" "cw_inner w"] i show ?thesis by simp
qed

lemma tee_reader_ok:
  "rd_err (tee_reader b cw) = None \<Longrightarrow> tee_reader b cw = b \<and> rw_room (length (rd_data b)) (cw_inner cw)"
  using rw_accept_ok [of "length (rd_data b)" "cw_inner cw"]
  by (auto simp: tee_reader_def split: prod.splits option.splits)

lemma tee_reader_room: "rw_room (length (rd_data b)) (cw_inner cw) \<Longrightarrow> tee_reader b cw = b"
  by (simp add: tee_reader_def rw_accept_room)

lemma tee_drain_all:
  assumes "rd_err (tee_reader b cw) = None"
  shows "rw_body (cw_inner (tee_drain (length (rd_data b)) (tee_reader b cw) cw)) =
    rw_body (cw_inner cw) @ client_gets (cw_inner cw) (rd_data b)"
proof -
  from tee_reader_ok [OF assms] have tee: "tee_reader b cw = b" and room: "rw_room (length (rd_data b)) (cw_inner cw)" by auto
  from rw_write_room [OF room] show ?thesis
    by (simp add: tee tee_drain_def cw_write_def client_gets_def)
qed

lemma answer_copy_counted:
  assumes "(r, cw', w') = answer_copy st op msg b cw w" and "w_cache_ops w' = o' # w_cache_ops w"
    and "rw_sent (cw_inner cw) = None"
  shows "o' = op \<and> rd_err b = None \<and> rw_body (cw_inner cw') = rw_body (cw_inner cw) @ client_gets (cw_inner cw) (rd_data b) \<and>
    rw_sent (cw_inner cw') = Some (st, cw_header cw)"
proof -
  obtain e cw2 where c: "cw_copy b (cw_write_header st cw) = (e, cw2)" by fastforce
  have "rw_sent (cw_inner cw2) = Some (st, cw_header cw)"
    using cw_copy_sent [of b "cw_write_header st cw"] assms(3) by (simp add: c cw_write_header_sent)
  with assms c cw_copy_ok [of b "cw_write_header st cw" cw2] show ?thesis
    by (auto simp: answer_copy_def count_cache_op_def client_gets_def split: option.splits)
qed

section \<open>Where the bytes come from\<close>

lemma tee_reader_prefix: "\<exists>n. rd_data (tee_reader b cw) = take n (rd_data b)"
  by (auto simp: tee_reader_def intro: exI [of _ "length (rd_data b)"] split: prod.splits option.splits)

lemma cw_write_body: "\<exists>n. rw_body (cw_inner (snd (cw_write bs cw))) = rw_body (cw_inner cw) @ take n bs"
  using rw_write_prefix [of bs "cw_inner cw"] by (simp add: cw_write_def case_prod_beta)

lemma tee_drain_body: "\<exists>j. rw_body (cw_inner (tee_drain c (tee_reader b cw) cw)) = rw_body (cw_inner cw) @ take j (rd_data b)"
proof (cases "c = 0")
  case True
  then show ?thesis by (intro exI [of _ 0]) (simp add: tee_drain_def)
next
  case False
  obtain n where n: "rd_data (tee_reader b cw) = take n (rd_data b)" using tee_reader_prefix by blast
  obtain k where "rw_body (cw_inner (tee_drain c (tee_reader b cw) cw)) = rw_body (cw_inner cw) @ take k (take c (take n (rd_data b)))"
    using cw_write_body [of "take c (take n (rd_data b))" cw] False n by (auto simp: tee_drain_def)
  then show ?thesis by (auto simp: min_def)
qed

lemma answer_copy_body:
  "(r, cw', w') = answer_copy st op msg b cw w \<Longrightarrow> \<exists>j. rw_body (cw_inner cw') = rw_body (cw_inner cw) @ take j (rd_data b)"
  using cw_copy_prefix [of b "cw_write_header st cw"]
  by (auto simp: answer_copy_def split: prod.splits option.splits)

lemma answer_body:
  assumes "answer pk sv env rq ru ca key entry rs cw w = Some (r, cw', w')" and "rw_body (cw_inner cw) = []"
  shows "(\<exists>j. rw_body (cw_inner cw') = take j (rd_data (rs_body rs))) \<or>
    (rs_status rs = 304 \<and> (\<exists>reader j. entry = Some reader \<and> rw_body (cw_inner cw') = take j (rd_data reader)))"
  using assms(1)
proof (cases rule: answer_cases)
  case cached
  then have "\<exists>c. cw' = tee_drain c (tee_reader (rs_body rs) cw) cw"
    by (auto simp: answer_and_cache_def split: prod.splits option.splits)
  then show ?thesis using tee_drain_body [of _ "rs_body rs" cw] assms(2) by auto
next
  case (redirect c ru' reader)
  then have "rw_body (cw_inner cw') = []"
    using assms(2) by (auto simp: answer_redirect_def Let_def split: option.splits sum.splits if_splits)
  then show ?thesis by (intro disjI1 exI [of _ 0]) simp
next
  case (hit reader)
  from answer_copy_body [OF hit(3)] assms(2) hit(1,2) show ?thesis by auto
next
  case passed
  from answer_copy_body [OF passed(2)] assms(2) show ?thesis by auto
qed

section \<open>The chosen cache\<close>

text \<open>The upstream's answer to the request as the handler forwarded it.\<close>

definition upstream_request :: "request \<Rightarrow> metadata \<Rightarrow> request \<Rightarrow> bool" where
  "upstream_request request m urq \<longleftrightarrow>
     (\<exists>u. http_new_request (rq_method request) (url_string (rq_url (fix_url request))) (rq_body request) = Inr u \<and>
        urq = u\<lparr>rq_header := upstream_headers m (fix_url request)\<rparr>)"

definition upstream_answered ::
    "('e, 's, 'n) server \<Rightarrow> 'e request_env \<Rightarrow> request \<Rightarrow> metadata \<Rightarrow> response \<Rightarrow> bool" where
  "upstream_answered sv env request m rs \<longleftrightarrow>
     (\<exists>urq k n n'. upstream_request request m urq \<and> upstream_client sv urq (re_upstream env) urq n = (Inr rs, k, n'))"

lemma fix_url_simps [simp]: "rq_method (fix_url rq) = rq_method rq" "rq_body (fix_url rq) = rq_body rq"
  by (simp_all add: fix_url_def)

lemma upstream_requestI:
  "http_new_request (rq_method (fix_url request)) (url_string (rq_url (fix_url request))) (rq_body (fix_url request)) = Inr u \<Longrightarrow>
     upstream_request request m (u\<lparr>rq_header := upstream_headers m (fix_url request)\<rparr>)"
  by (simp add: upstream_request_def)

definition response_etag :: "response \<Rightarrow> metadata" where
  "response_etag rs = \<lparr>etag = header_get (rs_header (clean_response rs)) ''ETag''\<rparr>"

text \<open>Asking the upstream leaves the cache alone.\<close>

definition upstream_frame ::
    "('e, 's, 'n) server \<Rightarrow> (('s, 'n) world \<Rightarrow> 'k \<rightharpoonup> metadata \<times> string) \<Rightarrow> (('s, 'n) world \<Rightarrow> bool) \<Rightarrow> 'e request_env \<Rightarrow>
     request \<Rightarrow> bool" where
  "upstream_frame sv stored ok env request \<longleftrightarrow>
     (\<forall>m urq w q k n. upstream_request request m urq \<longrightarrow> ok w \<longrightarrow>
        upstream_client sv urq (re_upstream env) urq (w_net w) = (q, k, n) \<longrightarrow>
        ok (w\<lparr>w_net := n\<rparr>) \<and> stored (w\<lparr>w_net := n\<rparr>) = stored w)"

lemma upstream_frameD:
  "upstream_frame sv stored ok env request \<Longrightarrow> upstream_request request m urq \<Longrightarrow> ok w \<Longrightarrow>
     upstream_client sv urq (re_upstream env) urq (w_net w) = (q, k, n) \<Longrightarrow> ok (w\<lparr>w_net := n\<rparr>) \<and> stored (w\<lparr>w_net := n\<rparr>) = stored w"
  unfolding upstream_frame_def by blast

lemma upstream_frame_disk: "upstream_frame sv (\<lambda>w. stored (w_disk w)) (\<lambda>w. ok (w_disk w)) env request"
  by (simp add: upstream_frame_def)

text \<open>No operation on the chosen cache counts anything.\<close>

lemma chosen_ops:
  "w_cache_ops (snd (chosen_get sv ca e w key)) = w_cache_ops w"
  "w_cache_ops (snd (chosen_put sv ca e w key m b)) = w_cache_ops w"
  "w_cache_ops (chosen_close sv ca e w) = w_cache_ops w"
  by (simp_all add: chosen_get_def chosen_put_def chosen_close_def split: option.splits prod.splits)

lemma looked_up_ops: "looked_up sv env ca key w entry m w1 \<Longrightarrow> w_cache_ops w1 = w_cache_ops w"
  using chosen_ops(1) [of sv ca "re_get env" w key] by (auto simp: looked_up_def split: option.splits)

text \<open>
  The body that a client was sent: a beginning of the upstream's answer, or, after a 304, of the entry that the
  cache of the key returned.
\<close>

lemma proxy_body_source:
  assumes "handle_proxy_default pk env sv request cw w = Some (r, cw', w')"
    and "rw_body (cw_inner cw) = []" and "rw_body (cw_inner cw') \<noteq> []"
  shows "\<exists>ca entry m w1 urq rs k n j.
    choose_cache pk sv (proxy_key sv request) = Some ca \<and> looked_up sv env ca (proxy_key sv request) w entry m w1 \<and>
    upstream_request request m urq \<and>
    upstream_client sv urq (re_upstream env) urq (w_net w1) = (Inr rs, k, n) \<and>
    (rw_body (cw_inner cw') = take j (rd_data (rs_body rs)) \<or>
     (rs_status rs = 304 \<and> (\<exists>reader. entry = Some reader \<and> rw_body (cw_inner cw') = take j (rd_data reader))))"
proof -
  have "rq_host request \<noteq> []" using assms by (auto simp: handle_proxy_default_def)
  with assms(1) show ?thesis
  proof (cases rule: proxy_cases)
    case (unavailable ca err w1)
    with assms show ?thesis by simp
  next
    case (forwarded ca entry m w1 w2)
    from forwarded(3) show ?thesis
    proof (cases rule: upstream_cases)
      case unsent
      with assms show ?thesis by simp
    next
      case (unanswered urq e k n)
      with assms show ?thesis by simp
    next
      case (responded urq rs k n)
      from answer_body [OF responded(3)] assms(2)
      have "(\<exists>j. rw_body (cw_inner cw') = take j (rd_data (rs_body rs))) \<or>
        (rs_status rs = 304 \<and> (\<exists>reader j. entry = Some reader \<and> rw_body (cw_inner cw') = take j (rd_data reader)))"
        by (simp add: clean_response_def)
      then obtain j where "rw_body (cw_inner cw') = take j (rd_data (rs_body rs)) \<or>
        (rs_status rs = 304 \<and> (\<exists>reader. entry = Some reader \<and> rw_body (cw_inner cw') = take j (rd_data reader)))"
        by auto
      with forwarded(1,2) responded(2) upstream_requestI [OF responded(1)] show ?thesis
        by (intro exI [of _ ca] exI [of _ entry] exI [of _ m] exI [of _ w1]
            exI [of _ "urq\<lparr>rq_header := upstream_headers m (fix_url request)\<rparr>"] exI [of _ rs] exI [of _ k]
            exI [of _ n] exI [of _ j]) simp
    qed
  qed
qed

context proxied_cache
begin

lemma looked_up_keeps:
  "inv w \<Longrightarrow> looked_up sv env ca key w entry m w1 \<Longrightarrow> inv w1 \<and> stored w1 = stored w"
  by (auto simp: looked_up_def split: option.splits dest: get_inv get_stored)

lemma looked_up_entry:
  "inv w \<Longrightarrow> looked_up sv env ca key w (Some reader) m w1 \<Longrightarrow>
     \<exists>d. stored w (slot key) = Some (m, d) \<and> prefix (rd_data reader) d \<and> (intact (re_get env) \<longrightarrow> reads reader d)"
  by (auto simp: looked_up_def dest: get_sound)

text \<open>What the client was sent, in terms of what the cache had stored.\<close>

lemma proxy_body_stored:
  assumes "inv w" and "choose_cache pk sv (proxy_key sv request) = Some ca"
    and "handle_proxy_default pk env sv request cw w = Some (r, cw', w')"
    and "rw_body (cw_inner cw) = []" and "rw_body (cw_inner cw') \<noteq> []"
  shows "\<exists>m rs. upstream_answered sv env request m rs \<and>
    (prefix (rw_body (cw_inner cw')) (rd_data (rs_body rs)) \<or>
     (rs_status rs = 304 \<and> (\<exists>d. stored w (slot (proxy_key sv request)) = Some (m, d) \<and> prefix (rw_body (cw_inner cw')) d)))"
proof -
  from proxy_body_source [OF assms(3-5)] obtain ca' entry m w1 urq rs k n j where
    ca: "choose_cache pk sv (proxy_key sv request) = Some ca'" and l: "looked_up sv env ca' (proxy_key sv request) w entry m w1"
    and u: "upstream_request request m urq" "upstream_client sv urq (re_upstream env) urq (w_net w1) = (Inr rs, k, n)"
    and b: "rw_body (cw_inner cw') = take j (rd_data (rs_body rs)) \<or>
      (rs_status rs = 304 \<and> (\<exists>reader. entry = Some reader \<and> rw_body (cw_inner cw') = take j (rd_data reader)))"
    by blast
  from ca assms(2) have [simp]: "ca' = ca" by simp
  have "upstream_answered sv env request m rs" unfolding upstream_answered_def using u by blast
  moreover have "\<exists>d. stored w (slot (proxy_key sv request)) = Some (m, d) \<and> prefix (take j (rd_data reader)) d"
    if "entry = Some reader" for reader
  proof -
    from l that have "looked_up sv env ca (proxy_key sv request) w (Some reader) m w1" by simp
    from looked_up_entry [OF assms(1) this] obtain d where
      "stored w (slot (proxy_key sv request)) = Some (m, d)" "prefix (rd_data reader) d" by blast
    then show ?thesis using prefix_order.trans [OF take_is_prefix] by blast
  qed
  ultimately show ?thesis using b take_is_prefix [of j "rd_data (rs_body rs)"] by (intro exI [of _ m] exI [of _ rs]) auto
qed

lemma answer_copy_keeps:
  assumes "inv w" and "(r, cw', w') = answer_copy st op msg b cw w"
  shows "inv w' \<and> stored w' = stored w"
  using assms by (auto simp: answer_copy_def count_inv count_stored split: prod.splits option.splits)

lemma answer_and_cache_keeps:
  assumes inv: "inv w" and a: "(r, cw', w') = answer_and_cache sv env ca key rs cw w"
  shows "inv w'"
    and "stored w' \<subseteq>\<^sub>m stored w \<or> (rd_err (rs_body rs) = None \<and> stored w' \<subseteq>\<^sub>m (stored w)
       (slot key \<mapsto> (coerce_metadata \<lparr>etag = header_get (rs_header rs) ''ETag''\<rparr>, rd_data (rs_body rs))))"
    and "w_cache_ops w' = o' # w_cache_ops w \<Longrightarrow> o' = ''miss'' \<and> rd_err (rs_body rs) = None \<and>
       rw_body (cw_inner cw') = rw_body (cw_inner cw) @ client_gets (cw_inner cw) (rd_data (rs_body rs))"
proof -
  let ?m = "\<lparr>etag = header_get (rs_header rs) ''ETag''\<rparr>" and ?t = "tee_reader (rs_body rs) cw"
  obtain e c w1 where p: "chosen_put sv ca (re_put env) w key ?m ?t = ((e, c), w1)" by (metis prod.collapse)
  have ops: "w_cache_ops w1 = w_cache_ops w" using chosen_ops(2) [of sv ca "re_put env" w key ?m ?t] p by simp
  have w': "w' = (case e of None \<Rightarrow> count_cache_op ''miss'' w1 | Some _ \<Rightarrow> w1)" and cw': "cw' = tee_drain c ?t cw"
    using a by (simp_all add: answer_and_cache_def p split: option.splits)
  from put_inv [OF inv p] show "inv w'" by (simp add: w' count_inv split: option.splits)
  have t: "?t = rs_body rs" if "rd_err ?t = None" using tee_reader_ok [OF that] by blast
  have "stored w1 \<subseteq>\<^sub>m stored w \<or> (rd_err ?t = None \<and> stored w1 \<subseteq>\<^sub>m (stored w)(slot key \<mapsto> (coerce_metadata ?m, rd_data ?t)))"
    using put_ok [OF inv] put_failed [OF inv] p by (cases e) blast+
  with t show "stored w' \<subseteq>\<^sub>m stored w \<or>
      (rd_err (rs_body rs) = None \<and> stored w' \<subseteq>\<^sub>m (stored w)(slot key \<mapsto> (coerce_metadata ?m, rd_data (rs_body rs))))"
    by (auto simp: w' count_stored simp del: fun_upd_apply split: option.splits)
  show "o' = ''miss'' \<and> rd_err (rs_body rs) = None \<and>
      rw_body (cw_inner cw') = rw_body (cw_inner cw) @ client_gets (cw_inner cw) (rd_data (rs_body rs))"
    if "w_cache_ops w' = o' # w_cache_ops w"
  proof -
    from that have e: "e = None" "o' = ''miss''" by (auto simp: w' ops count_cache_op_def split: option.splits)
    with p put_ok [OF inv] have ok: "rd_err ?t = None" "c = length (rd_data ?t)" by blast+
    from tee_drain_all [OF ok(1)] ok t e(2) show ?thesis by (simp add: cw')
  qed
qed

text \<open>What one answer does to the cache.\<close>

lemma answer_keeps:
  assumes inv: "inv w" and a: "answer pk sv env rq ru ca key entry rs cw w = Some (r, cw', w')"
  shows "inv w' \<and> (stored w' \<subseteq>\<^sub>m stored w \<or>
     (rs_status rs = 200 \<and> should_cache rq rs ru \<and> rd_err (rs_body rs) = None \<and>
      stored w' \<subseteq>\<^sub>m (stored w)(slot key \<mapsto> (coerce_metadata \<lparr>etag = header_get (rs_header rs) ''ETag''\<rparr>, rd_data (rs_body rs)))))"
  using a
proof (cases rule: answer_cases)
  case cached
  with answer_and_cache_keeps(1,2) [OF inv cached(3)] show ?thesis by auto
next
  case (redirect c ru' reader)
  then have "w' = w" by (auto simp: answer_redirect_def Let_def split: option.splits sum.splits)
  with inv show ?thesis by simp
next
  case (hit reader)
  with answer_copy_keeps [OF inv hit(3)] show ?thesis by simp
next
  case passed
  with answer_copy_keeps [OF inv passed(2)] show ?thesis by simp
qed

text \<open>
  A proxied request changes the cache of its key only by forgetting entries, or by storing the complete body
  of a cacheable upstream answer under the key.
\<close>

lemma proxy_cache_faithful:
  assumes inv: "inv w" and frame: "upstream_frame sv stored inv env request"
    and chosen: "choose_cache pk sv (proxy_key sv request) = Some ca"
    and h: "handle_proxy_default pk env sv request cw w = Some (r, cw', w')"
  shows "inv w' \<and> (stored w' \<subseteq>\<^sub>m stored w \<or>
    (\<exists>m rs. upstream_answered sv env request m rs \<and> rs_status rs = 200 \<and>
       should_cache (fix_url request) (clean_response rs) (proxy_rule sv request) \<and> rd_err (rs_body rs) = None \<and>
       stored w' \<subseteq>\<^sub>m (stored w)
         (slot (proxy_key sv request) \<mapsto> (coerce_metadata (response_etag rs), rd_data (rs_body rs)))))"
proof (cases "rq_host request = []")
  case True
  with h inv show ?thesis by (auto simp: handle_proxy_default_def)
next
  case False
  from h False show ?thesis
  proof (cases rule: proxy_cases)
    case (unavailable ca' err w1)
    with chosen get_inv [OF inv] get_stored [OF inv] show ?thesis by auto
  next
    case (forwarded ca' entry m w1 w2)
    then have ca: "ca' = ca" using chosen by simp
    from looked_up_keeps [OF inv forwarded(2) [unfolded ca]] have w1: "inv w1" "stored w1 = stored w" by auto
    have fin: "inv w' \<and> stored w' = stored w2" if "inv w2"
      using that chosen_close_inv [OF that] chosen_close_stored [OF that] by (simp add: forwarded(4) ca split: option.splits)
    from forwarded(3) show ?thesis
    proof (cases rule: upstream_cases)
      case unsent
      with w1 fin show ?thesis by simp
    next
      case (unanswered urq e k n)
      with upstream_frameD [OF frame upstream_requestI [OF unanswered(4)] w1(1) unanswered(5)] w1 fin show ?thesis by simp
    next
      case (responded urq rs k n)
      note req = upstream_requestI [OF responded(1), of m]
      note net = upstream_frameD [OF frame req w1(1) responded(2)]
      have ans: "upstream_answered sv env request m rs"
        unfolding upstream_answered_def using req responded(2) by blast
      note a = answer_keeps [OF conjunct1 [OF net] responded(3) [unfolded ca]]
      from a w1(2) net fin ans show ?thesis by (auto simp: response_etag_def clean_response_def)
    qed
  qed
qed

text \<open>An exchange that was counted was handed over completely.\<close>

lemma answer_counted:
  assumes inv: "inv w" and a: "answer pk sv env rq ru ca key entry rs cw w = Some (r, cw', w')"
    and counted: "w_cache_ops w' = op # w_cache_ops w"
    and fresh: "rw_sent (cw_inner cw) = None" "rw_body (cw_inner cw) = []"
  shows "(op = ''miss'' \<and> rs_status rs = 200 \<and> should_cache rq rs ru \<and> rd_err (rs_body rs) = None \<and>
      rw_body (cw_inner cw') = client_gets (cw_inner cw) (rd_data (rs_body rs))) \<or>
    (op = ''hit'' \<and> rs_status rs = 304 \<and> (\<exists>reader. entry = Some reader \<and> rd_err reader = None \<and>
      rw_body (cw_inner cw') = client_gets (cw_inner cw) (rd_data reader) \<and> rw_sent (cw_inner cw') = Some (200, cw_header cw))) \<or>
    (op = ''not-allowed'' \<and> rd_err (rs_body rs) = None \<and> rw_body (cw_inner cw') = client_gets (cw_inner cw) (rd_data (rs_body rs)) \<and>
      rw_sent (cw_inner cw') = Some (rs_status rs, cw_header cw))"
  using a
proof (cases rule: answer_cases)
  case cached
  with answer_and_cache_keeps(3) [OF inv cached(3) counted] fresh show ?thesis by auto
next
  case (redirect c ru' reader)
  then have "w' = w" by (auto simp: answer_redirect_def Let_def split: option.splits sum.splits)
  with counted show ?thesis by simp
next
  case (hit reader)
  with answer_copy_counted [OF hit(3) counted fresh(1)] fresh show ?thesis by auto
next
  case passed
  with answer_copy_counted [OF passed(2) counted fresh(1)] fresh show ?thesis by auto
qed

lemma proxy_counted_complete:
  assumes inv: "inv w" and frame: "upstream_frame sv stored inv env request"
    and chosen: "choose_cache pk sv (proxy_key sv request) = Some ca"
    and h: "handle_proxy_default pk env sv request cw w = Some (r, cw', w')"
    and counted: "w_cache_ops w' = op # w_cache_ops w"
    and fresh: "rw_sent (cw_inner cw) = None" "rw_body (cw_inner cw) = []"
  shows "\<exists>m rs. upstream_answered sv env request m rs \<and>
    ((op = ''miss'' \<and> rs_status rs = 200 \<and> should_cache (fix_url request) (clean_response rs) (proxy_rule sv request) \<and>
        rd_err (rs_body rs) = None \<and> rw_body (cw_inner cw') = client_gets (cw_inner cw) (rd_data (rs_body rs))) \<or>
     (op = ''hit'' \<and> rs_status rs = 304 \<and> (\<exists>h. rw_sent (cw_inner cw') = Some (200, h)) \<and>
        (\<exists>d d'. stored w (slot (proxy_key sv request)) = Some (m, d) \<and> prefix d' d \<and> (intact (re_get env) \<longrightarrow> d' = d) \<and>
           rw_body (cw_inner cw') = client_gets (cw_inner cw) d')) \<or>
     (op = ''not-allowed'' \<and> rd_err (rs_body rs) = None \<and>
        rw_body (cw_inner cw') = client_gets (cw_inner cw) (rd_data (rs_body rs)) \<and>
        (\<exists>h. rw_sent (cw_inner cw') = Some (rs_status rs, h))))"
proof (cases "rq_host request = []")
  case True
  with h counted show ?thesis by (auto simp: handle_proxy_default_def)
next
  case False
  from h False show ?thesis
  proof (cases rule: proxy_cases)
    case (unavailable ca' err w1)
    with chosen_ops(1) [of sv ca' "re_get env" w "proxy_key sv request"] counted show ?thesis by simp
  next
    case (forwarded ca' entry m w1 w2)
    then have ca: "ca' = ca" using chosen by simp
    note w1 = looked_up_keeps [OF inv forwarded(2) [unfolded ca]] looked_up_ops [OF forwarded(2)]
    have ops: "w_cache_ops w2 = w_cache_ops w'" by (simp add: forwarded(4) chosen_ops(3) split: option.splits)
    from forwarded(3) show ?thesis
    proof (cases rule: upstream_cases)
      case unsent
      with w1 ops counted show ?thesis by simp
    next
      case (unanswered urq e k n)
      with w1 ops counted show ?thesis by simp
    next
      case (responded urq rs k n)
      note req = upstream_requestI [OF responded(1), of m]
      note net = upstream_frameD [OF frame req conjunct1 [OF w1(1)] responded(2)]
      have ans: "upstream_answered sv env request m rs"
        unfolding upstream_answered_def using req responded(2) by blast
      have "w_cache_ops w2 = op # w_cache_ops (w1\<lparr>w_net := n\<rparr>)" using ops counted w1(2) by simp
      note c = answer_counted [OF conjunct1 [OF net] responded(3) [unfolded ca] this, simplified cw_header_simps, OF fresh]
      have entry: "\<exists>d d'. stored w (slot (proxy_key sv request)) = Some (m, d) \<and> prefix d' d \<and>
          (intact (re_get env) \<longrightarrow> d' = d) \<and> b = client_gets (cw_inner cw) d'"
        if "entry = Some reader" "rd_err reader = None" "b = client_gets (cw_inner cw) (rd_data reader)" for reader b
      proof -
        from forwarded(2) that(1) ca have "looked_up sv env ca (proxy_key sv request) w (Some reader) m w1" by simp
        from looked_up_entry [OF inv this] obtain d where
          "stored w (slot (proxy_key sv request)) = Some (m, d)" "prefix (rd_data reader) d" "intact (re_get env) \<longrightarrow> reads reader d"
          by blast
        with that(2,3) readsD(2) show ?thesis by (intro exI [of _ d] exI [of _ "rd_data reader"]) simp
      qed
      from c consider (miss) "op = ''miss''" "rs_status rs = 200"
          "should_cache (fix_url request) (clean_response rs) (proxy_rule sv request)" "rd_err (rs_body rs) = None"
          "rw_body (cw_inner cw') = client_gets (cw_inner cw) (rd_data (rs_body rs))"
        | (hit) reader h where "op = ''hit''" "rs_status rs = 304" "entry = Some reader" "rd_err reader = None"
          "rw_body (cw_inner cw') = client_gets (cw_inner cw) (rd_data reader)" "rw_sent (cw_inner cw') = Some (200, h)"
        | (passed) h where "op = ''not-allowed''" "rd_err (rs_body rs) = None"
          "rw_body (cw_inner cw') = client_gets (cw_inner cw) (rd_data (rs_body rs))" "rw_sent (cw_inner cw') = Some (rs_status rs, h)"
        by (simp only: clean_response_simps client_gets_header cw_header_simps simp_thms) (elim disjE conjE exE, assumption+)
      then show ?thesis
      proof cases
        case miss
        with ans show ?thesis by blast
      next
        case (hit reader h)
        with ans entry [OF hit(3-5)] show ?thesis by blast
      next
        case (passed h)
        with ans show ?thesis by blast
      qed
    qed
  qed
qed

end

section \<open>A miss and a hit\<close>

text \<open>The client's writer with the headers of the upstream's answer, and the length that they announce.\<close>

definition answered :: "response \<Rightarrow> capturing_writer \<Rightarrow> capturing_writer" where
  "answered rs cw = cw_set_header (propagate (rs_header (clean_response rs)) (cw_header cw)) cw"

definition announced :: "response \<Rightarrow> nat option" where
  "announced rs = declared_length (propagate (rs_header (clean_response rs)) [])"

lemma answered_room:
  assumes "announced rs \<in> {None, Some n}"
  shows "rw_room n (cw_inner (answered rs (cw_wrap (writer_for rq None))))"
  using assms by (auto simp: rw_room_def rw_answer_def answered_def announced_def cw_header_def cw_set_header_def cw_wrap_def body_allowed_def)

text \<open>How the handler serves a request: not in the cache and to be kept, and in the cache and up to date.\<close>

lemma proxy_miss:
  assumes "rq_host request \<noteq> []" and "choose_cache pk sv (proxy_key sv request) = Some ca"
    and "chosen_get sv ca (re_get env) w (proxy_key sv request) = (Inl ErrNotFound, w1)"
    and "upstream_request request no_metadata urq"
    and "upstream_client sv urq (re_upstream env) urq (w_net w1) = (Inr rs, k, n)"
    and "rs_status rs = 200" and "should_cache (fix_url request) (clean_response rs) (proxy_rule sv request)"
    and "rd_err (rs_body rs) = None"
    and "rw_room (length (rd_data (rs_body rs))) (cw_inner (answered rs cw))"
    and "chosen_put sv ca (re_put env) (w1\<lparr>w_net := n\<rparr>) (proxy_key sv request) (response_etag rs) (rs_body rs) =
      ((None, length (rd_data (rs_body rs))), w2)"
  shows "\<exists>cw'. handle_proxy_default pk env sv request cw w =
      Some (Empty ''fetched from the upstream, cache entry is outdated'', cw', count_cache_op ''miss'' w2) \<and>
    rw_body (cw_inner cw') = rw_body (cw_inner cw) @ client_gets (cw_inner cw) (rd_data (rs_body rs))"
proof -
  let ?cw = "cw_set_header (propagate (rs_header (clean_response rs)) (cw_header cw)) cw" and ?rs = "clean_response rs"
  have rs: "rs_body ?rs = rs_body rs" "rs_status ?rs = 200" using assms(6) by (simp_all add: clean_response_def)
  have tee: "tee_reader (rs_body rs) ?cw = rs_body rs" using assms(9) by (simp add: tee_reader_room answered_def)
  let ?cw' = "tee_drain (length (rd_data (rs_body rs))) (rs_body rs) ?cw"
  have body: "rw_body (cw_inner ?cw') = rw_body (cw_inner cw) @ client_gets (cw_inner cw) (rd_data (rs_body rs))"
    using tee_drain_all [of "rs_body rs" ?cw] assms(8) by (simp add: tee client_gets_def)
  have "answer pk sv env (fix_url request) (proxy_rule sv request) ca (proxy_key sv request) None ?rs ?cw (w1\<lparr>w_net := n\<rparr>) =
      Some (Empty ''fetched from the upstream, cache entry is outdated'', ?cw', count_cache_op ''miss'' w2)"
    using assms(7,10) rs tee by (simp add: answer_def answer_and_cache_def response_etag_def)
  moreover obtain u where "http_new_request (rq_method request) (url_string (rq_url (fix_url request))) (rq_body request) = Inr u"
    "urq = u\<lparr>rq_header := upstream_headers no_metadata (fix_url request)\<rparr>"
    using assms(4) by (auto simp: upstream_request_def)
  ultimately have "proxy_upstream pk sv env (fix_url request) (proxy_rule sv request) ca (proxy_key sv request) None no_metadata cw w1 =
      Some (Empty ''fetched from the upstream, cache entry is outdated'', ?cw', count_cache_op ''miss'' w2)"
    using assms(5) by (simp add: proxy_upstream_def Let_def)
  with assms(1-3) body show ?thesis
    by (simp add: handle_proxy_default_def Let_def flip: proxy_rule_def proxy_key_def)
qed

lemma proxy_hit:
  assumes "rq_host request \<noteq> []" and "choose_cache pk sv (proxy_key sv request) = Some ca"
    and "chosen_get sv ca (re_get env) w (proxy_key sv request) = (Inr (reader, m), w1)"
    and "upstream_request request m urq"
    and "upstream_client sv urq (re_upstream env) urq (w_net w1) = (Inr rs, k, n)" and "rs_status rs = 304"
    and "\<forall>ru. proxy_rule sv request = Some ru \<longrightarrow> \<not> directConnect ru"
    and "rd_err reader = None" and "rw_room (length (rd_data reader)) (cw_inner (answered rs cw))" and "rw_sent (cw_inner cw) = None"
  shows "\<exists>cw' h. handle_proxy_default pk env sv request cw w =
      Some (Empty ''retrieved from the cache'', cw', chosen_close sv ca (re_close env) (count_cache_op ''hit'' (w1\<lparr>w_net := n\<rparr>))) \<and>
    rw_body (cw_inner cw') = rw_body (cw_inner cw) @ client_gets (cw_inner cw) (rd_data reader) \<and> rw_sent (cw_inner cw') = Some (200, h)"
proof -
  let ?cw = "cw_set_header (propagate (rs_header (clean_response rs)) (cw_header cw)) cw" and ?rs = "clean_response rs"
  have room: "rw_room (length (rd_data reader)) (cw_inner (cw_write_header 200 ?cw))"
    using assms(9,10) by (simp add: answered_def rw_room_def rw_answer_def cw_write_header_sent cw_header_def cw_set_header_def)
  have rs: "rs_status ?rs = 304" using assms(6) by (simp add: clean_response_def)
  obtain e cw' where c: "cw_copy reader (cw_write_header 200 ?cw) = (e, cw')" by fastforce
  with assms(8) cw_copy_room [OF room] have e: "e = None" by simp
  have body: "rw_body (cw_inner cw') = rw_body (cw_inner cw) @ client_gets (cw_inner cw) (rd_data reader)"
    using cw_copy_ok [of reader "cw_write_header 200 ?cw" cw'] c e by (simp add: client_gets_def)
  have sent: "rw_sent (cw_inner cw') = Some (200, cw_header ?cw)"
    using cw_copy_sent [of reader "cw_write_header 200 ?cw"] assms(10) by (simp add: c cw_write_header_sent)
  have "answer pk sv env (fix_url request) (proxy_rule sv request) ca (proxy_key sv request) (Some reader) ?rs ?cw (w1\<lparr>w_net := n\<rparr>) =
      Some (Empty ''retrieved from the cache'', cw', count_cache_op ''hit'' (w1\<lparr>w_net := n\<rparr>))"
    using assms(7) rs c e by (auto simp: answer_def answer_copy_def split: option.splits)
  moreover obtain u where "http_new_request (rq_method request) (url_string (rq_url (fix_url request))) (rq_body request) = Inr u"
    "urq = u\<lparr>rq_header := upstream_headers m (fix_url request)\<rparr>"
    using assms(4) by (auto simp: upstream_request_def)
  ultimately have "proxy_upstream pk sv env (fix_url request) (proxy_rule sv request) ca (proxy_key sv request) (Some reader) m cw w1 =
      Some (Empty ''retrieved from the cache'', cw', count_cache_op ''hit'' (w1\<lparr>w_net := n\<rparr>))"
    using assms(5) by (simp add: proxy_upstream_def Let_def)
  with assms(1-3) body sent show ?thesis
    by (simp add: handle_proxy_default_def Let_def flip: proxy_rule_def proxy_key_def)
qed

section \<open>Instances\<close>

definition disk_ops :: "disk \<Rightarrow> (os_env, fs) cache_ops" where
  "disk_ops d = \<lparr>co_get = disk_get, co_put = disk_put d, co_close = reader_close\<rparr>"

definition noop_ops :: "('e, 's) cache_ops" where
  "noop_ops = \<lparr>co_get = noop_get, co_put = noop_put, co_close = (\<lambda>e s. (None, s))\<rparr>"

interpretation dlp: local_proxy disk_get "disk_put d" path_name disk_stored disk_inv reader_close "sv\<lparr>sv_disk := disk_ops d\<rparr>" for d sv
  by unfold_locales (simp_all add: reader_close_def os_close_def disk_ops_def)

interpretation nlp: local_proxy noop_get noop_put "\<lambda>k. k" "\<lambda>_ _. None" "\<lambda>_. True" "\<lambda>e s. (None, s)" "sv\<lparr>sv_disk := noop_ops\<rparr>" for sv
  by unfold_locales (simp_all add: noop_ops_def)

lemma disk_server_eq: "sv_disk sv = disk_ops d \<Longrightarrow> sv\<lparr>sv_disk := disk_ops d\<rparr> = sv"
  by (cases sv) simp

end
