(* ===== verification/ServerProps.thy ===== *)
theory ServerProps
  imports Server
begin

text \<open>
  Properties of the cluster handlers and of direct connect: who gets in, what they get, and that
  a token issued by one node opens exactly its key at another.
\<close>

section \<open>Cluster authentication\<close>

lemma cluster_auth_cases:
  "(\<exists>st msg. perform_cluster_auth sv rq = Some (Code st msg) \<and> st \<in> {401, 404}) \<or>
   (\<exists>c u. perform_cluster_auth sv rq = None \<and> sv_cluster sv = Some c \<and> basic_auth (rq_header rq) = Some (u, cl_secret c))"
  by (auto simp: perform_cluster_auth_def split: option.splits)

text \<open>
  C28. Without the cluster secret nothing of the local cache is reachable through the cluster
  protocol: a request with no or another password is answered with 401 (404 outside cluster mode),
  the cache is neither read nor written and no byte goes to the requester.
\<close>

theorem cluster_requires_secret:
  assumes "\<forall>c u. sv_cluster sv = Some c \<longrightarrow> basic_auth (rq_header rq) \<noteq> Some (u, cl_secret c)"
  shows "\<exists>st msg. st \<in> {401, 404} \<and> handle_cluster_get env sv rq cw w = (Code st msg, cw, w) \<and>
    handle_cluster_put env sv rq w = (Code st msg, 0, w)"
proof -
  obtain st msg where "perform_cluster_auth sv rq = Some (Code st msg)" "st \<in> {401, 404}"
    using cluster_auth_cases [of sv rq] assms by blast
  then show ?thesis by (auto simp: handle_cluster_get_def handle_cluster_put_def)
qed

definition sample_server :: "(unit, unit, unit) server" where
  "sample_server =
     \<lparr>sv_listener = ''10.0.0.1:8080'', sv_internal = (\<lambda>e rq n. (Inl ErrEOF, 0, n)),
      sv_external = (\<lambda>e rq n. (Inl ErrEOF, 0, n)),
      sv_disk = \<lparr>co_get = noop_get, co_put = noop_put, co_close = (\<lambda>e s. (None, s))\<rparr>, sv_tls = None,
      sv_rules = [sample_rule], sv_cluster = Some (cluster_new ''s'' ''10.0.0.1:8080'' [''10.0.0.1:8080''])\<rparr>"

definition sample_world :: "(unit, unit) world" where
  "sample_world = \<lparr>w_disk = (), w_net = (), w_cache_ops = [], w_requests = [], w_log = []\<rparr>"

definition sample_renv :: "unit request_env" where
  "sample_renv = \<lparr>re_get = (), re_upstream = (), re_put = (), re_close = (), re_now = 1000 * second\<rparr>"

theorem cluster_requires_secret_witness:
  "\<exists>st msg. st \<in> {401, 404} \<and>
     handle_cluster_get sample_renv sample_server (sample_request []) (cw_wrap (fresh_writer None)) sample_world =
       (Code st msg, cw_wrap (fresh_writer None), sample_world) \<and>
     handle_cluster_put sample_renv sample_server (sample_request []) sample_world = (Code st msg, 0, sample_world)"
  by (rule cluster_requires_secret) (simp add: sample_request_def basic_auth_def)

section \<open>Direct connect\<close>

lemma query_semicolon [simp]: "CHR '';'' \<notin> set (escape EncQuery s)"
  by (rule escape_free; simp add: should_escape_def is_letter_def is_digit_def)

lemma parse_query_single: "parse_query (values_encode [(k, [v])]) = [(k, [v])]"
proof -
  have "CHR ''&'' \<notin> set (encode_pair (k, v))" by (rule encode_pair_facts)
  then have "parse_query (values_encode [(k, [v])]) = query_pair [] (encode_pair (k, v))"
    by (simp add: parse_query_def values_encode_def values_pairs_def)
  also have "\<dots> = [(k, [v])]"
    by (simp add: query_pair_def encode_pair_def strings_cut_append unescape_escape values_add_def)
  finally show ?thesis .
qed

lemma token_accepted:
  assumes "jwt_complete pk" and "sv_cluster sv = Some c" and "sv_cluster sv' = Some c'" and "cl_secret c' = cl_secret c"
    and "generate_direct_connect_token pk now sv key = Inr tok"
    and "u_rawquery (rq_url rq) = values_encode (values_set [] ''token'' tok)"
    and "now - jwtLeeway \<le> now'" and "now' \<le> now + jwtValidity + 9 * second"
  shows "perform_direct_connect_auth pk now' sv' rq = Inr key"
proof -
  let ?c = "\<lparr>cm_issuer = jwtIssuerChacha, cm_audience = [jwtAudienceDirectConnect], cm_subject = key,
    cm_not_before = numeric_date now, cm_expires_at = numeric_date (now + jwtValidity)\<rparr>"
  have sign: "pk_jwt_sign pk (cl_secret c) ?c = Inr tok"
    using assms(2,5) by (simp add: generate_direct_connect_token_def)
  have "now div second * second \<le> now" "(now + jwtValidity) < (now + jwtValidity) div second * second + second"
    by (simp_all add: second_def)
  then have "claims_current now' jwtLeeway ?c"
    using assms(7,8) by (simp add: claims_current_def numeric_date_def jwtLeeway_def second_def)
  with assms(1,4) sign have parse: "pk_jwt_parse pk now' jwtLeeway (cl_secret c') tok = Inr (token_of ?c)" "tok \<noteq> []"
    by (metis jwt_complete_def)+
  have "values_get (parse_query (u_rawquery (rq_url rq))) ''token'' = tok"
    by (simp add: assms(6) values_set_def parse_query_single values_get_def)
  then show ?thesis
    using parse assms(3) by (simp add: perform_direct_connect_auth_def token_of_def Let_def)
qed

text \<open>
  A direct-connect token works where it is redirected to. The token one node issues for a key
  is accepted by every node with the same cluster secret, at any time from ten seconds before the
  issue (clock skew) until ten minutes and nine seconds after it, and gives access to exactly that
  key; the query string of the redirect carries it unchanged.
\<close>

theorem direct_connect_token_accepted:
  assumes "jwt_complete pk" and "sv_cluster sv = Some c" and "sv_cluster sv' = Some c'" and "cl_secret c' = cl_secret c"
    and "generate_direct_connect_token pk now sv key = Inr tok"
    and "u_rawquery (rq_url rq) = values_encode (values_set [] ''token'' tok)"
    and "now - jwtLeeway \<le> now'" and "now' \<le> now + jwtValidity + 9 * second"
  shows "perform_direct_connect_auth pk now' sv' rq = Inr key"
  by (rule token_accepted [OF assms])

text \<open>
  C27. Nothing but a token of the cluster gets in, and a token opens one key for a limited time. When the check passes, the
  request carries a token whose signature is valid under the cluster secret, for issuer \<^verbatim>\<open>chacha\<close> and audience
  \<^verbatim>\<open>direct-connect\<close>, within those time limits that it has, and its subject is the very key that is then served. If the
  token is one that a node with that secret has issued for a redirect, then it was issued for this key, less than ten
  minutes and ten seconds ago, or, when the clocks are apart, less than eleven seconds from now (times are
  truncated to seconds).
\<close>

theorem direct_connect_auth_sound:
  assumes "jwt_sound pk" and "perform_direct_connect_auth pk now sv rq = Inr key"
    and "tok = values_get (parse_query (u_rawquery (rq_url rq))) ''token''"
  shows "\<exists>c pt. sv_cluster sv = Some c \<and> tok \<noteq> [] \<and> pk_jwt_parse pk now jwtLeeway (cl_secret c) tok = Inr pt \<and>
    pk_jwt_verify pk (cl_secret c) tok \<and> token_current now jwtLeeway pt \<and> pt_issuer pt = Inr jwtIssuerChacha \<and>
    (\<exists>audience. pt_audience pt = Inr audience \<and> jwtAudienceDirectConnect \<in> set audience) \<and> pt_subject pt = Inr key \<and>
    (\<forall>issuer c0 now0 key0. sv_cluster issuer = Some c0 \<and> cl_secret c0 = cl_secret c \<and> valid_utf8 key0 \<and>
       generate_direct_connect_token pk now0 issuer key0 = Inr tok \<longrightarrow>
       key0 = key \<and> now0 - now < jwtLeeway + second \<and> now - now0 < jwtValidity + jwtLeeway)"
proof -
  from assms(2,3) obtain c pt where c: "sv_cluster sv = Some c" "tok \<noteq> []"
    and pt: "pk_jwt_parse pk now jwtLeeway (cl_secret c) tok = Inr pt"
    and f: "pt_issuer pt = Inr jwtIssuerChacha" "pt_subject pt = Inr key"
      "\<exists>a. pt_audience pt = Inr a \<and> jwtAudienceDirectConnect \<in> set a"
    by (auto simp: perform_direct_connect_auth_def Let_def split: option.splits if_splits sum.splits)
  from assms(1) pt have v: "pk_jwt_verify pk (cl_secret c) tok" "token_current now jwtLeeway pt"
    and signed: "\<And>cm. utf8_claims cm \<Longrightarrow> pk_jwt_sign pk (cl_secret c) cm = Inr tok \<Longrightarrow> pt = token_of cm"
    unfolding jwt_sound_def by blast+
  have "key0 = key \<and> now0 - now < jwtLeeway + second \<and> now - now0 < jwtValidity + jwtLeeway"
    if i: "sv_cluster issuer = Some c0" "cl_secret c0 = cl_secret c" "valid_utf8 key0"
      and g: "generate_direct_connect_token pk now0 issuer key0 = Inr tok" for issuer :: "('x, 'y, 'z) server" and c0 now0 key0
  proof -
    let ?cm = "\<lparr>cm_issuer = jwtIssuerChacha, cm_audience = [jwtAudienceDirectConnect], cm_subject = key0,
      cm_not_before = numeric_date now0, cm_expires_at = numeric_date (now0 + jwtValidity)\<rparr>"
    have u: "utf8_claims ?cm"
      using i(3) by (simp add: utf8_claims_def jwtIssuerChacha_def jwtAudienceDirectConnect_def valid_utf8_ascii is_ascii_def)
    have "pk_jwt_sign pk (cl_secret c) ?cm = Inr tok" using g i(1,2) by (simp add: generate_direct_connect_token_def)
    from signed [OF u this] have "pt = token_of ?cm" .
    with f(2) v(2) have "key0 = key" "numeric_date now0 * second - jwtLeeway \<le> now" "now < numeric_date (now0 + jwtValidity) * second + jwtLeeway"
      by (simp_all add: token_of_def token_current_def)
    moreover have "now0 < numeric_date now0 * second + second" "numeric_date (now0 + jwtValidity) * second \<le> now0 + jwtValidity"
      by (simp_all add: numeric_date_def second_def)
    ultimately show ?thesis by linarith
  qed
  with c pt f v show ?thesis by blast
qed

text \<open>A package that signs one set of claims, for the witnesses.\<close>

definition sample_claims :: claims where
  "sample_claims = \<lparr>cm_issuer = ''chacha'', cm_audience = [''direct-connect''], cm_subject = ''k'',
     cm_not_before = 1000, cm_expires_at = 1600\<rparr>"

definition sample_packages :: packages where
  "sample_packages =
     \<lparr>pk_hrw = sample_hrw,
      pk_jwt_sign = (\<lambda>secret c. if secret = ''s'' \<and> c = sample_claims then Inr ''tok'' else Inl ErrEOF),
      pk_jwt_verify = (\<lambda>secret tok. secret = ''s'' \<and> tok = ''tok''),
      pk_jwt_parse = (\<lambda>now leeway secret tok.
        if secret = ''s'' \<and> tok = ''tok'' \<and> claims_current now leeway sample_claims
        then Inr (token_of sample_claims) else Inl ErrEOF)\<rparr>"

lemma sample_packages_laws: "jwt_complete sample_packages" "jwt_sound sample_packages"
  by (auto simp: jwt_complete_def jwt_sound_def sample_packages_def token_current_def token_of_def claims_current_def split: if_splits)

definition token_request :: request where
  "token_request = sample_request (values_encode (values_set [] ''token'' ''tok''))"

lemma sample_token:
  "generate_direct_connect_token sample_packages (1000 * second) sample_server ''k'' = Inr ''tok''"
  by (simp add: generate_direct_connect_token_def sample_server_def sample_packages_def sample_claims_def
      numeric_date_def second_def jwtValidity_def jwtIssuerChacha_def jwtAudienceDirectConnect_def cluster_new_def)

theorem direct_connect_token_accepted_witness:
  "perform_direct_connect_auth sample_packages (1500 * second) sample_server token_request = Inr ''k''"
proof (rule direct_connect_token_accepted [where sv = sample_server and now = "1000 * second"])
  show "generate_direct_connect_token sample_packages (1000 * second) sample_server ''k'' = Inr ''tok''"
    by (rule sample_token)
  show "u_rawquery (rq_url token_request) = values_encode (values_set [] ''token'' ''tok'')"
    by (simp add: token_request_def sample_request_def)
qed (simp_all add: sample_packages_laws sample_server_def jwtLeeway_def jwtValidity_def second_def)

theorem direct_connect_auth_sound_witness:
  "perform_direct_connect_auth sample_packages (1500 * second) sample_server token_request = Inr ''k'' \<and>
   pk_jwt_verify sample_packages ''s'' ''tok'' \<and>
   generate_direct_connect_token sample_packages (1000 * second) sample_server ''k'' = Inr ''tok'' \<and>
   1500 * second - 1000 * second < jwtValidity + jwtLeeway"
proof -
  have q: "''tok'' = values_get (parse_query (u_rawquery (rq_url token_request))) ''token''"
    by (simp add: token_request_def sample_request_def values_set_def parse_query_single values_get_def)
  have "claims_current (1500 * second) jwtLeeway sample_claims"
    by (simp add: claims_current_def sample_claims_def second_def jwtLeeway_def)
  then have auth: "perform_direct_connect_auth sample_packages (1500 * second) sample_server token_request = Inr ''k''"
    by (simp add: q [symmetric] perform_direct_connect_auth_def sample_server_def sample_packages_def token_of_def
        cluster_new_def sample_claims_def jwtIssuerChacha_def jwtAudienceDirectConnect_def)
  have "valid_utf8 ''k''" by (simp add: valid_utf8_ascii is_ascii_def)
  with direct_connect_auth_sound [OF sample_packages_laws(2) auth q] auth sample_token show ?thesis
    by (fastforce simp: sample_server_def cluster_new_def)
qed

end
