(* ===== verification/ProxyProps.thy ===== *)
theory ProxyProps
  imports ProxyCache ServerProps DiskProps
begin

text \<open>
  Properties of the proxy: what the cache holds after a request, what the counters say, how requests are made conditional, and how failures are reported. What concerns the
  cache is proved for every cache that keeps the interface's contract and then applied to the disk.
\<close>

section \<open>Headers\<close>

lemma header_values_foldl_set:
  "header_values (foldl (\<lambda>h v. header_set h k v) h vs) k' =
     (if vs \<noteq> [] \<and> canonical_key k' = canonical_key k then [last vs] else header_values h k')"
  by (induction vs arbitrary: h rule: rev_induct) (auto simp: header_values_set)

lemma header_values_propagate:
  assumes "distinct (map (\<lambda>p. canonical_key (fst p)) src)"
  shows "header_values (propagate src dst) k =
    (case map_of (map (\<lambda>(n, vs). (canonical_key n, vs)) src) (canonical_key k) of
       Some (v # vs) \<Rightarrow> [last (v # vs)] | _ \<Rightarrow> header_values dst k)"
  using assms
proof (induction src arbitrary: dst)
  case (Cons p src)
  obtain n vs where p: "p = (n, vs)" by fastforce
  let ?d = "foldl (\<lambda>h v. header_set h n v) dst vs"
  have IH: "header_values (propagate src ?d) k =
    (case map_of (map (\<lambda>(n, vs). (canonical_key n, vs)) src) (canonical_key k) of
       Some (v # vs) \<Rightarrow> [last (v # vs)] | _ \<Rightarrow> header_values ?d k)"
    using Cons by simp
  have step: "propagate (p # src) dst = propagate src ?d" by (simp add: propagate_def p)
  show ?case
  proof (cases "canonical_key k = canonical_key n")
    case True
    have "canonical_key n \<notin> (\<lambda>p. canonical_key (fst p)) ` set src" using Cons.prems p by simp
    then have "map_of (map (\<lambda>(n, vs). (canonical_key n, vs)) src) (canonical_key n) = None"
      by (force simp: map_of_eq_None_iff)
    with True IH step p show ?thesis
      by (simp add: header_values_foldl_set split: list.splits)
  next
    case False
    with IH step p show ?thesis by (simp add: header_values_foldl_set split: option.splits list.splits)
  qed
qed (simp add: propagate_def)

text \<open>
  Forwarding headers keeps one value per name: of a header with several values, such as
  \<^verbatim>\<open>Set-Cookie\<close>, only the last one survives, and headers that the source lacks stay as they were.
\<close>

theorem propagate_keeps_last:
  assumes "distinct (map (\<lambda>p. canonical_key (fst p)) src)"
  shows "header_values (propagate src dst) k =
    (case map_of (map (\<lambda>(n, vs). (canonical_key n, vs)) src) (canonical_key k) of
       Some (v # vs) \<Rightarrow> [last (v # vs)] | _ \<Rightarrow> header_values dst k)"
  by (rule header_values_propagate [OF assms])

theorem propagate_keeps_last_witness:
  "header_values (propagate [(''Set-Cookie'', [''a=1'', ''b=2''])] []) ''set-cookie'' = [''b=2'']"
proof -
  have "canonical_key ''Set-Cookie'' = ''Set-Cookie''" "canonical_key ''set-cookie'' = ''Set-Cookie''"
    by code_simp+
  then show ?thesis
    using propagate_keeps_last [of "[(''Set-Cookie'', [''a=1'', ''b=2''])]" "[]" "''set-cookie''"] by simp
qed

text \<open>
  C38. The upstream request is conditional on the cached entry: it carries the entry's ETag in
  \<^verbatim>\<open>If-None-Match\<close> unless the client sent a validator of its own, which then replaces it.
\<close>

theorem upstream_conditional:
  assumes "distinct (map (\<lambda>p. canonical_key (fst p)) (rq_header rq))"
  shows "header_values (upstream_headers m rq) ''If-None-Match'' =
    (case map_of (map (\<lambda>(n, vs). (canonical_key n, vs)) (rq_header rq)) ''If-None-Match'' of
       Some (v # vs) \<Rightarrow> [last (v # vs)] | _ \<Rightarrow> if etag m = [] then [] else [etag m])"
proof -
  have c: "canonical_key ''If-None-Match'' = ''If-None-Match''" by code_simp
  have "''If-None-Match'' \<notin> set (map canonical_key hop_by_hop)" by code_simp
  then have "header_values (upstream_headers m rq) ''If-None-Match'' = header_values (propagate (rq_header rq)
      (if etag m \<noteq> [] then header_set [] ''If-None-Match'' (etag m) else [])) ''If-None-Match''"
    by (simp add: upstream_headers_def remove_end_to_end_headers_def header_values_foldl_del c)
  also have "\<dots> = (case map_of (map (\<lambda>(n, vs). (canonical_key n, vs)) (rq_header rq)) ''If-None-Match'' of
       Some (v # vs) \<Rightarrow> [last (v # vs)] | _ \<Rightarrow> if etag m = [] then [] else [etag m])"
    using header_values_propagate [OF assms, of _ "''If-None-Match''"] header_values_set [of "[]" "''If-None-Match''" "etag m"]
    by (simp add: c header_values_def [of "[]"] split: option.splits list.splits)
  finally show ?thesis .
qed

theorem upstream_conditional_witness:
  "header_values (upstream_headers sample_md (sample_request [])) ''If-None-Match'' = [''v1''] \<and>
   header_values (upstream_headers sample_md (sample_request []\<lparr>rq_header := [(''If-None-Match'', [''mine''])]\<rparr>))
     ''If-None-Match'' = [''mine'']"
proof -
  have "canonical_key ''If-None-Match'' = ''If-None-Match''" by code_simp
  then show ?thesis
    using upstream_conditional [of "sample_request []" sample_md]
      upstream_conditional [of "sample_request []\<lparr>rq_header := [(''If-None-Match'', [''mine''])]\<rparr>" sample_md]
    by (simp add: sample_md_def sample_request_def)
qed

section \<open>The disk behind the proxy\<close>

text \<open>
  C6. What a proxied request does to the disk cache of the node that owns its key: it may forget
  entries, and it may store one, under the key of the request, and then the blob is the complete body
  and the metadata the ETag of an upstream answer with status 200 to this very request
  that the caching policy allows to keep. Nothing else enters the cache: no partial body, no
  answer to be kept out, no entry under another key.
\<close>

theorem proxy_disk_faithful:
  assumes "sv_disk sv = disk_ops d" and "disk_inv (w_disk w)"
    and "choose_cache pk sv (proxy_key sv request) = Some None"
    and "handle_proxy_default pk env sv request cw w = Some (r, cw', w')"
  shows "disk_inv (w_disk w') \<and> (disk_stored (w_disk w') \<subseteq>\<^sub>m disk_stored (w_disk w) \<or>
    (\<exists>m rs. upstream_answered sv env request m rs \<and> rs_status rs = 200 \<and>
       should_cache (fix_url request) (clean_response rs) (proxy_rule sv request) \<and> rd_err (rs_body rs) = None \<and>
       disk_stored (w_disk w') \<subseteq>\<^sub>m (disk_stored (w_disk w))
         (path_name (proxy_key sv request) \<mapsto> (coerce_metadata (response_etag rs), rd_data (rs_body rs)))))"
  using dlp.px.proxy_cache_faithful [where sv = sv and d = d] upstream_frame_disk assms
  unfolding disk_server_eq [OF assms(1)] by blast

lemma should_cache_get: "should_cache rq rs ru \<Longrightarrow> rq_method rq = ''GET''"
  by (auto simp: should_cache_def split: option.splits if_splits)

text \<open>
  C16. The counters tell the truth: when the handler counts a request as \<^verbatim>\<open>miss\<close>, \<^verbatim>\<open>hit\<close> or
  \<^verbatim>\<open>not-allowed\<close>, the complete body (of the upstream's answer, of the stored entry, of the upstream's answer) was
  read without an error and the server took it for the client, and for a hit the upstream had answered 304 to
  a request made with that entry's metadata. Only the client of a \<^verbatim>\<open>HEAD\<close> request gets no body: a \<^verbatim>\<open>HEAD\<close> request for
  a cached key is counted as a hit although nothing of the entry leaves the server.
\<close>

theorem proxy_disk_counted:
  assumes "sv_disk sv = disk_ops d" and "disk_inv (w_disk w)"
    and "choose_cache pk sv (proxy_key sv request) = Some None"
    and "handle_proxy_default pk env sv request cw w = Some (r, cw', w')"
    and "w_cache_ops w' = op # w_cache_ops w"
    and "rw_sent (cw_inner cw) = None" and "rw_body (cw_inner cw) = []"
    and "rw_head (cw_inner cw) \<longleftrightarrow> rq_method request = ''HEAD''"
  shows "\<exists>m rs. upstream_answered sv env request m rs \<and>
    ((op = ''miss'' \<and> rs_status rs = 200 \<and> rd_err (rs_body rs) = None \<and> rw_body (cw_inner cw') = rd_data (rs_body rs)) \<or>
     (op = ''hit'' \<and> rs_status rs = 304 \<and> (\<exists>h. rw_sent (cw_inner cw') = Some (200, h)) \<and>
        (\<exists>b. disk_stored (w_disk w) (path_name (proxy_key sv request)) = Some (m, b) \<and>
           rw_body (cw_inner cw') = (if rq_method request = ''HEAD'' then [] else b))) \<or>
     (op = ''not-allowed'' \<and> rd_err (rs_body rs) = None \<and> (\<exists>h. rw_sent (cw_inner cw') = Some (rs_status rs, h)) \<and>
        rw_body (cw_inner cw') = (if rq_method request = ''HEAD'' then [] else rd_data (rs_body rs))))"
proof -
  have counted: "\<exists>m rs. upstream_answered sv env request m rs \<and>
    ((op = ''miss'' \<and> rs_status rs = 200 \<and> should_cache (fix_url request) (clean_response rs) (proxy_rule sv request) \<and>
        rd_err (rs_body rs) = None \<and> rw_body (cw_inner cw') = client_gets (cw_inner cw) (rd_data (rs_body rs))) \<or>
     (op = ''hit'' \<and> rs_status rs = 304 \<and> (\<exists>h. rw_sent (cw_inner cw') = Some (200, h)) \<and>
        (\<exists>b b'. disk_stored (w_disk w) (path_name (proxy_key sv request)) = Some (m, b) \<and> prefix b' b \<and> (True \<longrightarrow> b' = b) \<and>
           rw_body (cw_inner cw') = client_gets (cw_inner cw) b')) \<or>
     (op = ''not-allowed'' \<and> rd_err (rs_body rs) = None \<and>
        rw_body (cw_inner cw') = client_gets (cw_inner cw) (rd_data (rs_body rs)) \<and>
        (\<exists>h. rw_sent (cw_inner cw') = Some (rs_status rs, h))))"
    by (rule dlp.px.proxy_counted_complete [where sv = sv and d = d, unfolded disk_server_eq [OF assms(1)],
        OF assms(2) upstream_frame_disk assms(3-7)])
  have "rq_method request \<noteq> ''HEAD''" if "should_cache (fix_url request) rs ru" for rs ru
    using should_cache_get [OF that] by simp
  with counted show ?thesis using assms(8) unfolding client_gets_def by fastforce
qed

text \<open>
  The handler always answers: outside cluster mode, and in a cluster with at least one
  node, no request makes it panic.
\<close>

theorem proxy_always_answers:
  assumes "\<forall>c. sv_cluster sv = Some c \<longrightarrow> cl_nodes c \<noteq> []" and "hrw_sorts weight (pk_hrw pk)"
  shows "\<exists>r cw' w'. handle_proxy_default pk env sv request cw w = Some (r, cw', w')"
proof -
  have target: "\<exists>n. target_node (pk_hrw pk) c key = Some n" if "sv_cluster sv = Some c" for c key
    using that assms target_node_exists by blast
  have redirect: "answer_redirect pk sv env c r key cw w \<noteq> None" if "sv_cluster sv = Some c" for c r key cw w
  proof -
    from target [OF that, of key] obtain n where "target_node (pk_hrw pk) c key = Some n" by blast
    then show ?thesis by (simp add: answer_redirect_def Let_def split: sum.splits)
  qed
  have answer: "answer pk sv env rq ru ca key entry rs cw w \<noteq> None" for rq ru ca key entry rs cw w
    using redirect by (auto simp: answer_def simp del: not_None_eq split: option.splits)
  have up: "proxy_upstream pk sv env rq ru ca key entry m cw w \<noteq> None" for rq ru ca key entry m cw w
    using answer by (auto simp: proxy_upstream_def Let_def simp del: not_None_eq split: sum.splits prod.splits)
  have "choose_cache pk sv key \<noteq> None" for key
  proof (cases "sv_cluster sv")
    case (Some c)
    from target [OF Some, of key] obtain n where "target_node (pk_hrw pk) c key = Some n" by blast
    with Some show ?thesis by (simp add: choose_cache_def)
  qed (simp add: choose_cache_def)
  then show ?thesis
  proof -
    have "handle_proxy_default pk env sv request cw w \<noteq> None"
      using \<open>\<And>key. choose_cache pk sv key \<noteq> None\<close> up
      by (auto simp: handle_proxy_default_def Let_def simp del: not_None_eq split: option.splits sum.splits prod.splits)
    then show ?thesis by auto
  qed
qed

definition disk_server :: "(os_env, fs, unit) server" where
  "disk_server =
     \<lparr>sv_listener = ''10.0.0.1:8080'', sv_internal = (\<lambda>e rq n. (Inl ErrEOF, 0, n)),
      sv_external = (\<lambda>e rq n. (Inr \<lparr>rs_status = 200, rs_header = [], rs_body = bytes_reader ''hi''\<rparr>, 0, n)),
      sv_disk = disk_ops sample_disk, sv_tls = None, sv_rules = [], sv_cluster = None\<rparr>"

definition disk_world :: "(fs, unit) world" where
  "disk_world = \<lparr>w_disk = empty_fs, w_net = (), w_cache_ops = [], w_requests = [], w_log = []\<rparr>"

definition disk_renv :: "os_env request_env" where
  "disk_renv = \<lparr>re_get = sample_env, re_upstream = sample_env, re_put = sample_env, re_close = sample_env, re_now = 0\<rparr>"

lemma disk_server_facts:
  "choose_cache pk disk_server key = Some None" "disk_inv (w_disk disk_world)" "sv_disk disk_server = disk_ops sample_disk"
  by (simp_all add: choose_cache_def disk_server_def disk_world_def)

lemma disk_server_answers:
  "\<exists>r cw' w'. handle_proxy_default sample_packages disk_renv disk_server (sample_request []) (cw_wrap (fresh_writer None)) disk_world =
     Some (r, cw', w') \<and> w_cache_ops w' = ''not-allowed'' # w_cache_ops disk_world"
proof -
  have rq: "\<exists>urq. http_new_request (rq_method (fix_url (sample_request []))) (url_string (rq_url (fix_url (sample_request []))))
      (rq_body (fix_url (sample_request []))) = Inr urq"
  proof -
    have "http_new_request (rq_method (fix_url (sample_request []))) (url_string (rq_url (fix_url (sample_request []))))
        (rq_body (fix_url (sample_request []))) =
      Inr \<lparr>rq_method = ''GET'', rq_host = ''example.com'', rq_tls = False,
        rq_url = empty_url\<lparr>u_scheme := ''https'', u_host := ''example.com'', u_path := ''/a''\<rparr>, rq_header = [],
        rq_body = bytes_reader []\<rparr>"
      by code_simp
    then show ?thesis by blast
  qed
  have get: "chosen_get disk_server None sample_env disk_world key = (Inl ErrNotFound, disk_world)" for key
    by (simp add: chosen_get_def disk_server_def disk_ops_def disk_world_def disk_get_def os_open_def empty_fs_def)
  have host: "rq_host (sample_request []) = ''example.com''" by (simp add: sample_request_def)
  have rules: "rules_get (sv_rules disk_server) u = None" for u by (simp add: disk_server_def)
  have copy: "\<exists>cw'. answer_copy st op msg (bytes_reader b) cw w = (Empty msg, cw', count_cache_op op w)"
    if "rw_room (length b) (cw_inner (cw_write_header st cw))" for st op msg b cw and w :: "(fs, unit) world"
    using cw_copy_room [of "bytes_reader b"] that by (simp add: answer_copy_def)
  have net: "w\<lparr>w_net := ()\<rparr> = w" for w :: "(fs, unit) world" by (cases w) simp
  let ?cw = "cw_wrap (fresh_writer None)"
  have b: "rw_room (length ''hi'') (cw_inner (cw_write_header 200 (cw_set_header (propagate (rs_header (clean_response rs)) (cw_header ?cw)) ?cw)))"
    if "rs_header rs = []" for rs
    using that by (simp add: rw_room_def rw_answer_def cw_write_header_sent)
      (simp add: clean_response_def remove_end_to_end_headers_def header_del_def hop_by_hop_def propagate_def cw_wrap_def cw_header_def cw_set_header_def body_allowed_def)
  have "\<exists>cw'. proxy_upstream sample_packages disk_server disk_renv (fix_url (sample_request [])) None None key None m ?cw disk_world =
      Some (Empty ''fetched from the upstream, caching is not allowed'', cw', count_cache_op ''not-allowed'' disk_world)" for key m
    using rq copy [OF b [of "\<lparr>rs_status = 200, rs_header = [], rs_body = bytes_reader ''hi''\<rparr>"]]
    by (auto simp: proxy_upstream_def upstream_client_def disk_server_def Let_def answer_def should_cache_def clean_response_def net)
  from this [of "cache_key (fix_url (sample_request [])) None" no_metadata] obtain cw' where
    up: "proxy_upstream sample_packages disk_server disk_renv (fix_url (sample_request [])) None None
        (cache_key (fix_url (sample_request [])) None) None no_metadata ?cw disk_world =
      Some (Empty ''fetched from the upstream, caching is not allowed'', cw', count_cache_op ''not-allowed'' disk_world)"
    by blast
  have env: "re_get disk_renv = sample_env" by (simp add: disk_renv_def)
  from up show ?thesis
    by (simp add: handle_proxy_default_def host rules Let_def disk_server_facts get env) (simp add: count_cache_op_def)
qed

theorem proxy_disk_faithful_witness:
  "\<exists>r cw' w'. handle_proxy_default sample_packages disk_renv disk_server (sample_request []) (cw_wrap (fresh_writer None))
     disk_world = Some (r, cw', w') \<and> disk_inv (w_disk w')"
proof -
  obtain r cw' w' where h: "handle_proxy_default sample_packages disk_renv disk_server (sample_request [])
      (cw_wrap (fresh_writer None)) disk_world = Some (r, cw', w')"
    using disk_server_answers by blast
  from proxy_disk_faithful [OF disk_server_facts(3,2,1) h] h show ?thesis by blast
qed

theorem proxy_disk_counted_witness:
  "\<exists>r cw' w' m rs. handle_proxy_default sample_packages disk_renv disk_server (sample_request []) (cw_wrap (fresh_writer None))
     disk_world = Some (r, cw', w') \<and> upstream_answered disk_server disk_renv (sample_request []) m rs \<and>
     rw_body (cw_inner cw') = rd_data (rs_body rs)"
proof -
  obtain r cw' w' where h: "handle_proxy_default sample_packages disk_renv disk_server (sample_request [])
      (cw_wrap (fresh_writer None)) disk_world = Some (r, cw', w')" and ops: "w_cache_ops w' = ''not-allowed'' # w_cache_ops disk_world"
    using disk_server_answers by blast
  have "rw_sent (cw_inner (cw_wrap (fresh_writer None))) = None" "rw_body (cw_inner (cw_wrap (fresh_writer None))) = []"
    "rw_head (cw_inner (cw_wrap (fresh_writer None))) \<longleftrightarrow> rq_method (sample_request []) = ''HEAD''"
    by (simp_all add: cw_wrap_def sample_request_def)
  from proxy_disk_counted [OF disk_server_facts(3,2,1) h ops this] h show ?thesis by (auto simp: sample_request_def)
qed

theorem proxy_always_answers_witness:
  "\<exists>r cw' w'. handle_proxy_default sample_packages sample_renv sample_server (sample_request []) (cw_wrap (fresh_writer None))
     sample_world = Some (r, cw', w')"
  by (rule proxy_always_answers [where weight = sample_weight])
     (simp_all add: sample_server_def cluster_new_def sample_packages_def sample_hrw_sorts)

end
