(* ===== verification/ProxyLive.thy ===== *)
theory ProxyLive
  imports ProxyProps
begin

text \<open>
  Caching works: on a node whose system calls do not fail, an answer that may be kept is kept, and the next
  client gets it from the disk. With such a client at hand, the last section states for all requests where the bytes of
  an answer come from.
\<close>

section \<open>A request in which nothing fails\<close>

definition quiet_renv :: "int \<Rightarrow> string \<Rightarrow> os_env request_env" where
  "quiet_renv now tmp =
     \<lparr>re_get = quiet_env now tmp, re_upstream = quiet_env now tmp, re_put = quiet_env now tmp, re_close = quiet_env now tmp, re_now = now\<rparr>"

lemma quiet_renv_simps [simp]:
  "re_get (quiet_renv now tmp) = quiet_env now tmp" "re_put (quiet_renv now tmp) = quiet_env now tmp"
  "re_close (quiet_renv now tmp) = quiet_env now tmp" "re_now (quiet_renv now tmp) = now"
  by (simp_all add: quiet_renv_def)

lemma cw_wrap_simps [simp]: "cw_inner (cw_wrap w) = w" "cw_header (cw_wrap w) = rw_header w"
  by (simp_all add: cw_wrap_def cw_header_def)

lemma disk_put_stored:
  "disk_put d (quiet_env now tmp) s key m (bytes_reader b) = ((None, n), s') \<Longrightarrow>
     disk_stored s' (path_name key) = Some (coerce_metadata m, b)"
  by (erule disk_put_cases) (simp_all add: disk_stored_put)

lemma reader_eq: "rd_err b = None \<Longrightarrow> bytes_reader (rd_data b) = b"
  by (cases b) (simp add: bytes_reader_def)

lemma disk_get_absent: "map_of (fs_dir s) (path_name key) = None \<Longrightarrow> disk_get env s key = (Inl ErrNotFound, s)"
  by (simp add: disk_get_def os_open_def)

lemma proxy_key_nonempty: "rq_host rq \<noteq> [] \<Longrightarrow> proxy_key sv rq \<noteq> []"
  by (simp add: proxy_key_def cache_key_def Let_def fix_url_def url_string_key)

section \<open>Fetched once, served twice\<close>

lemma proxy_first:
  assumes "sv_disk sv = disk_ops d" and "choose_cache pk sv key = Some None" and rq1: "rq_host rq1 \<noteq> []" "proxy_key sv rq1 = key"
    and disk: "disk_inv (w_disk w)" "map_of (fs_dir (w_disk w)) (path_name key) = None" "map_of (fs_tmp (w_disk w)) tmp = None"
    and fits: "content_size (entry_archive key (response_etag rs) (rd_data (rs_body rs))) \<le> unat (d_limit d)"
    and first: "upstream_request rq1 no_metadata urq1"
      "upstream_client sv urq1 (re_upstream (quiet_renv now tmp)) urq1 (w_net w) = (Inr rs, k, n)" "rs_status rs = 200"
      "should_cache (fix_url rq1) (clean_response rs) (proxy_rule sv rq1)" "rd_err (rs_body rs) = None"
      "announced rs \<in> {None, Some (length (rd_data (rs_body rs)))}"
  shows "\<exists>r1 cw1 w1. handle_proxy_default pk (quiet_renv now tmp) sv rq1 (cw_wrap (writer_for rq1 None)) w = Some (r1, cw1, w1) \<and>
    rw_body (cw_inner cw1) = rd_data (rs_body rs) \<and> w_net w1 = n \<and> w_cache_ops w1 = ''miss'' # w_cache_ops w \<and>
    disk_stored (w_disk w1) (path_name key) = Some (coerce_metadata (response_etag rs), rd_data (rs_body rs))"
proof -
  let ?b = "rd_data (rs_body rs)" and ?m = "response_etag rs"
  note ops = chosen_get_def chosen_put_def assms(1) disk_ops_def
  have get: "rq_method rq1 \<noteq> ''HEAD''" using should_cache_get [OF first(4)] by simp
  obtain s where s: "disk_put d (quiet_env now tmp) (w_disk w) key ?m (bytes_reader ?b) = ((None, length ?b), s)"
    using disk_put_succeeds [OF disk(1,3) fits] by blast
  let ?w = "w\<lparr>w_net := n, w_disk := s\<rparr>"
  have "chosen_get sv None (re_get (quiet_renv now tmp)) w key = (Inl ErrNotFound, w)"
    using disk_get_absent [OF disk(2)] by (simp add: ops)
  moreover have "chosen_put sv None (re_put (quiet_renv now tmp)) (w\<lparr>w_net := n\<rparr>) key ?m (rs_body rs) = ((None, length ?b), ?w)"
    using s by (simp add: ops reader_eq [OF first(5)])
  ultimately obtain cw1 where "handle_proxy_default pk (quiet_renv now tmp) sv rq1 (cw_wrap (writer_for rq1 None)) w =
      Some (Empty ''fetched from the upstream, cache entry is outdated'', cw1, count_cache_op ''miss'' ?w)"
    "rw_body (cw_inner cw1) = ?b"
    using proxy_miss [OF rq1(1), of pk sv None "quiet_renv now tmp" w w urq1 rs k n "cw_wrap (writer_for rq1 None)" ?w] assms(2) rq1(2) first
      answered_room [OF first(6)] get
    by (auto simp: client_gets_def)
  moreover have "disk_stored (w_disk (count_cache_op ''miss'' ?w)) (path_name key) = Some (coerce_metadata ?m, ?b)"
    using disk_put_stored [OF s] by (simp add: count_cache_op_def)
  ultimately show ?thesis by (intro exI conjI) (assumption | simp add: count_cache_op_def)+
qed

lemma proxy_roundtrip:
  assumes "sv_disk sv = disk_ops d" and "choose_cache pk sv key = Some None"
    and rq1: "rq_host rq1 \<noteq> []" "proxy_key sv rq1 = key" and rq2: "rq_host rq2 \<noteq> []" "proxy_key sv rq2 = key"
    and disk: "disk_inv (w_disk w)" "map_of (fs_dir (w_disk w)) (path_name key) = None" "map_of (fs_tmp (w_disk w)) tmp = None"
    and fits: "content_size (entry_archive key (response_etag rs) (rd_data (rs_body rs))) \<le> unat (d_limit d)"
    and first: "upstream_request rq1 no_metadata urq1"
      "upstream_client sv urq1 (re_upstream (quiet_renv now tmp)) urq1 (w_net w) = (Inr rs, k, n)" "rs_status rs = 200"
      "should_cache (fix_url rq1) (clean_response rs) (proxy_rule sv rq1)" "rd_err (rs_body rs) = None"
      "announced rs \<in> {None, Some (length (rd_data (rs_body rs)))}"
    and second: "upstream_request rq2 (coerce_metadata (response_etag rs)) urq2"
      "upstream_client sv urq2 (re_upstream (quiet_renv now' tmp')) urq2 n = (Inr rs', k', n')" "rs_status rs' = 304"
      "\<forall>ru. proxy_rule sv rq2 = Some ru \<longrightarrow> \<not> directConnect ru"
      "announced rs' \<in> {None, Some (length (rd_data (rs_body rs)))}" "rq_method rq2 \<noteq> ''HEAD''"
  shows "\<exists>r1 cw1 w1 r2 cw2 w2 h.
    handle_proxy_default pk (quiet_renv now tmp) sv rq1 (cw_wrap (writer_for rq1 None)) w = Some (r1, cw1, w1) \<and>
    rw_body (cw_inner cw1) = rd_data (rs_body rs) \<and>
    handle_proxy_default pk (quiet_renv now' tmp') sv rq2 (cw_wrap (writer_for rq2 None)) w1 = Some (r2, cw2, w2) \<and>
    rw_body (cw_inner cw2) = rd_data (rs_body rs) \<and> rw_sent (cw_inner cw2) = Some (200, h) \<and>
    w_cache_ops w2 = ''hit'' # ''miss'' # w_cache_ops w"
proof -
  let ?b = "rd_data (rs_body rs)" and ?m = "response_etag rs"
  from proxy_first [OF assms(1,2) rq1 disk fits first] obtain r1 cw1 w1 where
    h1: "handle_proxy_default pk (quiet_renv now tmp) sv rq1 (cw_wrap (writer_for rq1 None)) w = Some (r1, cw1, w1)"
      "rw_body (cw_inner cw1) = ?b" "w_cache_ops w1 = ''miss'' # w_cache_ops w"
    and w1: "w_net w1 = n" "disk_stored (w_disk w1) (path_name key) = Some (coerce_metadata ?m, ?b)" by blast
  from disk_get_quiet [OF w1(2)] obtain s' where
    g: "disk_get (quiet_env now' tmp') (w_disk w1) key = (Inr (bytes_reader ?b, coerce_metadata ?m), s')" by blast
  have "chosen_get sv None (re_get (quiet_renv now' tmp')) w1 key = (Inr (bytes_reader ?b, coerce_metadata ?m), w1\<lparr>w_disk := s'\<rparr>)"
    using g by (simp add: chosen_get_def assms(1) disk_ops_def)
  then obtain cw2 h where h2: "handle_proxy_default pk (quiet_renv now' tmp') sv rq2 (cw_wrap (writer_for rq2 None)) w1 =
      Some (Empty ''retrieved from the cache'', cw2, chosen_close sv None (re_close (quiet_renv now' tmp'))
        (count_cache_op ''hit'' (w1\<lparr>w_disk := s', w_net := n'\<rparr>)))"
    "rw_body (cw_inner cw2) = ?b" "rw_sent (cw_inner cw2) = Some (200, h)"
    using proxy_hit [OF rq2(1), of pk sv None "quiet_renv now' tmp'" w1 "bytes_reader ?b" "coerce_metadata ?m" "w1\<lparr>w_disk := s'\<rparr>"
        urq2 rs' k' n' "cw_wrap (writer_for rq2 None)"] assms(2) rq2(2) second w1(1) answered_room [OF second(5)]
    by (auto simp: client_gets_def)
  have "w_cache_ops (chosen_close sv None (re_close (quiet_renv now' tmp')) (count_cache_op ''hit'' (w1\<lparr>w_disk := s', w_net := n'\<rparr>))) =
      ''hit'' # ''miss'' # w_cache_ops w"
    by (simp add: chosen_ops(3)) (simp add: count_cache_op_def h1(3))
  with h1 h2 show ?thesis by blast
qed

text \<open>
  C7. The proxy caches. On a node that owns the key, with a disk on which the entry fits and no failing system call, let
  the upstream answer a first request with 200 and a body that the policy allows to keep, and a second one with
  the same key, made conditional on the ETag of that answer, with 304. Let the second request be no \<^verbatim>\<open>HEAD\<close> request
  (which gets no body), and let neither answer carry a \<^verbatim>\<open>Content-Length\<close> other than the length of the body: the headers of
  a 304 reach the client too, and a length that is too small makes the copy fail. Then both clients receive the
  complete body, the second one from the disk and with status 200, and the requests are counted as a miss and a hit.
\<close>

theorem proxy_serves_cached:
  assumes "sv_disk sv = disk_ops d" and "choose_cache pk sv key = Some None"
    and rq1: "rq_host rq1 \<noteq> []" "proxy_key sv rq1 = key" and rq2: "rq_host rq2 \<noteq> []" "proxy_key sv rq2 = key"
    and disk: "disk_inv (w_disk w)" "map_of (fs_dir (w_disk w)) (path_name key) = None" "map_of (fs_tmp (w_disk w)) tmp = None"
    and fits: "content_size (entry_archive key (response_etag rs) (rd_data (rs_body rs))) \<le> unat (d_limit d)"
    and first: "upstream_request rq1 no_metadata urq1"
      "upstream_client sv urq1 (re_upstream (quiet_renv now tmp)) urq1 (w_net w) = (Inr rs, k, n)" "rs_status rs = 200"
      "should_cache (fix_url rq1) (clean_response rs) (proxy_rule sv rq1)" "rd_err (rs_body rs) = None"
      "announced rs \<in> {None, Some (length (rd_data (rs_body rs)))}"
    and second: "upstream_request rq2 (coerce_metadata (response_etag rs)) urq2"
      "upstream_client sv urq2 (re_upstream (quiet_renv now' tmp')) urq2 n = (Inr rs', k', n')" "rs_status rs' = 304"
      "\<forall>ru. proxy_rule sv rq2 = Some ru \<longrightarrow> \<not> directConnect ru"
      "announced rs' \<in> {None, Some (length (rd_data (rs_body rs)))}" "rq_method rq2 \<noteq> ''HEAD''"
  shows "\<exists>r1 cw1 w1 r2 cw2 w2 h.
    handle_proxy_default pk (quiet_renv now tmp) sv rq1 (cw_wrap (writer_for rq1 None)) w = Some (r1, cw1, w1) \<and>
    rw_body (cw_inner cw1) = rd_data (rs_body rs) \<and>
    handle_proxy_default pk (quiet_renv now' tmp') sv rq2 (cw_wrap (writer_for rq2 None)) w1 = Some (r2, cw2, w2) \<and>
    rw_body (cw_inner cw2) = rd_data (rs_body rs) \<and> rw_sent (cw_inner cw2) = Some (200, h) \<and>
    w_cache_ops w2 = ''hit'' # ''miss'' # w_cache_ops w"
  by (rule proxy_roundtrip [OF assms])

section \<open>An origin and a client\<close>

definition sample_origin :: "('e, 'n) http_client" where
  "sample_origin e rq n =
     (Inr (if header_values (rq_header rq) ''If-None-Match'' = []
           then \<lparr>rs_status = 200, rs_header = [(''Etag'', [''v1''])], rs_body = bytes_reader ''hi''\<rparr>
           else \<lparr>rs_status = 304, rs_header = [], rs_body = bytes_reader []\<rparr>), 0, n)"

definition sample_url :: url where
  "sample_url = empty_url\<lparr>u_scheme := ''https'', u_host := ''example.com'', u_path := ''/a''\<rparr>"

definition sample_forwarded :: "header \<Rightarrow> request" where
  "sample_forwarded h =
     \<lparr>rq_method = ''GET'', rq_host = ''example.com'', rq_tls = False, rq_url = sample_url, rq_header = h, rq_body = bytes_reader []\<rparr>"

lemma sample_new_request:
  "http_new_request (rq_method (sample_request [])) (url_string (rq_url (fix_url (sample_request [])))) (rq_body (sample_request [])) =
     Inr (sample_forwarded [])"
  by code_simp

lemma sample_forward:
  "upstream_request (sample_request []) no_metadata (sample_forwarded [])"
  "upstream_request (sample_request []) sample_md (sample_forwarded [(''If-None-Match'', [''v1''])])"
proof -
  have "upstream_headers no_metadata (fix_url (sample_request [])) = []"
    "upstream_headers sample_md (fix_url (sample_request [])) = [(''If-None-Match'', [''v1''])]" by code_simp+
  then show "upstream_request (sample_request []) no_metadata (sample_forwarded [])"
    "upstream_request (sample_request []) sample_md (sample_forwarded [(''If-None-Match'', [''v1''])])"
    by (simp_all add: upstream_request_def sample_new_request sample_forwarded_def)
qed

abbreviation sample_answer :: response where
  "sample_answer \<equiv> \<lparr>rs_status = 200, rs_header = [(''Etag'', [''v1''])], rs_body = bytes_reader ''hi''\<rparr>"

lemma sample_answers:
  "sample_origin e (sample_forwarded []) n = (Inr sample_answer, 0, n)"
  "sample_origin e (sample_forwarded [(''If-None-Match'', [''v1''])]) n = (Inr \<lparr>rs_status = 304, rs_header = [], rs_body = bytes_reader []\<rparr>, 0, n)"
  "response_etag sample_answer = sample_md"
  "should_cache (fix_url (sample_request [])) (clean_response sample_answer) (Some sample_rule)"
proof -
  have "header_values [(''If-None-Match'', [''v1''])] ''If-None-Match'' = [''v1'']" "header_values [] ''If-None-Match'' = []" by code_simp+
  then show "sample_origin e (sample_forwarded []) n = (Inr sample_answer, 0, n)"
    "sample_origin e (sample_forwarded [(''If-None-Match'', [''v1''])]) n = (Inr \<lparr>rs_status = 304, rs_header = [], rs_body = bytes_reader []\<rparr>, 0, n)"
    by (simp_all add: sample_origin_def sample_forwarded_def)
  show "response_etag sample_answer = sample_md" by code_simp
  show "should_cache (fix_url (sample_request [])) (clean_response sample_answer) (Some sample_rule)" by code_simp
qed

lemma sample_key: "cache_key (fix_url (sample_request [])) (Some sample_rule) = ''https://example.com/a''"
  by code_simp

lemma sample_fits: "content_size (entry_archive ''https://example.com/a'' sample_md ''hi'') \<le> unat (d_limit sample_disk)"
proof -
  have "length (marshal_info \<lparr>info_key = ''https://example.com/a'', info_metadata = sample_md\<rparr>) = 57" by code_simp
  then show ?thesis
    by (simp add: content_size_def entry_archive_def zip_size_def zip_member_size_def fileInfo_def fileBlob_def Let_def sample_disk_def)
qed

definition caching_server :: "(os_env, fs, unit) server" where
  "caching_server = disk_server\<lparr>sv_external := sample_origin, sv_rules := [sample_rule]\<rparr>"

lemma caching_server_facts:
  "sv_disk caching_server = disk_ops sample_disk" "choose_cache pk caching_server key = Some None"
  "proxy_rule caching_server request = Some sample_rule" "upstream_client caching_server urq = sample_origin"
  by (simp_all add: caching_server_def disk_server_def choose_cache_def proxy_rule_def sample_rule_def upstream_client_def)

lemma caching_server_key: "proxy_key caching_server (sample_request []) = ''https://example.com/a''"
  by (simp add: proxy_key_def caching_server_facts sample_key)

lemma disk_world_facts:
  "disk_inv (w_disk disk_world)" "map_of (fs_dir (w_disk disk_world)) k = None" "map_of (fs_tmp (w_disk disk_world)) t = None"
  "w_cache_ops disk_world = []"
  by (simp_all add: disk_world_def) (simp_all add: empty_fs_def)

lemma sample_answer_fits:
  "content_size (entry_archive ''https://example.com/a'' (response_etag sample_answer) (rd_data (rs_body sample_answer))) \<le>
     unat (d_limit sample_disk)"
  by (simp add: sample_answers(3) sample_fits)

lemma sample_answer_md: "coerce_metadata (response_etag sample_answer) = sample_md"
  unfolding sample_answers(3) by (rule coerce_metadata_valid) (simp add: sample_md_def valid_utf8_ascii is_ascii_def)

lemma caching_server_keeps:
  "should_cache (fix_url (sample_request [])) (clean_response sample_answer) (proxy_rule caching_server (sample_request []))"
  using sample_answers(4) by (simp add: caching_server_facts)

lemma sample_announced:
  "announced sample_answer \<in> {None, Some (length (rd_data (rs_body sample_answer)))}"
  "announced \<lparr>rs_status = 304, rs_header = [], rs_body = bytes_reader []\<rparr> \<in> {None, Some n}"
proof -
  have "announced sample_answer = None" "announced \<lparr>rs_status = 304, rs_header = [], rs_body = bytes_reader []\<rparr> = None"
    by code_simp+
  then show "announced sample_answer \<in> {None, Some (length (rd_data (rs_body sample_answer)))}"
    "announced \<lparr>rs_status = 304, rs_header = [], rs_body = bytes_reader []\<rparr> \<in> {None, Some n}" by simp_all
qed

lemma sample_get: "rq_method (sample_request []) \<noteq> ''HEAD''"
  by (simp add: sample_request_def)

lemma sample_writer: "writer_for (sample_request []) b = fresh_writer b"
  by (rule writer_for_fresh [OF sample_get])

lemma sample_request_host: "rq_host (sample_request []) \<noteq> []"
  by (simp add: sample_request_def)

theorem proxy_serves_cached_witness:
  "\<exists>r1 cw1 w1 r2 cw2 w2.
    handle_proxy_default sample_packages (quiet_renv 5 ''t'') caching_server (sample_request []) (cw_wrap (fresh_writer None)) disk_world =
      Some (r1, cw1, w1) \<and> rw_body (cw_inner cw1) = ''hi'' \<and>
    handle_proxy_default sample_packages (quiet_renv 9 ''u'') caching_server (sample_request []) (cw_wrap (fresh_writer None)) w1 =
      Some (r2, cw2, w2) \<and> rw_body (cw_inner cw2) = ''hi'' \<and> w_cache_ops w2 = [''hit'', ''miss'']"
proof -
  let ?urq = "sample_forwarded [(''If-None-Match'', [''v1''])]" and ?rs = "\<lparr>rs_status = 304, rs_header = [], rs_body = bytes_reader []\<rparr>"
  have up: "upstream_client caching_server urq e urq n = sample_origin e urq n" for urq e n by (simp add: caching_server_facts)
  have second: "upstream_request (sample_request []) (coerce_metadata (response_etag sample_answer)) ?urq"
    using sample_forward(2) by (simp add: sample_answer_md)
  have rule: "\<forall>ru. proxy_rule caching_server (sample_request []) = Some ru \<longrightarrow> \<not> directConnect ru"
    by (simp add: caching_server_facts) (simp add: sample_rule_def)
  have st: "rs_status sample_answer = 200" "rd_err (rs_body sample_answer) = None" "rs_status ?rs = 304" by simp_all
  note host = sample_request_host caching_server_key
  have "\<exists>r1 cw1 w1 r2 cw2 w2 h.
      handle_proxy_default sample_packages (quiet_renv 5 ''t'') caching_server (sample_request []) (cw_wrap (writer_for (sample_request []) None)) disk_world =
        Some (r1, cw1, w1) \<and> rw_body (cw_inner cw1) = rd_data (rs_body sample_answer) \<and>
      handle_proxy_default sample_packages (quiet_renv 9 ''u'') caching_server (sample_request []) (cw_wrap (writer_for (sample_request []) None)) w1 =
        Some (r2, cw2, w2) \<and> rw_body (cw_inner cw2) = rd_data (rs_body sample_answer) \<and> rw_sent (cw_inner cw2) = Some (200, h) \<and>
      w_cache_ops w2 = ''hit'' # ''miss'' # w_cache_ops disk_world"
    by (rule proxy_serves_cached [OF caching_server_facts(1,2) host host disk_world_facts(1-3) sample_answer_fits sample_forward(1) _ st(1)
          caching_server_keeps st(2) sample_announced(1) second _ st(3) rule sample_announced(2) sample_get])
      (simp_all only: up sample_answers(1,2))
  then show ?thesis by (simp add: disk_world_facts(4) sample_writer) blast
qed

section \<open>Where the bytes come from\<close>

text \<open>
  C4. The proxy asks the upstream server on every request before a client sees a byte. Whatever
  body bytes a client received are a prefix of the body of the upstream's answer to this request, or,
  only if that answer was 304 Not Modified, a prefix of the entry that the cache of the request's key (the disk
  of the node, or the node of the cluster that owns the key) returned for that key. The upstream
  request carries the client's own headers, so a client the upstream turns away gets nothing
  from the cache.
\<close>

theorem proxy_body_provenance:
  assumes "handle_proxy_default pk env sv request cw w = Some (r, cw', w')"
    and "rw_body (cw_inner cw) = []" and "rw_body (cw_inner cw') \<noteq> []"
  shows "\<exists>ca entry m w1 urq rs k n j.
    choose_cache pk sv (proxy_key sv request) = Some ca \<and> looked_up sv env ca (proxy_key sv request) w entry m w1 \<and>
    upstream_request request m urq \<and>
    upstream_client sv urq (re_upstream env) urq (w_net w1) = (Inr rs, k, n) \<and>
    (rw_body (cw_inner cw') = take j (rd_data (rs_body rs)) \<or>
     (rs_status rs = 304 \<and> (\<exists>reader. entry = Some reader \<and> rw_body (cw_inner cw') = take j (rd_data reader))))"
  by (rule proxy_body_source [OF assms])

text \<open>The second request of the sample client is answered from the disk.\<close>

lemma sample_hit:
  "\<exists>w1 r2 cw2 w2. disk_stored (w_disk w1) (path_name ''https://example.com/a'') = Some (sample_md, ''hi'') \<and>
    handle_proxy_default sample_packages (quiet_renv 9 ''u'') caching_server (sample_request []) (cw_wrap (fresh_writer None)) w1 =
      Some (r2, cw2, w2) \<and> rw_body (cw_inner cw2) = ''hi''"
proof -
  let ?urq = "sample_forwarded [(''If-None-Match'', [''v1''])]" and ?rs = "\<lparr>rs_status = 304, rs_header = [], rs_body = bytes_reader []\<rparr>"
  let ?w = "disk_world\<lparr>w_disk := empty_fs\<lparr>fs_dir := [(path_name ''https://example.com/a'',
    new_file sample_env ''https://example.com/a'' sample_md (bytes_reader ''hi''))]\<rparr>\<rparr>"
  have st: "disk_stored (w_disk ?w) (path_name ''https://example.com/a'') = Some (sample_md, ''hi'')"
    by (simp add: disk_stored_def new_file_def entry_of_archive sample_answer_md [unfolded sample_answers(3)])
  obtain s' where "disk_get (quiet_env 9 ''u'') (w_disk ?w) ''https://example.com/a'' = (Inr (bytes_reader ''hi'', sample_md), s')"
    using disk_get_quiet [OF st] by blast
  then have g: "chosen_get caching_server None (re_get (quiet_renv 9 ''u'')) ?w (proxy_key caching_server (sample_request [])) =
      (Inr (bytes_reader ''hi'', sample_md), ?w\<lparr>w_disk := s'\<rparr>)"
    by (simp add: chosen_get_def caching_server_facts disk_ops_def caching_server_key)
  have rule: "\<forall>ru. proxy_rule caching_server (sample_request []) = Some ru \<longrightarrow> \<not> directConnect ru"
    by (simp add: caching_server_facts) (simp add: sample_rule_def)
  have room: "rw_room (length (rd_data (bytes_reader ''hi''))) (cw_inner (answered ?rs (cw_wrap (fresh_writer None))))"
    using answered_room [OF sample_announced(2), of _ "sample_request []"] by (simp only: sample_writer)
  from proxy_hit [OF sample_request_host caching_server_facts(2) [of sample_packages] g sample_forward(2), of ?rs 0 _ "cw_wrap (fresh_writer None)"] rule room
  obtain cw2 w2 where "handle_proxy_default sample_packages (quiet_renv 9 ''u'') caching_server (sample_request []) (cw_wrap (fresh_writer None)) ?w =
      Some (Empty ''retrieved from the cache'', cw2, w2)" "rw_body (cw_inner cw2) = ''hi''"
    by (auto simp: caching_server_facts(4) sample_answers(2) client_gets_def)
  with st show ?thesis by blast
qed

theorem proxy_body_provenance_witness:
  "\<exists>w1 r2 cw2 w2 w3. handle_proxy_default sample_packages (quiet_renv 9 ''u'') caching_server (sample_request []) (cw_wrap (fresh_writer None)) w1 =
      Some (r2, cw2, w2) \<and> rw_body (cw_inner cw2) = ''hi'' \<and>
    looked_up caching_server (quiet_renv 9 ''u'') None ''https://example.com/a'' w1 (Some (bytes_reader ''hi'')) sample_md w3 \<and>
    upstream_answered caching_server (quiet_renv 9 ''u'') (sample_request []) sample_md \<lparr>rs_status = 304, rs_header = [], rs_body = bytes_reader []\<rparr>"
proof -
  obtain w1 r2 cw2 w2 where st: "disk_stored (w_disk w1) (path_name ''https://example.com/a'') = Some (sample_md, ''hi'')"
    and h: "handle_proxy_default sample_packages (quiet_renv 9 ''u'') caching_server (sample_request []) (cw_wrap (fresh_writer None)) w1 =
      Some (r2, cw2, w2)" and b: "rw_body (cw_inner cw2) = ''hi''"
    using sample_hit by blast
  have "rw_body (cw_inner (cw_wrap (fresh_writer None))) = []" by simp
  moreover have "rw_body (cw_inner cw2) \<noteq> []" by (simp add: b)
  note proxy_body_provenance [OF h _ this]
  ultimately obtain ca entry m w3 urq rs k n where
    ca: "choose_cache sample_packages caching_server (proxy_key caching_server (sample_request [])) = Some ca"
    and l: "looked_up caching_server (quiet_renv 9 ''u'') ca (proxy_key caching_server (sample_request [])) w1 entry m w3"
    and u: "upstream_request (sample_request []) m urq"
      "upstream_client caching_server urq (re_upstream (quiet_renv 9 ''u'')) urq (w_net w3) = (Inr rs, k, n)" by blast
  have ca: "ca = None" using ca by (simp add: caching_server_facts)
  obtain s' where "disk_get (quiet_env 9 ''u'') (w_disk w1) ''https://example.com/a'' = (Inr (bytes_reader ''hi'', sample_md), s')"
    using disk_get_quiet [OF st] by blast
  with l have e: "entry = Some (bytes_reader ''hi'')" "m = sample_md"
    by (auto simp: looked_up_def ca caching_server_key chosen_get_def caching_server_facts disk_ops_def split: option.splits)
  have "urq = sample_forwarded [(''If-None-Match'', [''v1''])]"
    using u(1) sample_forward(2) by (auto simp: upstream_request_def e)
  with u(2) have "rs = \<lparr>rs_status = 304, rs_header = [], rs_body = bytes_reader []\<rparr>"
    by (simp add: caching_server_facts(4) sample_answers(2))
  with u l e h b show ?thesis unfolding upstream_answered_def ca caching_server_key by blast
qed

end
