(* ===== verification/ProxyConcurrent.thy ===== *)
theory ProxyConcurrent
  imports ProxyLive DiskConcurrent
begin

text \<open>
  Concurrent requests to the proxy of one node. A request holds the mutex of its key (\<^verbatim>\<open>kmutex\<close>, which documents that at most
  one caller holds a key) from before the lookup to its end; between the calls that touch the disk, other
  requests run. Each critical section of the disk cache is one step, as in the model of the disk under concurrent use, and
  what the upstream answers, and when, is up to the environment.
\<close>

section \<open>Requests in flight\<close>

text \<open>
  Where a request is: it holds the mutex; it has looked up its key; its answer is staged in a temporary file; it has answered and
  still has the entry to close. The deferred calls run in this order: \<^verbatim>\<open>Close\<close>, then \<^verbatim>\<open>Unlock\<close>.
\<close>

datatype phase =
    Locked
  | Looked "reader option" metadata
  | Staged "reader option" pending response
  | Leaving "reader option"

record proxy_state =
  ps_conc :: conc
  ps_flights :: "nat \<rightharpoonup> request \<times> phase"
  ps_held :: "string set"
  ps_answers :: "(request \<times> response) set"

definition proxy_init :: proxy_state where
  "proxy_init = \<lparr>ps_conc = conc_init, ps_flights = Map.empty, ps_held = {}, ps_answers = {}\<rparr>"

abbreviation ps_fs :: "proxy_state \<Rightarrow> fs" where
  "ps_fs st \<equiv> c_fs (ps_conc st)"

definition set_phase :: "nat \<Rightarrow> request \<Rightarrow> phase \<Rightarrow> proxy_state \<Rightarrow> proxy_state" where
  "set_phase i rq ph st = st\<lparr>ps_flights := (ps_flights st)(i \<mapsto> (rq, ph))\<rparr>"

definition set_disk :: "fs \<Rightarrow> proxy_state \<Rightarrow> proxy_state" where
  "set_disk s st = st\<lparr>ps_conc := (ps_conc st)\<lparr>c_fs := s\<rparr>\<rparr>"

definition add_answer :: "request \<Rightarrow> response \<Rightarrow> proxy_state \<Rightarrow> proxy_state" where
  "add_answer rq rs st = st\<lparr>ps_answers := insert (rq, rs) (ps_answers st)\<rparr>"

definition cacheable :: "('e, 's, 'n) server \<Rightarrow> request \<Rightarrow> response \<Rightarrow> bool" where
  "cacheable sv rq rs \<longleftrightarrow> rs_status rs = 200 \<and> should_cache (fix_url rq) (clean_response rs) (proxy_rule sv rq)"

text \<open>The steps, for requests with keys from \<open>K\<close>.\<close>

inductive proxy_step :: "disk \<Rightarrow> ('e, 's, 'n) server \<Rightarrow> string set \<Rightarrow> proxy_state \<Rightarrow> proxy_state \<Rightarrow> bool" for d sv K where
  lock: "ps_flights st i = None \<Longrightarrow> proxy_key sv rq \<in> K \<Longrightarrow> proxy_key sv rq \<notin> ps_held st \<Longrightarrow>
    proxy_step d sv K st (set_phase i rq Locked (st\<lparr>ps_held := insert (proxy_key sv rq) (ps_held st)\<rparr>))"
| found: "ps_flights st i = Some (rq, Locked) \<Longrightarrow> disk_get env (ps_fs st) (proxy_key sv rq) = (Inr (reader, m), s') \<Longrightarrow>
    proxy_step d sv K st (set_phase i rq (Looked (Some reader) m) (set_disk s' st))"
| absent: "ps_flights st i = Some (rq, Locked) \<Longrightarrow> disk_get env (ps_fs st) (proxy_key sv rq) = (Inl e, s') \<Longrightarrow> errors_is e ErrNotFound \<Longrightarrow>
    proxy_step d sv K st (set_phase i rq (Looked None no_metadata) (set_disk s' st))"
| unavailable: "ps_flights st i = Some (rq, Locked) \<Longrightarrow> disk_get env (ps_fs st) (proxy_key sv rq) = (Inl e, s') \<Longrightarrow>
    \<not> errors_is e ErrNotFound \<Longrightarrow> proxy_step d sv K st (set_phase i rq (Leaving None) (set_disk s' st))"
| unanswered: "ps_flights st i = Some (rq, Looked entry m) \<Longrightarrow> proxy_step d sv K st (set_phase i rq (Leaving entry) st)"
| passed: "ps_flights st i = Some (rq, Looked entry m) \<Longrightarrow> \<not> cacheable sv rq rs \<Longrightarrow>
    proxy_step d sv K st (set_phase i rq (Leaving entry) (add_answer rq rs st))"
| staged: "ps_flights st i = Some (rq, Looked entry m) \<Longrightarrow> cacheable sv rq rs \<Longrightarrow>
    stage env (ps_fs st) (proxy_key sv rq) (response_etag rs) (tee_reader (rs_body rs) cw) = (Inr tmp, n, s') \<Longrightarrow>
    content_size (entry_archive (proxy_key sv rq) (response_etag rs) (rd_data (tee_reader (rs_body rs) cw))) < 2 ^ 63 \<Longrightarrow>
    p = \<lparr>p_tmp = tmp, p_key = proxy_key sv rq, p_md = response_etag rs, p_data = rd_data (tee_reader (rs_body rs) cw)\<rparr> \<Longrightarrow>
    proxy_step d sv K st (set_phase i rq (Staged entry p rs)
      (add_answer rq rs (st\<lparr>ps_conc := (ps_conc st)\<lparr>c_fs := s', c_pending := p # c_pending (ps_conc st)\<rparr>\<rparr>)))"
| unstaged: "ps_flights st i = Some (rq, Looked entry m) \<Longrightarrow> cacheable sv rq rs \<Longrightarrow>
    stage env (ps_fs st) (proxy_key sv rq) (response_etag rs) (tee_reader (rs_body rs) cw) = (Inl e, n, s') \<Longrightarrow>
    proxy_step d sv K st (set_phase i rq (Leaving entry) (add_answer rq rs (set_disk s' st)))"
| accepted: "ps_flights st i = Some (rq, Staged entry p rs) \<Longrightarrow> env_sorts env \<Longrightarrow>
    accept env d (ps_fs st) (p_key p) (p_tmp p) = (None, s') \<Longrightarrow>
    proxy_step d sv K st (set_phase i rq (Leaving entry) (st\<lparr>ps_conc := \<lparr>c_fs = s', c_pending = remove1 p (c_pending (ps_conc st)),
      c_last = (c_last (ps_conc st))(path_name (p_key p) \<mapsto> (coerce_metadata (p_md p), p_data p))\<rparr>\<rparr>))"
| unaccepted: "ps_flights st i = Some (rq, Staged entry p rs) \<Longrightarrow> env_sorts env \<Longrightarrow>
    accept env d (ps_fs st) (p_key p) (p_tmp p) = (Some e, s') \<Longrightarrow>
    proxy_step d sv K st (set_phase i rq (Leaving entry) (st\<lparr>ps_conc := (ps_conc st)\<lparr>c_fs := os_remove_tmp env s' (p_tmp p),
      c_pending := remove1 p (c_pending (ps_conc st))\<rparr>\<rparr>))"
| closed: "ps_flights st i = Some (rq, Leaving (Some reader)) \<Longrightarrow> reader_close env (ps_fs st) = (r, s') \<Longrightarrow>
    proxy_step d sv K st (set_phase i rq (Leaving None) (set_disk s' st))"
| unlock: "ps_flights st i = Some (rq, Leaving None) \<Longrightarrow>
    proxy_step d sv K st (st\<lparr>ps_flights := (ps_flights st)(i := None), ps_held := ps_held st - {proxy_key sv rq}\<rparr>)"

inductive proxy_reachable :: "disk \<Rightarrow> ('e, 's, 'n) server \<Rightarrow> string set \<Rightarrow> proxy_state \<Rightarrow> bool" for d sv K where
  init: "proxy_reachable d sv K proxy_init"
| step: "proxy_reachable d sv K st \<Longrightarrow> proxy_step d sv K st st' \<Longrightarrow> proxy_reachable d sv K st'"

lemmas state_defs = set_phase_def set_disk_def add_answer_def

section \<open>Mutual exclusion\<close>

definition flights_ok :: "('e, 's, 'n) server \<Rightarrow> string set \<Rightarrow> proxy_state \<Rightarrow> bool" where
  "flights_ok sv K st \<longleftrightarrow>
     (\<forall>i rq ph. ps_flights st i = Some (rq, ph) \<longrightarrow> proxy_key sv rq \<in> K \<and> proxy_key sv rq \<in> ps_held st) \<and>
     (\<forall>i j rq rq' ph ph'. ps_flights st i = Some (rq, ph) \<longrightarrow> ps_flights st j = Some (rq', ph') \<longrightarrow>
        proxy_key sv rq = proxy_key sv rq' \<longrightarrow> i = j)"

lemma flights_okD:
  assumes "flights_ok sv K st" and "ps_flights st i = Some (rq, ph)"
  shows "proxy_key sv rq \<in> K" and "proxy_key sv rq \<in> ps_held st"
    and "ps_flights st j = Some (rq', ph') \<Longrightarrow> proxy_key sv rq = proxy_key sv rq' \<Longrightarrow> i = j"
  using assms unfolding flights_ok_def by blast+

lemma flights_ok_phase:
  assumes "flights_ok sv K st" and "ps_flights st i = Some (rq, ph)"
    and "ps_flights st' = (ps_flights st)(i \<mapsto> (rq, ph'))" and "ps_held st' = ps_held st"
  shows "flights_ok sv K st'"
  using assms unfolding flights_ok_def by (auto split: if_splits)

lemma flights_ok_step: "proxy_step d sv K st st' \<Longrightarrow> flights_ok sv K st \<Longrightarrow> flights_ok sv K st'"
proof (induction rule: proxy_step.induct)
  case (lock st i rq)
  then show ?case unfolding flights_ok_def by (auto simp: state_defs split: if_splits) metis+
next
  case (unlock st i rq)
  then show ?case unfolding flights_ok_def by (auto split: if_splits)
qed (erule flights_ok_phase, assumption, auto simp: state_defs)+

section \<open>Where the entries come from\<close>

definition complete_answer :: "('e, 's, 'n) server \<Rightarrow> proxy_state \<Rightarrow> request \<Rightarrow> response \<Rightarrow> bool" where
  "complete_answer sv st rq rs \<longleftrightarrow> (rq, rs) \<in> ps_answers st \<and> cacheable sv rq rs \<and> rd_err (rs_body rs) = None"

definition staged_flight :: "('e, 's, 'n) server \<Rightarrow> proxy_state \<Rightarrow> request \<Rightarrow> pending \<Rightarrow> response \<Rightarrow> bool" where
  "staged_flight sv st rq p rs \<longleftrightarrow> p \<in> set (c_pending (ps_conc st)) \<and> complete_answer sv st rq rs \<and>
     p_key p = proxy_key sv rq \<and> p_md p = response_etag rs \<and> p_data p = rd_data (rs_body rs)"

definition entry_source :: "('e, 's, 'n) server \<Rightarrow> proxy_state \<Rightarrow> string \<Rightarrow> metadata \<times> string \<Rightarrow> bool" where
  "entry_source sv st n v \<longleftrightarrow> (\<exists>rq rs. complete_answer sv st rq rs \<and> n = path_name (proxy_key sv rq) \<and>
     v = (coerce_metadata (response_etag rs), rd_data (rs_body rs)))"

definition proxy_inv :: "disk \<Rightarrow> ('e, 's, 'n) server \<Rightarrow> string set \<Rightarrow> proxy_state \<Rightarrow> bool" where
  "proxy_inv d sv K st \<longleftrightarrow> flights_ok sv K st \<and> disk_reachable d (ps_conc st) \<and>
     (\<forall>i rq entry p rs. ps_flights st i = Some (rq, Staged entry p rs) \<longrightarrow> staged_flight sv st rq p rs) \<and>
     (\<forall>n v. c_last (ps_conc st) n = Some v \<longrightarrow> entry_source sv st n v)"

lemma proxy_invD:
  assumes "proxy_inv d sv K st"
  shows "flights_ok sv K st" and "disk_reachable d (ps_conc st)"
    and "ps_flights st i = Some (rq, Staged entry p rs) \<Longrightarrow> staged_flight sv st rq p rs"
    and "c_last (ps_conc st) n = Some v \<Longrightarrow> entry_source sv st n v"
  using assms unfolding proxy_inv_def by blast+

lemma staged_flight_mono:
  "staged_flight sv st rq p rs \<Longrightarrow> ps_answers st \<subseteq> ps_answers st' \<Longrightarrow> p \<in> set (c_pending (ps_conc st')) \<Longrightarrow> staged_flight sv st' rq p rs"
  by (auto simp: staged_flight_def complete_answer_def)

lemma entry_source_mono: "entry_source sv st n v \<Longrightarrow> ps_answers st \<subseteq> ps_answers st' \<Longrightarrow> entry_source sv st' n v"
  unfolding entry_source_def complete_answer_def by blast

text \<open>A step that neither accepts nor drops a staged entry keeps the invariant.\<close>

lemma proxy_inv_phase:
  assumes "proxy_inv d sv K st" and "flights_ok sv K st'"
    and "ps_conc st' = ps_conc st \<or> disk_step d (ps_conc st) (ps_conc st')"
    and "\<And>j rq entry p rs. ps_flights st' j = Some (rq, Staged entry p rs) \<Longrightarrow>
      ps_flights st j = Some (rq, Staged entry p rs) \<or> staged_flight sv st' rq p rs"
    and "ps_answers st \<subseteq> ps_answers st'" and "set (c_pending (ps_conc st)) \<subseteq> set (c_pending (ps_conc st'))"
    and "c_last (ps_conc st') = c_last (ps_conc st)"
  shows "proxy_inv d sv K st'"
proof -
  have "disk_reachable d (ps_conc st')" using assms(3) proxy_invD(2) [OF assms(1)] disk_reachable.step by metis
  moreover have "staged_flight sv st' rq p rs" if "ps_flights st' j = Some (rq, Staged entry p rs)" for j rq entry p rs
    using assms(4) [OF that] proxy_invD(3) [OF assms(1)] staged_flight_mono [OF _ assms(5)] assms(6)
    by (metis staged_flight_def subsetD)
  moreover have "entry_source sv st' n v" if "c_last (ps_conc st') n = Some v" for n v
    using that assms(7) entry_source_mono [OF proxy_invD(4) [OF assms(1)] assms(5)] by metis
  ultimately show ?thesis using assms(2) by (auto simp: proxy_inv_def)
qed

lemma proxy_inv_move:
  assumes inv: "proxy_inv d sv K st" and i: "ps_flights st i = Some (rq, ph)"
    and st': "ps_flights st' = (ps_flights st)(i \<mapsto> (rq, ph'))" "\<And>entry p rs. ph' \<noteq> Staged entry p rs"
    and "ps_held st' = ps_held st" "ps_answers st \<subseteq> ps_answers st'"
    and "ps_conc st' = ps_conc st \<or> disk_step d (ps_conc st) (ps_conc st')" 
    and "c_pending (ps_conc st') = c_pending (ps_conc st)" "c_last (ps_conc st') = c_last (ps_conc st)"
  shows "proxy_inv d sv K st'"
  by (rule proxy_inv_phase [OF inv flights_ok_phase [OF proxy_invD(1) [OF inv] i st'(1) assms(5)] assms(7)])
    (use assms in \<open>auto split: if_splits\<close>)

text \<open>The end of a \<^verbatim>\<open>Put\<close>: no other request waits with the same staged entry.\<close>

lemma proxy_inv_finish:
  assumes inv: "proxy_inv d sv K st" and i: "ps_flights st i = Some (rq, Staged entry p rs)"
    and st': "ps_flights st' = (ps_flights st)(i \<mapsto> (rq, Leaving entry))" "ps_held st' = ps_held st" "ps_answers st' = ps_answers st"
    and conc: "disk_step d (ps_conc st) (ps_conc st')" "c_pending (ps_conc st') = remove1 p (c_pending (ps_conc st))"
      "c_last (ps_conc st') = c_last (ps_conc st) \<or>
       c_last (ps_conc st') = (c_last (ps_conc st))(path_name (p_key p) \<mapsto> (coerce_metadata (p_md p), p_data p))"
  shows "proxy_inv d sv K st'"
proof -
  note ok = proxy_invD [OF inv]
  from ok(3) [OF i] have p: "staged_flight sv st rq p rs" .
  have "flights_ok sv K st'" by (rule flights_ok_phase [OF ok(1) i st'(1,2)])
  moreover have "disk_reachable d (ps_conc st')" using ok(2) conc(1) by (rule disk_reachable.step)
  moreover have "staged_flight sv st' rq' p' rs'" if j: "ps_flights st' j = Some (rq', Staged entry' p' rs')" for j rq' entry' p' rs'
  proof -
    from j st'(1) have j': "ps_flights st j = Some (rq', Staged entry' p' rs')" "j \<noteq> i" by (auto split: if_splits)
    from ok(3) [OF j'(1)] have p': "staged_flight sv st rq' p' rs'" .
    have "p' \<noteq> p" using flights_okD(3) [OF ok(1) i j'(1)] j'(2) p p' by (auto simp: staged_flight_def)
    with p' have "p' \<in> set (c_pending (ps_conc st'))" by (simp add: conc(2) staged_flight_def)
    with staged_flight_mono [OF p'] show ?thesis by (simp add: st'(3))
  qed
  moreover have "entry_source sv st' n v" if "c_last (ps_conc st') n = Some v" for n v
  proof -
    from p have "entry_source sv st (path_name (p_key p)) (coerce_metadata (p_md p), p_data p)"
      unfolding entry_source_def staged_flight_def by auto
    with that conc(3) ok(4) [of n v] have "entry_source sv st n v" by (auto simp del: split_paired_All split: if_splits)
    then show ?thesis by (rule entry_source_mono) (simp add: st'(3))
  qed
  ultimately show ?thesis by (auto simp: proxy_inv_def)
qed

lemma staged_complete:
  assumes "stage env s key m (tee_reader b cw) = (Inr tmp, n, s')"
  shows "rd_err b = None" and "rd_data (tee_reader b cw) = rd_data b"
proof -
  from assms have "rd_err (tee_reader b cw) = None" by (cases rule: stage_cases) auto
  with tee_reader_ok [OF this] show "rd_err b = None" "rd_data (tee_reader b cw) = rd_data b" by simp_all
qed

lemma proxy_inv_step: "proxy_step d sv K st st' \<Longrightarrow> proxy_inv d sv K st \<Longrightarrow> proxy_inv d sv K st'"
proof (induction rule: proxy_step.induct)
  case (staged st i rq entry m rs env cw tmp n s' p)
  let ?st' = "set_phase i rq (Staged entry p rs)
      (add_answer rq rs (st\<lparr>ps_conc := (ps_conc st)\<lparr>c_fs := s', c_pending := p # c_pending (ps_conc st)\<rparr>\<rparr>))"
  have "proxy_step d sv K st ?st'" using staged.hyps by (rule proxy_step.staged)
  from flights_ok_step [OF this proxy_invD(1) [OF staged.prems]] have ok: "flights_ok sv K ?st'" .
  have p: "staged_flight sv ?st' rq p rs"
    using staged.hyps staged_complete [OF staged.hyps(3)] by (simp add: staged_flight_def complete_answer_def state_defs)
  have "disk_step d (ps_conc st) (ps_conc ?st')"
    using disk_step.staged_ok [OF staged.hyps(3,4), of d] by (simp add: state_defs staged.hyps(5))
  with p show ?case by (intro proxy_inv_phase [OF staged.prems ok]) (auto simp: state_defs split: if_splits)
next
  case (accepted st i rq entry p rs env s')
  from proxy_invD(3) [OF accepted.prems accepted.hyps(1)] have "p \<in> set (c_pending (ps_conc st))" by (simp add: staged_flight_def)
  from disk_step.accepted [OF this accepted.hyps(2,3)] show ?case
    by (intro proxy_inv_finish [OF accepted.prems accepted.hyps(1)]) (simp_all add: state_defs)
next
  case (unaccepted st i rq entry p rs env e s')
  from proxy_invD(3) [OF unaccepted.prems unaccepted.hyps(1)] have "p \<in> set (c_pending (ps_conc st))" by (simp add: staged_flight_def)
  from disk_step.accept_failed [OF this unaccepted.hyps(2,3)] show ?case
    by (intro proxy_inv_finish [OF unaccepted.prems unaccepted.hyps(1)]) (simp_all add: state_defs)
next
  case (unlock st i rq)
  show ?case
    by (rule proxy_inv_phase [OF unlock.prems flights_ok_step [OF proxy_step.unlock [OF unlock.hyps] proxy_invD(1) [OF unlock.prems]]])
      (auto split: if_splits)
next
  case (lock st i rq)
  show ?case
    by (rule proxy_inv_phase [OF lock.prems flights_ok_step [OF proxy_step.lock [OF lock.hyps] proxy_invD(1) [OF lock.prems]]])
      (auto simp: state_defs split: if_splits)
qed (rule proxy_inv_move, assumption, assumption, auto simp: state_defs intro: disk_step.intros)+

lemma proxy_reachable_inv: "proxy_reachable d sv K st \<Longrightarrow> proxy_inv d sv K st"
proof (induction rule: proxy_reachable.induct)
  case init
  show ?case by (simp add: proxy_inv_def proxy_init_def flights_ok_def disk_reachable.init) (simp add: conc_init_def)
next
  case (step st st')
  then show ?case by (blast intro: proxy_inv_step)
qed

section \<open>What a request has looked up\<close>

definition looked_ok :: "('e, 's, 'n) server \<Rightarrow> proxy_state \<Rightarrow> bool" where
  "looked_ok sv st \<longleftrightarrow> (\<forall>i rq reader m. ps_flights st i = Some (rq, Looked (Some reader) m) \<longrightarrow>
     (\<exists>blob. c_last (ps_conc st) (path_name (proxy_key sv rq)) = Some (m, blob) \<and> reads reader blob))"

lemma looked_ok_frame:
  assumes "looked_ok sv st" and "c_last (ps_conc st') = c_last (ps_conc st)"
    and "\<And>j rq reader m. ps_flights st' j = Some (rq, Looked (Some reader) m) \<Longrightarrow>
      ps_flights st j = Some (rq, Looked (Some reader) m) \<or>
      (\<exists>blob. c_last (ps_conc st) (path_name (proxy_key sv rq)) = Some (m, blob) \<and> reads reader blob)"
  shows "looked_ok sv st'"
  using assms unfolding looked_ok_def by metis

lemma looked_ok_step:
  assumes "proxy_step d sv K st st'" and "inj_on path_name K" and "unat (d_limit d) < 2 ^ 63" and "proxy_inv d sv K st"
    and "looked_ok sv st"
  shows "looked_ok sv st'"
  using assms
proof (induction rule: proxy_step.induct)
  case (found st i rq env reader m s')
  have "disk_stored (ps_fs st) \<subseteq>\<^sub>m c_last (ps_conc st)"
    using reachable_inv [OF proxy_invD(2) [OF found.prems(3)] found.prems(2)] by (simp add: conc_inv_def)
  then have "\<exists>blob. c_last (ps_conc st) (path_name (proxy_key sv rq)) = Some (m, blob) \<and> reads reader blob"
    using disk_get_sound [OF found.hyps(2)] by (force simp: map_le_def)
  then show ?case
    by (intro looked_ok_frame [OF found.prems(4)]) (auto simp: state_defs split: if_splits)
next
  case (accepted st i rq entry p rs env s')
  note ok = proxy_invD [OF accepted.prems(3)]
  have p: "p_key p = proxy_key sv rq" using ok(3) [OF accepted.hyps(1)] by (simp add: staged_flight_def)
  have "path_name (proxy_key sv rq') \<noteq> path_name (p_key p)" if "ps_flights st j = Some (rq', ph)" "j \<noteq> i" for j rq' ph
    using flights_okD [OF ok(1) accepted.hyps(1)] flights_okD(1) [OF ok(1) that(1)] that accepted.prems(1)
    unfolding p by (metis inj_onD)
  with accepted.prems(4) show ?case by (auto simp: looked_ok_def state_defs split: if_splits)
qed (erule looked_ok_frame; auto simp: state_defs split: if_splits)+

lemma reachable_looked_ok:
  assumes "proxy_reachable d sv K st" and "inj_on path_name K" and "unat (d_limit d) < 2 ^ 63"
  shows "looked_ok sv st"
  using assms
proof (induction rule: proxy_reachable.induct)
  case init
  show ?case by (simp add: looked_ok_def proxy_init_def)
next
  case (step st st')
  then show ?case using looked_ok_step [OF step.hyps(2) step.prems proxy_reachable_inv [OF step.hyps(1)]] by simp
qed

section \<open>Properties of every interleaving of requests\<close>

text \<open>
  C10. The mutex of the key serializes the requests of a node. In every state that concurrent requests to the proxy of a stand-alone node
  can reach, at most one request per key is past the mutex; and while it asks the upstream, the entry it found in the cache stays
  the last one accepted for the key, so that the 304 it may get is about the entry that it then serves (for keys whose
  digests differ): its reader yields the blob of that entry, unless a read of the file fails, and then it ends there with
  an error.
\<close>

theorem proxy_exclusive:
  assumes "proxy_reachable d sv K st" and "inj_on path_name K" and "unat (d_limit d) < 2 ^ 63"
    and "ps_flights st i = Some (rq, ph)"
  shows "(\<forall>j rq' ph'. ps_flights st j = Some (rq', ph') \<and> proxy_key sv rq' = proxy_key sv rq \<longrightarrow> j = i) \<and>
    (\<forall>reader m. ph = Looked (Some reader) m \<longrightarrow>
       (\<exists>blob. c_last (ps_conc st) (path_name (proxy_key sv rq)) = Some (m, blob) \<and>
          (\<forall>v. disk_stored (ps_fs st) (path_name (proxy_key sv rq)) = Some v \<longrightarrow> v = (m, blob)) \<and>
          prefix (rd_data reader) blob \<and> (rd_err reader = None \<longrightarrow> rd_data reader = blob)))"
proof -
  note ok = proxy_reachable_inv [OF assms(1)]
  have "disk_stored (ps_fs st) \<subseteq>\<^sub>m c_last (ps_conc st)"
    using reachable_inv [OF proxy_invD(2) [OF ok] assms(3)] by (simp add: conc_inv_def)
  then have kept: "c_last (ps_conc st) n = Some v" if "disk_stored (ps_fs st) n = Some v" for n v
    using that by (metis domI map_le_def)
  have alone: "j = i" if "ps_flights st j = Some (rq', ph')" "proxy_key sv rq' = proxy_key sv rq" for j rq' ph'
    using flights_okD(3) [OF proxy_invD(1) [OF ok] that(1) assms(4) that(2)] .
  have looked: "\<exists>blob. c_last (ps_conc st) (path_name (proxy_key sv rq)) = Some (m, blob) \<and>
      (\<forall>v. disk_stored (ps_fs st) (path_name (proxy_key sv rq)) = Some v \<longrightarrow> v = (m, blob)) \<and>
      prefix (rd_data reader) blob \<and> (rd_err reader = None \<longrightarrow> rd_data reader = blob)"
    if ph: "ph = Looked (Some reader) m" for reader m
  proof -
    obtain blob where b: "c_last (ps_conc st) (path_name (proxy_key sv rq)) = Some (m, blob)" "reads reader blob"
      using reachable_looked_ok [OF assms(1-3)] assms(4) [unfolded ph] unfolding looked_ok_def by blast
    with kept show ?thesis by (intro exI [of _ blob]) (auto simp: reads_def)
  qed
  show ?thesis using alone looked by blast
qed

text \<open>
  C5. Whatever the interleaving, the upstream's answers and the failures of system calls: the cache stays within its limit,
  and every entry of it is the complete body and the ETag of an answer that the upstream gave with status 200
  to a request for the key under whose file name it is stored, and that the policy allowed to keep.
\<close>

theorem proxy_concurrent_faithful:
  assumes "proxy_reachable d sv K st" and "unat (d_limit d) < 2 ^ 63"
  shows "used_bytes (ps_fs st) \<le> unat (d_limit d) \<and>
    (\<forall>n v. disk_stored (ps_fs st) n = Some v \<longrightarrow> (\<exists>rq rs. (rq, rs) \<in> ps_answers st \<and> cacheable sv rq rs \<and> rd_err (rs_body rs) = None \<and>
       n = path_name (proxy_key sv rq) \<and> v = (coerce_metadata (response_etag rs), rd_data (rs_body rs))))"
proof -
  note ok = proxy_reachable_inv [OF assms(1)]
  from reachable_inv [OF proxy_invD(2) [OF ok] assms(2)]
  have inv: "used_bytes (ps_fs st) \<le> unat (d_limit d)" "disk_stored (ps_fs st) \<subseteq>\<^sub>m c_last (ps_conc st)"
    by (simp_all add: conc_inv_def dir_ok_def)
  have "entry_source sv st n v" if "disk_stored (ps_fs st) n = Some v" for n v
    using that inv(2) proxy_invD(4) [OF ok] by (metis domI map_le_def)
  with inv(1) show ?thesis unfolding entry_source_def complete_answer_def by blast
qed

section \<open>The handler is a run of steps\<close>

abbreviation proxy_run :: "disk \<Rightarrow> ('e, 's, 'n) server \<Rightarrow> string set \<Rightarrow> proxy_state \<Rightarrow> proxy_state \<Rightarrow> bool" where
  "proxy_run d sv K \<equiv> (proxy_step d sv K)\<^sup>*\<^sup>*"

text \<open>A run of request \<open>i\<close> to the state with disk \<open>s\<close>, phase \<open>ph\<close> and what the upstream answered.\<close>

definition reaches ::
    "disk \<Rightarrow> ('e, 's, 'n) server \<Rightarrow> string set \<Rightarrow> nat \<Rightarrow> request \<Rightarrow> phase \<Rightarrow> fs \<Rightarrow> (request \<times> response) set \<Rightarrow> proxy_state \<Rightarrow> bool" where
  "reaches d sv K i rq ph s as st \<longleftrightarrow>
     (\<exists>st'. proxy_run d sv K st st' \<and> ps_flights st' = (ps_flights st)(i \<mapsto> (rq, ph)) \<and> ps_held st' = ps_held st \<and>
        ps_fs st' = s \<and> ps_answers st' = as)"

lemma reaches_step:
  "proxy_step d sv K st st' \<Longrightarrow> ps_flights st' = (ps_flights st)(i \<mapsto> (rq, ph)) \<Longrightarrow> ps_held st' = ps_held st \<Longrightarrow>
     reaches d sv K i rq ph (ps_fs st') (ps_answers st') st"
  unfolding reaches_def by blast

lemma reaches_trans:
  assumes "reaches d sv K i rq ph s as st"
    and "\<And>st'. ps_flights st' i = Some (rq, ph) \<Longrightarrow> ps_fs st' = s \<Longrightarrow> ps_answers st' = as \<Longrightarrow> reaches d sv K i rq ph' s' as' st'"
  shows "reaches d sv K i rq ph' s' as' st"
proof -
  from assms(1) obtain st1 where st1: "proxy_run d sv K st st1" "ps_flights st1 = (ps_flights st)(i \<mapsto> (rq, ph))"
    "ps_held st1 = ps_held st" "ps_fs st1 = s" "ps_answers st1 = as" by (auto simp: reaches_def)
  from assms(2) [of st1] st1 obtain st2 where "proxy_run d sv K st1 st2" "ps_flights st2 = (ps_flights st1)(i \<mapsto> (rq, ph'))"
    "ps_held st2 = ps_held st1" "ps_fs st2 = s'" "ps_answers st2 = as'" by (auto simp: reaches_def)
  with st1 show ?thesis unfolding reaches_def by (intro exI [of _ st2]) auto
qed

lemma reaches_put:
  assumes i: "ps_flights st i = Some (rq, Looked entry m)" and c: "cacheable sv rq rs"
    and put: "disk_put d env (ps_fs st) (proxy_key sv rq) (response_etag rs) (tee_reader (rs_body rs) cw) = (q, s)"
    and sorts: "env_sorts env"
    and size: "content_size (entry_archive (proxy_key sv rq) (response_etag rs) (rd_data (rs_body rs))) < 2 ^ 63"
  shows "reaches d sv K i rq (Leaving entry) s (insert (rq, rs) (ps_answers st)) st"
proof -
  let ?key = "proxy_key sv rq" and ?m = "response_etag rs" and ?b = "tee_reader (rs_body rs) cw"
  obtain t n s1 where t: "stage env (ps_fs st) ?key ?m ?b = (t, n, s1)" by (metis prod.collapse)
  show ?thesis
  proof (cases t)
    case (Inl e)
    with put t have "s = s1" by (simp add: disk_put_def)
    with reaches_step [OF proxy_step.unstaged [OF i c t [unfolded Inl]], where i = i and rq = rq and ph = "Leaving entry"]
    show ?thesis by (simp add: state_defs)
  next
    case (Inr tmp)
    let ?p = "\<lparr>p_tmp = tmp, p_key = ?key, p_md = ?m, p_data = rd_data ?b\<rparr>"
    have "content_size (entry_archive ?key ?m (rd_data ?b)) < 2 ^ 63"
      using size staged_complete [OF t [unfolded Inr]] by simp
    from reaches_step [OF proxy_step.staged [OF i c t [unfolded Inr] this refl], where i = i and rq = rq and ph = "Staged entry ?p rs"]
    have st: "reaches d sv K i rq (Staged entry ?p rs) s1 (insert (rq, rs) (ps_answers st)) st" by (simp add: state_defs)
    obtain a s2 where a: "accept env d s1 ?key tmp = (a, s2)" by fastforce
    show ?thesis
    proof (rule reaches_trans [OF st])
      fix st' assume st': "ps_flights st' i = Some (rq, Staged entry ?p rs)" "ps_fs st' = s1" "ps_answers st' = insert (rq, rs) (ps_answers st)"
      show "reaches d sv K i rq (Leaving entry) s (insert (rq, rs) (ps_answers st)) st'"
      proof (cases a)
        case None
        with put t Inr a have "s = s2" by (simp add: disk_put_def)
        with reaches_step [OF proxy_step.accepted [OF st'(1) sorts, where d = d and s' = s2], where i = i and rq = rq and ph = "Leaving entry"]
          st' a None show ?thesis by (simp add: state_defs)
      next
        case (Some e)
        with put t Inr a have "s = os_remove_tmp env s2 tmp" by (simp add: disk_put_def)
        with reaches_step [OF proxy_step.unaccepted [OF st'(1) sorts, where d = d and s' = s2 and e = e], where i = i and rq = rq and ph = "Leaving entry"]
          st' a Some show ?thesis by (simp add: state_defs)
      qed
    qed
  qed
qed

lemma answer_keeps_disk:
  assumes "answer pk sv env rq ru ca key entry rs cw w = Some (r, cw', w')" and "\<not> (rs_status rs = 200 \<and> should_cache rq rs ru)"
  shows "w_disk w' = w_disk w"
  using assms(1)
proof (cases rule: answer_cases)
  case (redirect c ru' reader)
  then show ?thesis by (auto simp: answer_redirect_def Let_def split: option.splits sum.splits)
next
  case hit
  then show ?thesis by (auto simp: answer_copy_def count_cache_op_def split: prod.splits option.splits)
next
  case passed
  then show ?thesis by (auto simp: answer_copy_def count_cache_op_def split: prod.splits option.splits)
qed (use assms(2) in simp)

definition small_answers :: "('e, 's, 'n) server \<Rightarrow> 'e request_env \<Rightarrow> request \<Rightarrow> bool" where
  "small_answers sv env rq \<longleftrightarrow> (\<forall>m rs. upstream_answered sv env rq m rs \<longrightarrow>
     content_size (entry_archive (proxy_key sv rq) (response_etag rs) (rd_data (rs_body rs))) < 2 ^ 63)"

lemma reaches_upstream:
  assumes up: "proxy_upstream pk sv env (fix_url rq) (proxy_rule sv rq) None (proxy_key sv rq) entry m cw w = Some (r, cw', w')"
    and i: "ps_flights st i = Some (rq, Looked entry m)" and disk: "w_disk w = ps_fs st" "sv_disk sv = disk_ops d"
    and env: "env_sorts (re_put env)" "small_answers sv env rq"
  shows "\<exists>as. reaches d sv K i rq (Leaving entry) (w_disk w') as st \<and>
    as \<subseteq> ps_answers st \<union> {(rq, rs) |rs. upstream_answered sv env rq m rs}"
proof -
  note silent = reaches_step [OF proxy_step.unanswered [OF i, of d sv K], where i = i and rq = rq and ph = "Leaving entry"]
  show ?thesis using up
  proof (cases rule: upstream_cases)
    case unsent
    with silent disk(1) show ?thesis by (intro exI [of _ "ps_answers st"]) (simp add: state_defs)
  next
    case (unanswered urq e k n)
    with silent disk(1) show ?thesis by (intro exI [of _ "ps_answers st"]) (simp add: state_defs)
  next
    case (responded urq rs k n)
    have ans: "upstream_answered sv env rq m rs"
      using upstream_requestI [OF responded(1)] responded(2) unfolding upstream_answered_def by blast
    have "reaches d sv K i rq (Leaving entry) (w_disk w') (insert (rq, rs) (ps_answers st)) st"
    proof (cases "cacheable sv rq rs")
      case False
      then have "w_disk w' = ps_fs st"
        using answer_keeps_disk [OF responded(3)] disk(1) by (simp add: cacheable_def clean_response_def)
      with reaches_step [OF proxy_step.passed [OF i False, of d K], where i = i and rq = rq and ph = "Leaving entry"]
      show ?thesis by (simp add: state_defs)
    next
      case True
      let ?cw = "cw_set_header (propagate (rs_header (clean_response rs)) (cw_header cw)) cw"
      have rs: "rs_status (clean_response rs) = 200" "should_cache (fix_url rq) (clean_response rs) (proxy_rule sv rq)"
        "rs_body (clean_response rs) = rs_body rs"
        using True by (simp_all add: cacheable_def clean_response_def)
      obtain q s where put: "disk_put d (re_put env) (ps_fs st) (proxy_key sv rq) (response_etag rs) (tee_reader (rs_body rs) ?cw) = (q, s)"
        by fastforce
      with responded(3) disk rs have "w_disk w' = s"
        by (auto simp: answer_def answer_and_cache_def chosen_put_def disk_ops_def response_etag_def count_cache_op_def
            split: prod.splits option.splits)
      moreover have "content_size (entry_archive (proxy_key sv rq) (response_etag rs) (rd_data (rs_body rs))) < 2 ^ 63"
        using env(2) ans unfolding small_answers_def by blast
      ultimately show ?thesis using reaches_put [OF i True put env(1)] by simp
    qed
    with ans show ?thesis by blast
  qed
qed

lemma run_leave:
  assumes i: "ps_flights st i = Some (rq, Leaving entry)"
  shows "\<exists>st'. proxy_run d sv K st st' \<and> ps_flights st' = (ps_flights st)(i := None) \<and> ps_held st' = ps_held st - {proxy_key sv rq} \<and>
    ps_fs st' = (case entry of None \<Rightarrow> ps_fs st | Some _ \<Rightarrow> snd (reader_close env (ps_fs st))) \<and> ps_answers st' = ps_answers st"
proof (cases entry)
  case None
  with proxy_step.unlock [of st i rq d sv K] i show ?thesis
    by (intro exI [of _ "st\<lparr>ps_flights := (ps_flights st)(i := None), ps_held := ps_held st - {proxy_key sv rq}\<rparr>"]) auto
next
  case (Some reader)
  obtain r s where c: "reader_close env (ps_fs st) = (r, s)" by fastforce
  from proxy_step.closed [OF i [unfolded Some] c, of d sv K]
  have "proxy_run d sv K st (set_phase i rq (Leaving None) (set_disk s st))" ..
  moreover have "ps_flights (set_phase i rq (Leaving None) (set_disk s st)) i = Some (rq, Leaving None)" by (simp add: state_defs)
  from proxy_step.unlock [OF this, of d sv K] have "proxy_run d sv K (set_phase i rq (Leaving None) (set_disk s st))
      (st\<lparr>ps_conc := (ps_conc st)\<lparr>c_fs := s\<rparr>, ps_flights := (ps_flights st)(i := None), ps_held := ps_held st - {proxy_key sv rq}\<rparr>)"
    by (intro r_into_rtranclp) (simp add: state_defs)
  ultimately show ?thesis using Some c by (intro exI conjI) (erule rtranclp_trans, assumption, simp_all)
qed

lemma reaches_lookup:
  assumes i: "ps_flights st i = Some (rq, Locked)" and "w_disk w = ps_fs st" "sv_disk sv = disk_ops d"
    and "looked_up sv env None (proxy_key sv rq) w entry m w1"
  shows "reaches d sv K i rq (Looked entry m) (w_disk w1) (ps_answers st) st"
proof (cases entry)
  case None
  with assms obtain err where g: "disk_get (re_get env) (ps_fs st) (proxy_key sv rq) = (Inl err, w_disk w1)" "errors_is err ErrNotFound"
    "m = no_metadata" by (auto simp: looked_up_def chosen_get_def disk_ops_def split: prod.splits)
  from reaches_step [OF proxy_step.absent [OF i g(1,2), of d K], where i = i and rq = rq and ph = "Looked None no_metadata"]
  show ?thesis using None g(3) by (simp add: state_defs)
next
  case (Some reader)
  with assms have g: "disk_get (re_get env) (ps_fs st) (proxy_key sv rq) = (Inr (reader, m), w_disk w1)"
    by (auto simp: looked_up_def chosen_get_def disk_ops_def split: prod.splits)
  from reaches_step [OF proxy_step.found [OF i g, of d K], where i = i and rq = rq and ph = "Looked (Some reader) m"]
  show ?thesis using Some by (simp add: state_defs)
qed

lemma reaches_handled:
  assumes h: "handle_proxy_default pk env sv rq cw w = Some (r, cw', w')" and "rq_host rq \<noteq> []"
    and disk: "sv_disk sv = disk_ops d" "choose_cache pk sv (proxy_key sv rq) = Some None"
    and i: "ps_flights st i = Some (rq, Locked)" and st: "w_disk w = ps_fs st" and env: "env_sorts (re_put env)" "small_answers sv env rq"
  shows "\<exists>as entry s. reaches d sv K i rq (Leaving entry) s as st \<and>
    as \<subseteq> ps_answers st \<union> {(rq, rs) |rs. \<exists>m. upstream_answered sv env rq m rs} \<and>
    w_disk w' = (case entry of None \<Rightarrow> s | Some _ \<Rightarrow> snd (reader_close (re_close env) s))"
  using h assms(2)
proof (cases rule: proxy_cases)
  case (unavailable ca err w1)
  with disk have "disk_get (re_get env) (ps_fs st) (proxy_key sv rq) = (Inl err, w_disk w1)"
    by (auto simp: chosen_get_def disk_ops_def st split: prod.splits)
  from reaches_step [OF proxy_step.unavailable [OF i this unavailable(3), of d K], where i = i and rq = rq and ph = "Leaving None"]
  show ?thesis using unavailable(6) by (intro exI [of _ "ps_answers st"] exI [of _ None] exI [of _ "w_disk w1"]) (simp add: state_defs)
next
  case (forwarded ca entry m w1 w2)
  have ca: "ca = None" using forwarded(1) disk(2) by simp
  from reaches_lookup [OF i st disk(1) forwarded(2) [unfolded ca], of K] obtain st1 where
    st1: "proxy_run d sv K st st1" "ps_flights st1 = (ps_flights st)(i \<mapsto> (rq, Looked entry m))"
      "ps_held st1 = ps_held st" "ps_fs st1 = w_disk w1" "ps_answers st1 = ps_answers st" by (auto simp: reaches_def)
  then have i1: "ps_flights st1 i = Some (rq, Looked entry m)" by simp
  from reaches_upstream [OF forwarded(3) [unfolded ca] i1 st1(4) [symmetric] disk(1) env, of K] obtain as where
    as: "reaches d sv K i rq (Leaving entry) (w_disk w2) as st1" "as \<subseteq> ps_answers st \<union> {(rq, rs) |rs. upstream_answered sv env rq m rs}"
    by (auto simp: st1(5))
  then have "reaches d sv K i rq (Leaving entry) (w_disk w2) as st"
    unfolding reaches_def using st1(1-3) by (auto intro: rtranclp_trans)
  moreover have "w_disk w' = (case entry of None \<Rightarrow> w_disk w2 | Some _ \<Rightarrow> snd (reader_close (re_close env) (w_disk w2)))"
    using forwarded(4) by (simp add: ca chosen_close_def disk(1) disk_ops_def split: option.splits)
  ultimately show ?thesis using as(2) by blast
qed

lemma handler_run:
  assumes h: "handle_proxy_default pk env sv rq cw w = Some (r, cw', w')" and "rq_host rq \<noteq> []"
    and "sv_disk sv = disk_ops d" "choose_cache pk sv (proxy_key sv rq) = Some None"
    and free: "ps_flights st i = None" "proxy_key sv rq \<in> K" "proxy_key sv rq \<notin> ps_held st"
    and "w_disk w = ps_fs st" "env_sorts (re_put env)" "small_answers sv env rq"
  shows "\<exists>st'. proxy_run d sv K st st' \<and> ps_fs st' = w_disk w' \<and> ps_flights st' = ps_flights st \<and> ps_held st' = ps_held st \<and>
    ps_answers st' \<subseteq> ps_answers st \<union> {(rq, rs) |rs. \<exists>m. upstream_answered sv env rq m rs}"
proof -
  let ?key = "proxy_key sv rq" and ?st = "set_phase i rq Locked (st\<lparr>ps_held := insert (proxy_key sv rq) (ps_held st)\<rparr>)"
  have lock: "proxy_run d sv K st ?st" using proxy_step.lock [OF free, of d] ..
  have i: "ps_flights ?st i = Some (rq, Locked)" and st: "w_disk w = ps_fs ?st" "ps_answers ?st = ps_answers st"
    using assms(8) by (simp_all add: state_defs)
  from reaches_handled [OF h assms(2-4) i st(1) assms(9,10), of K] obtain as entry s st1 where
    st1: "proxy_run d sv K ?st st1" "ps_flights st1 = (ps_flights ?st)(i \<mapsto> (rq, Leaving entry))"
      "ps_held st1 = ps_held ?st" "ps_fs st1 = s" "ps_answers st1 = as"
    and as: "as \<subseteq> ps_answers st \<union> {(rq, rs) |rs. \<exists>m. upstream_answered sv env rq m rs}"
      "w_disk w' = (case entry of None \<Rightarrow> s | Some _ \<Rightarrow> snd (reader_close (re_close env) s))"
    by (auto simp: reaches_def st(2))
  have "ps_flights st1 i = Some (rq, Leaving entry)" using st1(2) by simp
  from run_leave [OF this, of d sv K "re_close env"] obtain st2 where st2: "proxy_run d sv K st1 st2"
    "ps_flights st2 = (ps_flights st1)(i := None)" "ps_held st2 = ps_held st1 - {?key}" "ps_answers st2 = as" "ps_fs st2 = w_disk w'"
    using st1(4,5) as(2) by auto
  have "ps_flights st2 = ps_flights st" "ps_held st2 = ps_held st"
    using st1(2,3) st2(2,3) free by (auto simp: state_defs fun_eq_iff)
  moreover have "proxy_run d sv K st st2" using lock st1(1) st2(1) by (meson rtranclp_trans)
  ultimately show ?thesis using st2 as(1) by blast
qed

lemma run_reachable: "proxy_run d sv K st st' \<Longrightarrow> proxy_reachable d sv K st \<Longrightarrow> proxy_reachable d sv K st'"
  by (induction rule: rtranclp_induct) (auto intro: proxy_reachable.step)

text \<open>
  C11. The steps are those of the handler: an uninterrupted \<^verbatim>\<open>handleProxyDefault\<close> of a request whose key is free, on a node that owns
  the key, is a run of steps that takes the directory to the same contents, leaves no request in flight and the
  mutex as it was, and records as answers only what the upstream answered.
\<close>

theorem handler_is_run:
  assumes "handle_proxy_default pk env sv rq cw w = Some (r, cw', w')" and "rq_host rq \<noteq> []"
    and "sv_disk sv = disk_ops d" "choose_cache pk sv (proxy_key sv rq) = Some None"
    and "ps_flights st i = None" "proxy_key sv rq \<in> K" "proxy_key sv rq \<notin> ps_held st"
    and "w_disk w = ps_fs st" "env_sorts (re_put env)" "small_answers sv env rq"
  shows "\<exists>st'. proxy_run d sv K st st' \<and> ps_fs st' = w_disk w' \<and> ps_flights st' = ps_flights st \<and> ps_held st' = ps_held st \<and>
    ps_answers st' \<subseteq> ps_answers st \<union> {(rq, rs) |rs. \<exists>m. upstream_answered sv env rq m rs}"
  by (rule handler_run [OF assms])

section \<open>A history\<close>

abbreviation sample_site :: string where
  "sample_site \<equiv> ''https://example.com/a''"

lemma sample_small: "small_answers caching_server env (sample_request [])"
proof -
  have "content_size (entry_archive sample_site (response_etag rs) (rd_data (rs_body rs))) < 2 ^ 63"
    if "sample_origin e urq n = (Inr rs, k, n')" for e :: os_env and urq n rs k and n' :: unit
  proof (cases "header_values (rq_header urq) ''If-None-Match'' = []")
    case True
    with that have "rs = sample_answer" by (simp add: sample_origin_def)
    with le_less_trans [OF sample_answer_fits sample_limit] show ?thesis by (simp only:)
  next
    case False
    with that have rs: "rs = \<lparr>rs_status = 304, rs_header = [], rs_body = bytes_reader []\<rparr>" by (simp add: sample_origin_def)
    have "length (marshal_info \<lparr>info_key = sample_site, info_metadata = response_etag rs\<rparr>) = 46" unfolding rs by code_simp
    then show ?thesis
      by (simp add: rs content_size_def entry_archive_def zip_size_def zip_member_size_def fileInfo_def fileBlob_def Let_def)
  qed
  then show ?thesis unfolding small_answers_def upstream_answered_def caching_server_key by (auto simp: caching_server_facts)
qed

lemma sample_handled:
  "\<exists>r cw w. handle_proxy_default sample_packages (quiet_renv 5 ''t'') caching_server (sample_request []) (cw_wrap (fresh_writer None)) disk_world =
     Some (r, cw, w) \<and> disk_stored (w_disk w) (path_name sample_site) = Some (sample_md, ''hi'')"
  using proxy_first [OF caching_server_facts(1,2) sample_request_host caching_server_key disk_world_facts(1-3) sample_answer_fits sample_forward(1) _ _
      caching_server_keeps _ sample_announced(1), where pk = sample_packages and now = 5 and tmp = "''t''" and k = 0 and n = "()"]
  by (auto simp: caching_server_facts sample_answers(1) sample_answer_md sample_writer)

lemma history_run:
  assumes "handle_proxy_default sample_packages (quiet_renv 5 ''t'') caching_server (sample_request []) (cw_wrap (fresh_writer None)) disk_world =
     Some (r, cw, w)"
  shows "\<exists>st. proxy_reachable sample_disk caching_server {sample_site} st \<and> ps_fs st = w_disk w \<and> ps_flights st = Map.empty \<and> ps_held st = {}"
proof -
  have init: "ps_flights proxy_init 0 = None" "sample_site \<notin> ps_held proxy_init" "w_disk disk_world = ps_fs proxy_init"
    "ps_flights proxy_init = Map.empty" "ps_held proxy_init = {}"
    by (simp_all add: proxy_init_def conc_init_def disk_world_def)
  have "\<exists>st. proxy_run sample_disk caching_server {sample_site} proxy_init st \<and> ps_fs st = w_disk w \<and>
      ps_flights st = ps_flights proxy_init \<and> ps_held st = ps_held proxy_init \<and>
      ps_answers st \<subseteq> ps_answers proxy_init \<union>
        {(sample_request [], rs) |rs. \<exists>m. upstream_answered caching_server (quiet_renv 5 ''t'') (sample_request []) m rs}"
    by (rule handler_run [OF assms sample_request_host caching_server_facts(1,2) init(1) _ _ init(3) _ sample_small])
      (simp_all add: caching_server_key init(2) quiet_env_sorts)
  then show ?thesis unfolding init(4,5) using run_reachable [OF _ proxy_reachable.init] by blast
qed

theorem handler_is_run_witness:
  "\<exists>r cw w st. handle_proxy_default sample_packages (quiet_renv 5 ''t'') caching_server (sample_request []) (cw_wrap (fresh_writer None)) disk_world =
     Some (r, cw, w) \<and> proxy_run sample_disk caching_server {sample_site} proxy_init st \<and> ps_fs st = w_disk w \<and>
     disk_stored (ps_fs st) (path_name sample_site) = Some (sample_md, ''hi'')"
proof -
  from sample_handled obtain r cw w where
    h: "handle_proxy_default sample_packages (quiet_renv 5 ''t'') caching_server (sample_request []) (cw_wrap (fresh_writer None)) disk_world =
      Some (r, cw, w)" "disk_stored (w_disk w) (path_name sample_site) = Some (sample_md, ''hi'')" by blast
  have init: "ps_flights proxy_init 0 = None" "sample_site \<notin> ps_held proxy_init" "w_disk disk_world = ps_fs proxy_init"
    by (simp_all add: proxy_init_def conc_init_def disk_world_def)
  have "\<exists>st. proxy_run sample_disk caching_server {sample_site} proxy_init st \<and> ps_fs st = w_disk w \<and>
      ps_flights st = ps_flights proxy_init \<and> ps_held st = ps_held proxy_init \<and>
      ps_answers st \<subseteq> ps_answers proxy_init \<union>
        {(sample_request [], rs) |rs. \<exists>m. upstream_answered caching_server (quiet_renv 5 ''t'') (sample_request []) m rs}"
    by (rule handler_is_run [OF h(1) sample_request_host caching_server_facts(1,2) init(1) _ _ init(3) _ sample_small])
      (simp_all add: caching_server_key init(2) quiet_env_sorts)
  then obtain st where st: "proxy_run sample_disk caching_server {sample_site} proxy_init st" "ps_fs st = w_disk w" by blast
  from h(2) have "disk_stored (ps_fs st) (path_name sample_site) = Some (sample_md, ''hi'')" by (simp only: st(2))
  with h(1) st show ?thesis by blast
qed

lemma sample_history:
  "\<exists>st. proxy_reachable sample_disk caching_server {sample_site} st \<and> ps_flights st = Map.empty \<and> ps_held st = {} \<and>
     disk_stored (ps_fs st) (path_name sample_site) = Some (sample_md, ''hi'')"
proof -
  from sample_handled obtain r cw w where
    h: "handle_proxy_default sample_packages (quiet_renv 5 ''t'') caching_server (sample_request []) (cw_wrap (fresh_writer None)) disk_world =
      Some (r, cw, w)" "disk_stored (w_disk w) (path_name sample_site) = Some (sample_md, ''hi'')" by blast
  from history_run [OF h(1)] h(2) show ?thesis by (elim exE) (intro exI conjI, auto)
qed

theorem proxy_concurrent_faithful_witness:
  "\<exists>st rq rs. proxy_reachable sample_disk caching_server {sample_site} st \<and> used_bytes (ps_fs st) \<le> unat (d_limit sample_disk) \<and>
     disk_stored (ps_fs st) (path_name sample_site) = Some (sample_md, ''hi'') \<and>
     (rq, rs) \<in> ps_answers st \<and> cacheable caching_server rq rs \<and> rd_data (rs_body rs) = ''hi''"
proof -
  from sample_history obtain st where st: "proxy_reachable sample_disk caching_server {sample_site} st"
    "disk_stored (ps_fs st) (path_name sample_site) = Some (sample_md, ''hi'')" by blast
  from proxy_concurrent_faithful [OF st(1) sample_limit] st(2) obtain rq rs where
    "used_bytes (ps_fs st) \<le> unat (d_limit sample_disk)" "(rq, rs) \<in> ps_answers st" "cacheable caching_server rq rs"
    "(sample_md, ''hi'') = (coerce_metadata (response_etag rs), rd_data (rs_body rs))" by blast
  with st show ?thesis by (intro exI [of _ st] exI [of _ rq] exI [of _ rs]) simp
qed

text \<open>Then a second request finds the entry.\<close>

theorem proxy_exclusive_witness:
  "\<exists>st reader. proxy_reachable sample_disk caching_server {sample_site} st \<and>
     ps_flights st 7 = Some (sample_request [], Looked (Some reader) sample_md) \<and>
     c_last (ps_conc st) (path_name sample_site) = Some (sample_md, rd_data reader)"
proof -
  from sample_history obtain st where st: "proxy_reachable sample_disk caching_server {sample_site} st" "ps_flights st = Map.empty"
    "ps_held st = {}" "disk_stored (ps_fs st) (path_name sample_site) = Some (sample_md, ''hi'')" by blast
  let ?st1 = "set_phase 7 (sample_request []) Locked (st\<lparr>ps_held := {sample_site}\<rparr>)"
  have "proxy_step sample_disk caching_server {sample_site} st ?st1"
    using proxy_step.lock [of st 7 caching_server "sample_request []" "{sample_site}" sample_disk] st(2,3) by (simp add: caching_server_key)
  with st(1) have r1: "proxy_reachable sample_disk caching_server {sample_site} ?st1" by (rule proxy_reachable.step)
  have i: "ps_flights ?st1 7 = Some (sample_request [], Locked)" by (simp add: state_defs)
  have "disk_stored (ps_fs ?st1) (path_name sample_site) = Some (sample_md, ''hi'')" using st(4) by (simp add: state_defs)
  from disk_get_quiet [OF this, of 9 "[]"] obtain s where
    g: "disk_get (quiet_env 9 []) (ps_fs ?st1) (proxy_key caching_server (sample_request [])) = (Inr (bytes_reader ''hi'', sample_md), s)"
    unfolding caching_server_key by blast
  let ?st2 = "set_phase 7 (sample_request []) (Looked (Some (bytes_reader ''hi'')) sample_md) (set_disk s ?st1)"
  from proxy_step.found [OF i g] r1 have r2: "proxy_reachable sample_disk caching_server {sample_site} ?st2" by (rule proxy_reachable.step [rotated])
  have inj: "inj_on path_name {sample_site}" by simp
  have i2: "ps_flights ?st2 7 = Some (sample_request [], Looked (Some (bytes_reader ''hi'')) sample_md)" by (simp add: state_defs)
  from proxy_exclusive [OF r2 inj sample_limit i2]
  have "c_last (ps_conc ?st2) (path_name sample_site) = Some (sample_md, rd_data (bytes_reader ''hi''))"
    unfolding caching_server_key by simp
  with r2 i2 show ?thesis by blast
qed

end
