(* ===== verification/GoNet.thy ===== *)
theory GoNet
  imports GoUrl
begin

text \<open>
  The parts of \<^verbatim>\<open>net\<close> that the program uses on addresses: \<^verbatim>\<open>SplitHostPort\<close>, and \<^verbatim>\<open>ParseIP\<close> with
  \<^verbatim>\<open>IsUnspecified\<close>.
\<close>

section \<open>Host and port\<close>

definition addr_error :: "(string \<times> string) result" where
  "addr_error = Inl (Errorf ''address: invalid host and port'')"

text \<open>
  The port starts after the last colon; a host in brackets must end right before it, a host without
  brackets must have no colon, and no further brackets may occur.
\<close>

definition split_host_port :: "string \<Rightarrow> (string \<times> string) result" where
  "split_host_port s =
     (case split_last (CHR '':'') s of
        (before, port, found) \<Rightarrow>
          if \<not> found then addr_error
          else if has_prefix ''['' s then
            (case strings_cut (CHR '']'') (tl s) of
               (host, after, closed) \<Rightarrow>
                 if \<not> closed \<or> before \<noteq> CHR ''['' # host @ '']'' then addr_error
                 else if CHR ''['' \<in> set (host @ port) \<or> CHR '']'' \<in> set port then addr_error
                 else Inr (host, port))
          else if CHR '':'' \<in> set before \<or> CHR ''['' \<in> set s \<or> CHR '']'' \<in> set s then addr_error
          else Inr (before, port))"

section \<open>IP addresses\<close>

text \<open>A field of a dotted address: one to three digits without a leading zero, at most 255.\<close>

definition ipv4_field :: "string \<Rightarrow> nat option" where
  "ipv4_field s =
     (if s = [] \<or> length s > 3 \<or> (length s > 1 \<and> hd s = CHR ''0'') then None
      else (case digits_val 0 s of Some n \<Rightarrow> if n \<le> 255 then Some n else None | None \<Rightarrow> None))"

fun all_some :: "'a option list \<Rightarrow> 'a list option" where
  "all_some [] = Some []"
| "all_some (x # xs) = (case x of None \<Rightarrow> None | Some a \<Rightarrow> map_option ((#) a) (all_some xs))"

definition parse_ipv4 :: "string \<Rightarrow> nat list option" where
  "parse_ipv4 s =
     (let fs = strings_split (CHR ''.'') s in if length fs = 4 then all_some (map ipv4_field fs) else None)"

text \<open>A group of an IPv6 address: one to four hexadecimal digits.\<close>

fun hex_val :: "nat \<Rightarrow> string \<Rightarrow> nat option" where
  "hex_val acc [] = Some acc"
| "hex_val acc (c # s) = (case unhex c of None \<Rightarrow> None | Some d \<Rightarrow> hex_val (16 * acc + d) s)"

definition ipv6_group :: "string \<Rightarrow> nat option" where
  "ipv6_group s = (if s = [] \<or> length s > 4 then None else hex_val 0 s)"

text \<open>A run of groups between colons; the last of them may be a dotted address, which counts for two.\<close>

definition ipv6_run :: "string \<Rightarrow> nat list option" where
  "ipv6_run s =
     (if s = [] then Some []
      else
        (let gs = strings_split (CHR '':'') s; l = last gs in
         if CHR ''.'' \<in> set l then
           (case (all_some (map ipv6_group (butlast gs)), parse_ipv4 l) of
              (Some xs, Some [a, b, c, d]) \<Rightarrow> Some (xs @ [256 * a + b, 256 * c + d])
            | _ \<Rightarrow> None)
         else all_some (map ipv6_group gs)))"

definition parse_ipv6 :: "string \<Rightarrow> nat list option" where
  "parse_ipv6 s =
     (case cut_before ''::'' s of
        (l, r, True) \<Rightarrow>
          if CHR ''.'' \<in> set l then None
          else
            (case (ipv6_run l, ipv6_run (drop 2 r)) of
               (Some xs, Some ys) \<Rightarrow>
                 if length xs + length ys < 8 then Some (xs @ replicate (8 - (length xs + length ys)) 0 @ ys) else None
             | _ \<Rightarrow> None)
      | _ \<Rightarrow> (case ipv6_run s of Some xs \<Rightarrow> if length xs = 8 then Some xs else None | None \<Rightarrow> None))"

definition parse_ip :: "string \<Rightarrow> nat list option" where
  "parse_ip s = (if CHR '':'' \<in> set s then parse_ipv6 s else parse_ipv4 s)"

text \<open>\<^verbatim>\<open>IsUnspecified\<close>: \<^verbatim>\<open>0.0.0.0\<close>, also as the IPv4-mapped \<^verbatim>\<open>::ffff:0.0.0.0\<close>, or \<^verbatim>\<open>::\<close>.\<close>

definition is_unspecified :: "nat list \<Rightarrow> bool" where
  "is_unspecified ip \<longleftrightarrow>
     ip = [0, 0, 0, 0] \<or> ip = [0, 0, 0, 0, 0, 65535, 0, 0] \<or> ip = replicate 8 0"

lemma parse_ip_examples:
  "parse_ip ''10.0.0.1'' = Some [10, 0, 0, 1]" "parse_ip ''010.0.0.1'' = None" "parse_ip ''::'' = Some (replicate 8 0)"
  "parse_ip ''1::2'' = Some [1, 0, 0, 0, 0, 0, 0, 2]" "parse_ip [] = None" "parse_ip ''1::2::3'' = None"
  by code_simp+

lemma split_host_port_examples:
  "split_host_port ''example.com:443'' = Inr (''example.com'', ''443'')"
  "split_host_port ''[::1]:80'' = Inr (''::1'', ''80'')"
  "isl (split_host_port ''example.com'')" "isl (split_host_port ''::1:80'')" "isl (split_host_port ''[::1]'')"
  by code_simp+

text \<open>Splitting undoes joining, for hosts without brackets and colons and for bracketed ones.\<close>

lemma split_last_append: "c \<notin> set b \<Longrightarrow> split_last c (a @ c # b) = (a, b, True)"
  using strings_cut_append [of c "rev b" "rev a"] by (simp add: split_last_def)

lemma split_host_port_plain:
  assumes "CHR '':'' \<notin> set h" and "CHR ''['' \<notin> set (h @ p)" and "CHR '']'' \<notin> set (h @ p)" and "CHR '':'' \<notin> set p"
  shows "split_host_port (h @ CHR '':'' # p) = Inr (h, p)"
proof -
  have "\<not> has_prefix ''['' (h @ CHR '':'' # p)" using assms(2) by (cases h) auto
  then show ?thesis using assms by (simp add: split_host_port_def split_last_append)
qed

lemma split_host_port_join:
  assumes "split_host_port s = Inr (h, p)"
  shows "s = h @ CHR '':'' # p \<or> s = CHR ''['' # h @ CHR '']'' # CHR '':'' # p"
proof -
  obtain b q f where s: "split_last (CHR '':'') s = (b, q, f)" by (metis prod.collapse)
  with assms have f: "f" by (auto simp: split_host_port_def addr_error_def split: if_splits)
  then have "s = b @ CHR '':'' # q" using split_last_join [of "CHR '':''" s b q] s by simp
  with assms s f show ?thesis
    by (auto simp: split_host_port_def addr_error_def split: if_splits prod.splits)
qed

end
