(* ===== verification/Dispatch.thy ===== *)
theory Dispatch
  imports ProxyDefault ProxyCache GoNet
begin

text \<open>
  The server as a whole: \<^verbatim>\<open>server.go\<close> (construction, dispatch, log and metrics), \<^verbatim>\<open>option.go\<close>,
  \<^verbatim>\<open>handle_proxy_connect.go\<close> and \<^verbatim>\<open>singleconnlistener\<close>.
\<close>

section \<open>The listener of a single connection\<close>

record 'c single_conn_listener =
  scl_conn :: 'c
  scl_done :: bool

definition scl_new :: "'c \<Rightarrow> 'c single_conn_listener" where
  "scl_new conn = \<lparr>scl_conn = conn, scl_done = False\<rparr>"

definition scl_accept :: "'c single_conn_listener \<Rightarrow> 'c result \<times> 'c single_conn_listener" where
  "scl_accept l = (if \<not> scl_done l then (Inr (scl_conn l), l\<lparr>scl_done := True\<rparr>) else (Inl ErrNetClosed, l))"

text \<open>
  \<^verbatim>\<open>http.Server.Serve\<close>: accept connections, each of them served on its own, until \<^verbatim>\<open>Accept\<close> fails. The
  loop has fuel; \<^term>\<open>None\<close> means that it ran out.
\<close>

fun http_serve :: "nat \<Rightarrow> 'c single_conn_listener \<Rightarrow> 'c list \<Rightarrow> (go_error \<times> 'c list) option" where
  "http_serve 0 l cs = None"
| "http_serve (Suc n) l cs =
     (case scl_accept l of
        (Inl e, _) \<Rightarrow> Some (e, cs)
      | (Inr c, l') \<Rightarrow> http_serve n l' (cs @ [c]))"

section \<open>CONNECT\<close>

text \<open>The errors of the calls on the hijacked connection.\<close>

record connect_env =
  ce_hijack :: "go_error option"
  ce_write :: "go_error option"
  ce_flush :: "go_error option"
  ce_handshake :: "go_error option"

text \<open>
  The second component lists the hosts of the TLS connections that the ephemeral server serves; two
  rounds of its accept loop are all it makes.
\<close>

definition handle_proxy_connect ::
    "connect_env \<Rightarrow> ('e, 's, 'n) server \<Rightarrow> request \<Rightarrow> responder \<times> string list" where
  "handle_proxy_connect cenv sv rq =
     (case sv_tls sv of
        None \<Rightarrow> (Code 405 ''no TLS interceptor is configured, rejecting the request'', [])
      | Some generateCertificate \<Rightarrow>
          (case split_host_port (rq_host rq) of
             Inl _ \<Rightarrow> (Code 400 ''failed to parse Host header'', [])
           | Inr (host, port) \<Rightarrow>
               if port \<noteq> ''443'' then (Code 406 ''only CONNECTs to port 443 are allowed'', [])
               else
                 (case ce_hijack cenv of
                    Some _ \<Rightarrow> (Code 500 ''failed to hijack the connection'', [])
                  | None \<Rightarrow>
                      (case ce_write cenv of
                         Some _ \<Rightarrow> (Empty ''failed to write HTTP/1.1 200 Connection Established string'', [])
                       | None \<Rightarrow>
                           (case ce_flush cenv of
                              Some _ \<Rightarrow> (Empty ''failed to flush HTTP/1.1 200 Connection Established string'', [])
                            | None \<Rightarrow>
                                (case generateCertificate host of
                                   Inl _ \<Rightarrow> (Empty ''failed to generate X.509 certificate'', [])
                                 | Inr _ \<Rightarrow>
                                     (case ce_handshake cenv of
                                        Some _ \<Rightarrow> (Empty ''failed to perform TLS connection handshake'', [])
                                      | None \<Rightarrow>
                                          (case http_serve 2 (scl_new host) [] of
                                             Some (err, conns) \<Rightarrow>
                                               if \<not> errors_is err ErrNetClosed
                                               then (Empty ''ephemeral HTTP server failed'', conns)
                                               else (Empty ''TLS intercepted and re-routed to an ephemeral HTTP server'', conns)
                                           | None \<Rightarrow> (Empty ''ephemeral HTTP server failed'', [])))))))))"

section \<open>Dispatch\<close>

definition server_addr :: "('e, 's, 'n) server \<Rightarrow> string" where
  "server_addr sv = strings_replace_all (sv_listener sv) ''[::]'' ''127.0.0.1''"

text \<open>
  The handler of a request, its operation name, and the TLS connections it leaves to be served;
  \<^term>\<open>None\<close> is a panic of the handler.
\<close>

definition dispatch ::
    "packages \<Rightarrow> 'e request_env \<Rightarrow> connect_env \<Rightarrow> ('e, 's, 'n) server \<Rightarrow> request \<Rightarrow> capturing_writer \<Rightarrow> ('s, 'n) world \<Rightarrow>
     (('s, 'n) handled \<times> string \<times> string list) option" where
  "dispatch pk env cenv sv rq cw w =
     (if rq_host rq = [] \<or> rq_host rq = server_addr sv then
        (if rq_method rq = ''PUT'' then
           (case handle_cluster_put env sv rq w of (r, _, w') \<Rightarrow> Some ((r, cw, w'), ''cluster-put'', []))
         else if rq_method rq = ''GET'' then
           (if u_path (rq_url rq) = ''/health'' then Some ((Code 200 ''healthy'', cw, w), ''health-check'', [])
            else if u_path (rq_url rq) = ''/direct-connect'' then
              Some (handle_direct_connect_get pk env sv rq cw w, ''direct-connect-get'', [])
            else Some (handle_cluster_get env sv rq cw w, ''cluster-get'', []))
         else Some ((Code 404 ''not found'', cw, w), ''unknown'', []))
      else if rq_method rq = ''CONNECT'' then
        (case handle_proxy_connect cenv sv rq of (r, conns) \<Rightarrow> Some ((r, cw, w), ''proxy-connect'', conns))
      else map_option (\<lambda>h. (h, ''proxy-default'', [])) (handle_proxy_default pk env sv rq cw w))"

definition log_level_of :: "int \<Rightarrow> log_level" where
  "log_level_of st = (if 400 \<le> st \<and> st < 500 then Warnf else if 500 \<le> st \<and> st < 600 then Errorlf else Infof)"

definition finish_request :: "request \<Rightarrow> string \<Rightarrow> ('s, 'n) handled \<Rightarrow> capturing_writer \<times> ('s, 'n) world" where
  "finish_request rq op = (\<lambda>(r, cw, w).
     let cw' = respond r cw; st = cw_status cw'
     in (cw', w\<lparr>w_requests := (rq_method rq, st, op) # w_requests w,
               w_log := (log_level_of st, responder_message r) # w_log w\<rparr>))"

definition serve_http ::
    "packages \<Rightarrow> 'e request_env \<Rightarrow> connect_env \<Rightarrow> ('e, 's, 'n) server \<Rightarrow> request \<Rightarrow> response_writer \<Rightarrow> ('s, 'n) world \<Rightarrow>
     (capturing_writer \<times> ('s, 'n) world \<times> string list) option" where
  "serve_http pk env cenv sv rq rw w =
     (case dispatch pk env cenv sv rq (cw_wrap rw) w of
        None \<Rightarrow> None
      | Some (h, op, conns) \<Rightarrow> (case finish_request rq op h of (cw, w') \<Rightarrow> Some (cw, w', conns)))"

section \<open>Construction\<close>

text \<open>What the options set; \<open>o_helper\<close> are the two HTTP clients that dial through the helper.\<close>

record ('e, 's, 'n) options =
  o_disk :: "('e, 's) cache_ops option"
  o_tls :: "(string \<Rightarrow> unit result) option"
  o_rules :: "rule list"
  o_cluster :: "cluster option"
  o_helper :: "(('e, 'n) http_client \<times> ('e, 'n) http_client) option"

definition no_options :: "('e, 's, 'n) options" where
  "no_options = \<lparr>o_disk = None, o_tls = None, o_rules = [], o_cluster = None, o_helper = None\<rparr>"

definition WithDisk :: "('e, 's) cache_ops \<Rightarrow> ('e, 's, 'n) options \<Rightarrow> ('e, 's, 'n) options" where
  "WithDisk d opts = opts\<lparr>o_disk := Some d\<rparr>"

definition WithTLSInterceptor :: "(string \<Rightarrow> unit result) \<Rightarrow> ('e, 's, 'n) options \<Rightarrow> ('e, 's, 'n) options" where
  "WithTLSInterceptor t opts = opts\<lparr>o_tls := Some t\<rparr>"

definition WithRules :: "rule list \<Rightarrow> ('e, 's, 'n) options \<Rightarrow> ('e, 's, 'n) options" where
  "WithRules rs opts = opts\<lparr>o_rules := rs\<rparr>"

definition WithCluster :: "cluster \<Rightarrow> ('e, 's, 'n) options \<Rightarrow> ('e, 's, 'n) options" where
  "WithCluster c opts = opts\<lparr>o_cluster := Some c\<rparr>"

definition WithLocalNetworkHelper ::
    "('e, 'n) http_client \<times> ('e, 'n) http_client \<Rightarrow> ('e, 's, 'n) options \<Rightarrow> ('e, 's, 'n) options" where
  "WithLocalNetworkHelper h opts = opts\<lparr>o_helper := Some h\<rparr>"

text \<open>The address check of cluster mode.\<close>

definition check_cluster_addr :: "string \<Rightarrow> go_error option" where
  "check_cluster_addr addr =
     (case split_host_port addr of
        Inl e \<Rightarrow> Some (Wrap ''addr does not seem to be fully-qualified'' e)
      | Inr (rawIP, rawPort) \<Rightarrow>
          (case parse_ip rawIP of
             None \<Rightarrow> Some (Errorf ''IP address in addr cannot be empty or unspecified when using cluster mode'')
           | Some ip \<Rightarrow>
               if is_unspecified ip
               then Some (Errorf ''IP address in addr cannot be empty or unspecified when using cluster mode'')
               else
                 (case atoi rawPort of
                    None \<Rightarrow> Some (Wrap ''failed to parse port in addr'' (Errorf ''strconv.Atoi: invalid''))
                  | Some port \<Rightarrow>
                      if port = 0 then Some (Errorf ''port in addr cannot be zero when using cluster mode'') else None)))"

text \<open>
  \<^verbatim>\<open>New\<close>: \<open>listen\<close> is the listener's address or the error of \<^verbatim>\<open>net.Listen\<close>, \<open>metrics\<close> the error of registering
  the instruments, \<open>internal\<close> and \<open>external\<close> the default HTTP clients.
\<close>

definition server_new ::
    "(string \<Rightarrow> string result) \<Rightarrow> go_error option \<Rightarrow> ('e, 'n) http_client \<Rightarrow> ('e, 'n) http_client \<Rightarrow> string \<Rightarrow>
     (('e, 's, 'n) options \<Rightarrow> ('e, 's, 'n) options) list \<Rightarrow> ('e, 's, 'n) server result" where
  "server_new listen metrics internal external addr opts =
     (case listen addr of
        Inl e \<Rightarrow> Inl e
      | Inr listener \<Rightarrow>
          (let os = fold (\<lambda>opt. opt) opts no_options;
               disk = (case o_disk os of None \<Rightarrow> noop_ops | Some d \<Rightarrow> d);
               check = (case o_cluster os of None \<Rightarrow> None | Some _ \<Rightarrow> check_cluster_addr addr);
               clients = (case o_helper os of None \<Rightarrow> (internal, external) | Some h \<Rightarrow> h)
           in (case check of
                 Some e \<Rightarrow> Inl e
               | None \<Rightarrow>
                   (case metrics of
                      Some e \<Rightarrow> Inl e
                    | None \<Rightarrow>
                        Inr \<lparr>sv_listener = listener, sv_internal = fst clients, sv_external = snd clients, sv_disk = disk,
                             sv_tls = o_tls os, sv_rules = o_rules os, sv_cluster = o_cluster os\<rparr>))))"

end
