(* ===== verification/DispatchProps.thy ===== *)
theory DispatchProps
  imports Dispatch ProxyProps
begin

text \<open>
  Properties of the server as a whole: which handler sees a request, what is recorded about it, and
  what a CONNECT leads to.
\<close>

definition no_connect_errors :: connect_env where
  "no_connect_errors = \<lparr>ce_hijack = None, ce_write = None, ce_flush = None, ce_handshake = None\<rparr>"

definition sample_connect :: connect_env where
  "sample_connect = no_connect_errors"

definition own_request :: "string \<Rightarrow> request" where
  "own_request m = (sample_request [])\<lparr>rq_method := m, rq_host := []\<rparr>"

section \<open>Frames\<close>

text \<open>No handler touches the request counter and the log; they belong to \<^verbatim>\<open>ServeHTTP\<close>.\<close>

definition same_records :: "('s, 'n) world \<Rightarrow> ('s, 'n) world \<Rightarrow> bool" where
  "same_records w w' \<longleftrightarrow> w_requests w' = w_requests w \<and> w_log w' = w_log w"

lemma same_records_refl [simp, intro]: "same_records w w"
  by (simp add: same_records_def)

lemma same_records_trans: "same_records w w1 \<Longrightarrow> same_records w1 w2 \<Longrightarrow> same_records w w2"
  by (simp add: same_records_def)

lemma same_records_updates [simp]:
  "same_records w (w'\<lparr>w_disk := s\<rparr>) = same_records w w'"
  "same_records w (w'\<lparr>w_net := n\<rparr>) = same_records w w'"
  "same_records (w\<lparr>w_net := n\<rparr>) w' = same_records w w'"
  "same_records w (count_cache_op op w') = same_records w w'"
  by (simp_all add: same_records_def count_cache_op_def)

lemma chosen_frames:
  "chosen_get sv ca e w key = (q, w') \<Longrightarrow> same_records w w'"
  "chosen_put sv ca e w key m b = (p, w') \<Longrightarrow> same_records w w'"
  "same_records w (chosen_close sv ca e w)"
  by (auto simp: chosen_get_def chosen_put_def chosen_close_def split: option.splits prod.splits)

lemma answer_frame:
  assumes "answer pk sv env rq ru ca key entry rs cw w = Some (r, cw', w')"
  shows "same_records w w'"
  using assms
proof (cases rule: answer_cases)
  case cached
  then show ?thesis
    by (auto simp: answer_and_cache_def split: prod.splits option.splits dest: chosen_frames(2))
qed (auto simp: answer_redirect_def answer_copy_def Let_def split: option.splits sum.splits prod.splits)

lemma proxy_frame:
  assumes "handle_proxy_default pk env sv request cw w = Some (r, cw', w')"
  shows "same_records w w'"
proof (cases "rq_host request = []")
  case True
  with assms show ?thesis by (auto simp: handle_proxy_default_def)
next
  case False
  from assms False show ?thesis
  proof (cases rule: proxy_cases)
    case (unavailable ca err w1)
    then show ?thesis by (auto dest: chosen_frames(1))
  next
    case (forwarded ca entry m w1 w2)
    have "same_records w w1"
      using forwarded(2) by (auto simp: looked_up_def split: option.splits dest: chosen_frames(1))
    moreover have "same_records w1 w2"
      using forwarded(3) by (cases rule: upstream_cases) (auto dest: answer_frame)
    moreover have "same_records w2 w'"
      using chosen_frames(3) by (auto simp: forwarded(4) split: option.splits)
    ultimately show ?thesis by (blast intro: same_records_trans)
  qed
qed

lemma own_handlers_frame:
  "handle_cluster_get env sv rq cw w = (r, cw', w') \<Longrightarrow> same_records w w' \<and> w_net w' = w_net w"
  "handle_cluster_put env sv rq w = (r, n, w') \<Longrightarrow> same_records w w' \<and> w_net w' = w_net w"
  "handle_direct_connect_get pk env sv rq cw w = (r, cw', w') \<Longrightarrow> same_records w w' \<and> w_net w' = w_net w"
  by (auto simp: handle_cluster_get_def handle_cluster_put_def handle_direct_connect_get_def count_cache_op_def
      same_records_def split: option.splits sum.splits prod.splits)

text \<open>The operation a request is recorded under: a function of its destination, method and path.\<close>

definition operation_of :: "('e, 's, 'n) server \<Rightarrow> request \<Rightarrow> string" where
  "operation_of sv rq =
     (if rq_host rq \<in> {[], server_addr sv} then
        (if rq_method rq = ''PUT'' then ''cluster-put''
         else if rq_method rq \<noteq> ''GET'' then ''unknown''
         else if u_path (rq_url rq) = ''/health'' then ''health-check''
         else if u_path (rq_url rq) = ''/direct-connect'' then ''direct-connect-get''
         else ''cluster-get'')
      else if rq_method rq = ''CONNECT'' then ''proxy-connect'' else ''proxy-default'')"

lemma dispatch_frame:
  assumes "dispatch pk env cenv sv rq cw w = Some ((r, cw', w'), op, conns)"
  shows "same_records w w' \<and> op = operation_of sv rq"
proof (cases "rq_host rq \<in> {[], server_addr sv}")
  case True
  with assms show ?thesis
    by (auto simp: dispatch_def operation_of_def split: if_splits prod.splits dest: own_handlers_frame)
next
  case False
  with assms show ?thesis
    by (auto simp: dispatch_def operation_of_def split: if_splits prod.splits dest: proxy_frame)
qed

text \<open>
  C29. Every request that is served is recorded exactly once, and truthfully as far as the writer
  saw it: one entry of the request counter with the method, the captured status and the operation
  that its destination, method and path determine, and one log line, a warning for a client error,
  an error for a server error; no handler adds or removes entries on its own.
\<close>

theorem serve_http_recorded:
  assumes "serve_http pk env cenv sv rq rw w = Some (cw, w', conns)"
  shows "w_requests w' = (rq_method rq, cw_status cw, operation_of sv rq) # w_requests w \<and>
    (\<exists>msg. w_log w' =
       (if cw_status cw \<in> {400..499} then Warnf else if cw_status cw \<in> {500..599} then Errorlf else Infof, msg) # w_log w)"
proof -
  from assms obtain r cw1 w1 op where d: "dispatch pk env cenv sv rq (cw_wrap rw) w = Some ((r, cw1, w1), op, conns)"
    and f: "finish_request rq op (r, cw1, w1) = (cw, w')"
    by (auto simp: serve_http_def split: option.splits prod.splits)
  from dispatch_frame [OF d] f show ?thesis
    by (auto simp: finish_request_def Let_def same_records_def log_level_of_def)
qed

theorem serve_http_recorded_witness:
  "\<exists>cw w' conns. serve_http sample_packages sample_renv sample_connect sample_server (own_request ''POST'')
     (fresh_writer None) sample_world = Some (cw, w', conns) \<and> w_requests w' = [(''POST'', cw_status cw, ''unknown'')]"
proof -
  obtain cw w' conns where s: "serve_http sample_packages sample_renv sample_connect sample_server (own_request ''POST'')
    (fresh_writer None) sample_world = Some (cw, w', conns)"
    by (simp add: serve_http_def dispatch_def own_request_def sample_request_def case_prod_beta)
  from serve_http_recorded [OF s] s show ?thesis
    by (auto simp: operation_of_def own_request_def sample_request_def sample_world_def)
qed

section \<open>Requests to the server itself\<close>

lemma own_dispatch:
  assumes "rq_host rq \<in> {[], server_addr sv}"
  shows "\<exists>r cw' w' op. dispatch pk env cenv sv rq cw w = Some ((r, cw', w'), op, []) \<and> w_net w' = w_net w \<and>
    (rq_method rq \<notin> {''GET'', ''PUT''} \<longrightarrow> r = Code 404 ''not found'' \<and> w' = w)"
proof -
  obtain r1 n1 w1 where p: "handle_cluster_put env sv rq w = (r1, n1, w1)" by (metis prod.collapse)
  obtain r2 cw2 w2 where g: "handle_cluster_get env sv rq cw w = (r2, cw2, w2)" by (metis prod.collapse)
  obtain r3 cw3 w3 where c: "handle_direct_connect_get pk env sv rq cw w = (r3, cw3, w3)" by (metis prod.collapse)
  note frames = own_handlers_frame(1) [OF g] own_handlers_frame(2) [OF p] own_handlers_frame(3) [OF c]
  consider "rq_method rq = ''PUT''" | "rq_method rq = ''GET''" | "rq_method rq \<notin> {''GET'', ''PUT''}" by blast
  then show ?thesis using assms frames by cases (auto simp: dispatch_def p g c)
qed

text \<open>
  C30. A request addressed to the server itself is always answered and never forwarded: no handler
  panics, nothing goes to the network and no connection is taken over; other methods than GET
  and PUT get a 404 and leave the cache alone.
\<close>

theorem own_requests_local:
  assumes "rq_host rq \<in> {[], server_addr sv}"
  shows "\<exists>cw w'. serve_http pk env cenv sv rq rw w = Some (cw, w', []) \<and> w_net w' = w_net w \<and>
    (rq_method rq \<notin> {''GET'', ''PUT''} \<longrightarrow> cw_status cw = 404 \<and> w_disk w' = w_disk w)"
proof -
  from own_dispatch [OF assms, of pk env cenv "cw_wrap rw" w] obtain r cw w1 op where
    "dispatch pk env cenv sv rq (cw_wrap rw) w = Some ((r, cw, w1), op, [])" "w_net w1 = w_net w"
    "rq_method rq \<notin> {''GET'', ''PUT''} \<longrightarrow> r = Code 404 ''not found'' \<and> w1 = w" by blast
  then show ?thesis by (auto simp: serve_http_def finish_request_def Let_def respond_def)
qed

theorem own_requests_local_witness:
  "\<exists>cw w'. serve_http sample_packages sample_renv sample_connect sample_server (own_request ''POST'')
     (fresh_writer None) sample_world = Some (cw, w', []) \<and> cw_status cw = 404"
  using own_requests_local [of "own_request ''POST''" sample_server sample_packages sample_renv sample_connect
      "fresh_writer None" sample_world]
  by (auto simp: own_request_def sample_request_def)

section \<open>CONNECT\<close>

text \<open>
  The accept loop over a single connection ends: whatever the fuel beyond two rounds, it hands
  the connection out exactly once and then stops with \<^verbatim>\<open>net.ErrClosed\<close>.
\<close>

theorem single_conn_served_once:
  "http_serve (Suc (Suc n)) (scl_new c) cs = Some (ErrNetClosed, cs @ [c])"
  by (simp add: scl_new_def scl_accept_def)

text \<open>
  C31. A CONNECT is intercepted exactly when TLS interception is configured, the destination is
  \<^verbatim>\<open>host:443\<close> or \<^verbatim>\<open>[host]:443\<close>, the connection could be taken over and a certificate for that very
  host was generated and accepted; then one connection is served, for that host, and the
  handler ends regularly. In every other case none is.
\<close>

theorem connect_intercepts:
  "(case handle_proxy_connect cenv sv rq of
      (r, []) \<Rightarrow> r \<noteq> Empty ''TLS intercepted and re-routed to an ephemeral HTTP server''
    | (r, [host]) \<Rightarrow> r = Empty ''TLS intercepted and re-routed to an ephemeral HTTP server'' \<and>
        rq_host rq \<in> {host @ '':443'', ''['' @ host @ '']:443''} \<and>
        (\<exists>generate. sv_tls sv = Some generate \<and> generate host = Inr ())
    | _ \<Rightarrow> False) \<and>
   (snd (handle_proxy_connect cenv sv rq) \<noteq> [] \<longleftrightarrow>
      (\<exists>generate host. sv_tls sv = Some generate \<and> split_host_port (rq_host rq) = Inr (host, ''443'') \<and>
         generate host = Inr () \<and> cenv = no_connect_errors))"
proof -
  have served: "http_serve 2 (scl_new c) [] = Some (ErrNetClosed, [c])" for c :: string
    by (simp add: numeral_2_eq_2 scl_new_def scl_accept_def)
  have "cenv = no_connect_errors \<longleftrightarrow>
    ce_hijack cenv = None \<and> ce_write cenv = None \<and> ce_flush cenv = None \<and> ce_handshake cenv = None"
    by (cases cenv) (simp add: no_connect_errors_def)
  then show ?thesis
    by (auto simp: handle_proxy_connect_def served split: option.splits sum.splits dest!: split_host_port_join)
qed

section \<open>Construction\<close>

text \<open>
  C32. A server in cluster mode has an address its peers can use: \<^verbatim>\<open>New\<close> succeeds only if the address is
  \<^verbatim>\<open>host:port\<close> or \<^verbatim>\<open>[host]:port\<close> with an IP address other than the unspecified ones and a port
  other than zero. The server then has the cluster, the rules and the TLS interceptor of its options, and
  the no-op cache if no disk was given.
\<close>

theorem server_new_sound:
  assumes "server_new listen metrics internal external addr opts = Inr sv"
  defines "os \<equiv> fold (\<lambda>opt. opt) opts no_options"
  shows "Inr (sv_listener sv) = listen addr \<and> sv_cluster sv = o_cluster os \<and> sv_rules sv = o_rules os \<and> sv_tls sv = o_tls os \<and>
    sv_disk sv = (case o_disk os of None \<Rightarrow> noop_ops | Some d \<Rightarrow> d) \<and>
    (o_cluster os \<noteq> None \<longrightarrow>
       (\<exists>host port ip p. addr \<in> {host @ '':'' @ port, ''['' @ host @ '']:'' @ port} \<and> parse_ip host = Some ip \<and>
          \<not> is_unspecified ip \<and> atoi port = Some p \<and> p \<noteq> 0))"
proof -
  from assms(1) obtain l where l: "listen addr = Inr l" by (auto simp: server_new_def split: sum.splits)
  with assms(1) have ok: "o_cluster os \<noteq> None \<longrightarrow> check_cluster_addr addr = None"
    and sv: "sv_listener sv = l" "sv_cluster sv = o_cluster os" "sv_rules sv = o_rules os" "sv_tls sv = o_tls os"
      "sv_disk sv = (case o_disk os of None \<Rightarrow> noop_ops | Some d \<Rightarrow> d)"
    by (auto simp: server_new_def os_def Let_def split: option.splits)
  have addr: "\<exists>host port ip p. addr \<in> {host @ '':'' @ port, ''['' @ host @ '']:'' @ port} \<and> parse_ip host = Some ip \<and>
      \<not> is_unspecified ip \<and> atoi port = Some p \<and> p \<noteq> 0" if "check_cluster_addr addr = None"
  proof -
    from that obtain host port ip p where "split_host_port addr = Inr (host, port)" "parse_ip host = Some ip"
      "\<not> is_unspecified ip" "atoi port = Some p" "p \<noteq> 0"
      by (auto simp: check_cluster_addr_def split: sum.splits option.splits if_splits)
    with split_host_port_join [of addr host port] show ?thesis
      by (intro exI [of _ host] exI [of _ port] exI [of _ ip] exI [of _ p]) auto
  qed
  show ?thesis by (intro conjI impI addr) (use ok sv l in simp_all)
qed

theorem server_new_sound_witness:
  "\<exists>host port ip p. ''10.0.0.1:80'' \<in> {host @ '':'' @ port, ''['' @ host @ '']:'' @ port} \<and> parse_ip host = Some ip \<and>
     \<not> is_unspecified ip \<and> atoi port = Some p \<and> p \<noteq> 0"
proof -
  let ?c = "cluster_new ''s'' ''10.0.0.1:80'' [''10.0.0.1:80'']"
  let ?h = "\<lambda>e rq n. (Inl ErrEOF, 0, n)"
  have "split_host_port ''10.0.0.1:80'' = Inr (''10.0.0.1'', ''80'')" "parse_ip ''10.0.0.1'' = Some [10, 0, 0, 1]"
    by code_simp+
  moreover have "atoi ''80'' = Some 80" by (simp add: atoi_def digit_val_def)
  moreover have "\<not> is_unspecified [10, 0, 0, 1]" by (auto simp: is_unspecified_def dest: arg_cong [of _ _ length])
  ultimately have "check_cluster_addr ''10.0.0.1:80'' = None" by (simp add: check_cluster_addr_def)
  then obtain sv :: "(unit, unit, unit) server" where
    "server_new Inr None ?h ?h ''10.0.0.1:80'' [WithCluster ?c] = Inr sv"
    by (simp add: server_new_def WithCluster_def no_options_def)
  from server_new_sound [OF this] show ?thesis by (simp add: WithCluster_def no_options_def)
qed

end
