(* ===== verification/ClusterLink.thy ===== *)
theory ClusterLink
  imports DispatchProps ProxyLive
begin

text \<open>
  Two nodes put together: the client of \<^verbatim>\<open>kv.go\<close> talks to the server of \<^verbatim>\<open>server.go\<close>. The wire between them is
  \<^verbatim>\<open>net/http\<close>: the server sees the method, the host, the path and the headers of the request, the client
  the status, the headers and the body that the handler wrote. The connection may fail at every point: before the
  request, in the middle of it, after the handler has done its work, in the middle of the answer.
\<close>

section \<open>The wire\<close>

text \<open>
  The request line carries the path (\<^verbatim>\<open>/\<close> for an empty one) and the query, the \<^verbatim>\<open>Host\<close> header the host; the
  transport adds its own headers. A body that cannot be read to its end reaches the server cut off.
\<close>

definition wire_header :: "header \<Rightarrow> header" where
  "wire_header h =
     (let h1 = (if header_values h ''User-Agent'' = [] then header_set h ''User-Agent'' ''Go-http-client/1.1'' else h)
      in if header_values h ''Accept-Encoding'' = [] then header_set h1 ''Accept-Encoding'' ''gzip'' else h1)"

definition wire_request :: "request \<Rightarrow> request" where
  "wire_request rq =
     rq\<lparr>rq_url := (rq_url rq)\<lparr>u_scheme := [], u_user := None, u_host := [],
                    u_path := if u_path (rq_url rq) = [] then ''/'' else u_path (rq_url rq)\<rparr>,
        rq_header := wire_header (rq_header rq),
        rq_body := (rq_body rq)\<lparr>rd_err := map_option (\<lambda>_. Errorf ''unexpected EOF'') (rd_err (rq_body rq))\<rparr>\<rparr>"

text \<open>An answer that announces a longer body than the handler wrote ends with an error at the client.\<close>

definition wire_response :: "response_writer \<Rightarrow> response" where
  "wire_response w =
     (let (st, h) = rw_answer w in
      \<lparr>rs_status = st, rs_header = h,
       rs_body = \<lparr>rd_data = rw_body w,
                  rd_err = (if rw_head w \<or> \<not> body_allowed st then None
                            else (case declared_length h of
                                    None \<Rightarrow> None
                                  | Some l \<Rightarrow> if length (rw_body w) < l then Some (Errorf ''unexpected EOF'') else None))\<rparr>\<rparr>)"

text \<open>
  The environment of one exchange: whether the node can be reached; after how many bytes of its body the
  request breaks off, if it does; what the handler of the node meets; how many bytes of the body the
  transport sends ahead of the handler; whether the answer gets lost once the handler is done; and after how
  many bytes of its body an answer breaks off.
\<close>

record 'e link_env =
  le_dial :: "go_error option"
  le_send :: "(nat \<times> go_error) option"
  le_node :: "'e request_env"
  le_ahead :: nat
  le_reply :: "go_error option"
  le_recv :: "(nat \<times> go_error) option"

text \<open>The body as it arrives: a connection that breaks before the last byte ends it with an error.\<close>

definition sent_body :: "(nat \<times> go_error) option \<Rightarrow> reader \<Rightarrow> reader" where
  "sent_body c b =
     (case c of
        None \<Rightarrow> b
      | Some (n, e) \<Rightarrow> if n < length (rd_data b) then \<lparr>rd_data = take n (rd_data b), rd_err = Some e\<rparr> else b)"

definition received :: "(nat \<times> go_error) option \<Rightarrow> response \<Rightarrow> response" where
  "received c rs =
     (case c of
        None \<Rightarrow> rs
      | Some (n, e) \<Rightarrow> rs\<lparr>rs_body := \<lparr>rd_data = take n (rd_data (rs_body rs)), rd_err = Some e\<rparr>\<rparr>)"

definition body_read :: "'e request_env \<Rightarrow> ('e, 's, 'n) server \<Rightarrow> request \<Rightarrow> ('s, 'n) world \<Rightarrow> nat" where
  "body_read env sv rq w = (if rq_method rq = ''PUT'' then fst (snd (handle_cluster_put env sv rq w)) else 0)"

text \<open>
  A client whose requests reach the given server. A handler that panics closes the connection; a body that
  fails, at its source or on the way, makes the request fail, and so does an answer that gets lost, although
  the node has done its work.
\<close>

definition node_client :: "packages \<Rightarrow> ('e, 's, 'n) server \<Rightarrow> ('e link_env, ('s, 'n) world) http_client" where
  "node_client pk sv e rq w =
     (case le_dial e of
        Some err \<Rightarrow> (Inl err, 0, w)
      | None \<Rightarrow>
          (let body = sent_body (le_send e) (rq_body rq);
               rq' = wire_request (rq\<lparr>rq_body := body\<rparr>);
               c = min (body_read (le_node e) sv rq' w + le_ahead e) (length (rd_data (rq_body rq)))
           in case serve_http pk (le_node e) no_connect_errors sv rq' (writer_for rq' None) w of
                None \<Rightarrow> (Inl ErrEOF, c, w)
              | Some (cw, w', _) \<Rightarrow>
                  (case rd_err body of
                     Some err \<Rightarrow> (Inl err, c, w')
                   | None \<Rightarrow>
                       (case le_reply e of
                          Some err \<Rightarrow> (Inl err, c, w')
                        | None \<Rightarrow> (Inr (received (le_recv e) (wire_response (cw_inner cw))), c, w')))))"

section \<open>Nodes\<close>

text \<open>Node addresses as the cluster configuration lists them.\<close>

typedef node_addr = "{n. host_port n}"
  morphisms addr_string Addr
  by (rule exI [of _ "''a:1''"]) (simp, code_simp)

lemma host_port_addr [simp]: "host_port (addr_string a)"
  using addr_string by simp

text \<open>A server with a disk cache that listens on such an address, and a client of it.\<close>

definition peer_server :: "disk \<Rightarrow> node_addr \<Rightarrow> (os_env, fs, 'n) server \<Rightarrow> (os_env, fs, 'n) server" where
  "peer_server d a sv = sv\<lparr>sv_listener := addr_string a, sv_disk := disk_ops d\<rparr>"

definition peer ::
    "packages \<Rightarrow> disk \<Rightarrow> node_addr \<Rightarrow> string \<Rightarrow> (os_env, fs, 'n) server \<Rightarrow> (os_env link_env, (fs, 'n) world) kv" where
  "peer pk d a secret sv =
     kv_new (\<lambda>e rq n. (Inl ErrEOF, 0, n)) (addr_string a) secret [WithHTTPClient (node_client pk (peer_server d a sv))]"

section \<open>What crosses the wire\<close>

lemma canonical_wire [simp]:
  "canonical_key ''User-Agent'' = ''User-Agent''" "canonical_key ''Accept-Encoding'' = ''Accept-Encoding''"
  by code_simp+

lemma header_get_wire:
  "canonical_key k \<notin> {''User-Agent'', ''Accept-Encoding''} \<Longrightarrow> header_get (wire_header h) k = header_get h k"
  by (simp add: wire_header_def Let_def header_get_set)

lemma wire_kv [simp]:
  "GetKey (wire_header h) = GetKey h" "GetMetadata (wire_header h) = GetMetadata h"
  "basic_auth (wire_header h) = basic_auth h"
proof -
  have "header_get (wire_header h) HeaderKey = header_get h HeaderKey"
    by (rule header_get_wire) (simp, simp add: HeaderKey_def)
  then show "GetKey (wire_header h) = GetKey h" by (simp add: GetKey_def kv_decode_def)
  have "header_get (wire_header h) HeaderMetadata = header_get h HeaderMetadata"
    by (rule header_get_wire) (simp, simp add: HeaderMetadata_def)
  then show "GetMetadata (wire_header h) = GetMetadata h" by (simp add: GetMetadata_def kv_decode_def)
  have "header_get (wire_header h) ''Authorization'' = header_get h ''Authorization''"
    by (rule header_get_wire) simp
  then show "basic_auth (wire_header h) = basic_auth h" by (simp add: basic_auth_def)
qed

lemma replace_all_absent: "CHR ''['' \<notin> set s \<Longrightarrow> replace_all n ''[::]'' new s = s"
  by (induction n arbitrary: s) (auto simp: has_prefix_iff split: list.splits)

lemma server_addr_peer [simp]: "server_addr (peer_server d a sv) = addr_string a"
proof -
  have "CHR ''['' \<notin> set (addr_string a)" by (rule host_port_no_special) simp_all
  then show ?thesis by (simp add: server_addr_def peer_server_def strings_replace_all_def replace_all_absent del: replace_all.simps)
qed

lemma peer_server_simps [simp]:
  "sv_disk (peer_server d a sv) = disk_ops d" "sv_cluster (peer_server d a sv) = sv_cluster sv"
  by (simp_all add: peer_server_def)

text \<open>The requests of the client as the server sees them.\<close>

definition kv_request :: "string \<Rightarrow> node_addr \<Rightarrow> header \<Rightarrow> reader \<Rightarrow> request" where
  "kv_request m a h b =
     wire_request \<lparr>rq_method = m, rq_host = addr_string a, rq_tls = False, rq_url = key_url ''http'' (addr_string a) [] [],
       rq_header = h, rq_body = b\<rparr>"

lemma kv_request_simps [simp]:
  "rq_method (kv_request m a h b) = m" "rq_host (kv_request m a h b) = addr_string a"
  "u_path (rq_url (kv_request m a h b)) = ''/''" "rq_header (kv_request m a h b) = wire_header h"
  "rd_data (rq_body (kv_request m a h b)) = rd_data b" "rd_err (rq_body (kv_request m a h b)) = None \<longleftrightarrow> rd_err b = None"
  by (simp_all add: kv_request_def wire_request_def key_url_def empty_url_def)

lemma valid_methods [simp]: "valid_method ''GET''" "valid_method ''PUT''"
  by code_simp+

lemma serve_get:
  "serve_http pk env cenv (peer_server d a sv) (kv_request ''GET'' a h b) rw w =
     (case handle_cluster_get env (peer_server d a sv) (kv_request ''GET'' a h b) (cw_wrap rw) w of
        (r, cw, w') \<Rightarrow> (case finish_request (kv_request ''GET'' a h b) ''cluster-get'' (r, cw, w') of
          (cw', w'') \<Rightarrow> Some (cw', w'', [])))"
  by (simp add: serve_http_def dispatch_def case_prod_beta)

lemma serve_put:
  "serve_http pk env cenv (peer_server d a sv) (kv_request ''PUT'' a h b) rw w =
     (case handle_cluster_put env (peer_server d a sv) (kv_request ''PUT'' a h b) w of
        (r, n, w') \<Rightarrow> (case finish_request (kv_request ''PUT'' a h b) ''cluster-put'' (r, cw_wrap rw, w') of
          (cw', w'') \<Rightarrow> Some (cw', w'', [])))"
  by (simp add: serve_http_def dispatch_def case_prod_beta)

lemma kv_request_writer [simp]:
  "writer_for (kv_request ''GET'' a h b) n = fresh_writer n" "writer_for (kv_request ''PUT'' a h b) n = fresh_writer n"
  by (simp_all add: writer_for_fresh)

lemma sent_body_simps [simp]: "sent_body None b = b" "sent_body c (bytes_reader []) = bytes_reader []"
  by (simp_all add: sent_body_def split: option.splits)

lemma sent_body_whole: "rd_err (sent_body c b) = None \<Longrightarrow> sent_body c b = b"
  by (auto simp: sent_body_def split: option.splits if_splits)

lemma received_None [simp]: "received None rs = rs"
  by (simp add: received_def)

lemma received_simps [simp]: "rs_status (received c rs) = rs_status rs" "rs_header (received c rs) = rs_header rs"
  by (simp_all add: received_def split: option.splits)

lemma received_body:
  "prefix (rd_data (rs_body (received c rs))) (rd_data (rs_body rs))"
  "rd_err (rs_body (received c rs)) = None \<Longrightarrow> rs_body (received c rs) = rs_body rs"
  by (auto simp: received_def take_is_prefix split: option.splits)

lemma wire_response_code:
  "wire_response (cw_inner (cw_write_header st (cw_wrap (fresh_writer None)))) =
     \<lparr>rs_status = st, rs_header = [], rs_body = bytes_reader []\<rparr>"
  by (simp add: wire_response_def rw_answer_def cw_write_header_sent bytes_reader_def)

text \<open>
  Sending an entry: what the client receives once the handler has copied it. The node ends its answer in order also
  when the copy has failed half-way: the client gets what was copied and no error.
\<close>

lemma wire_response_copied:
  assumes "declared_length h = None" and "cw_copy b (cw_set_header h (cw_wrap (fresh_writer None))) = (e, cw)"
  shows "e = rd_err b" and "wire_response (cw_inner cw) = \<lparr>rs_status = 200, rs_header = h, rs_body = bytes_reader (rd_data b)\<rparr>"
    and "wire_response (cw_inner (cw_write_header st cw)) =
      (if rd_data b = [] then \<lparr>rs_status = st, rs_header = h, rs_body = bytes_reader []\<rparr> else wire_response (cw_inner cw))"
proof -
  let ?cw = "cw_set_header h (cw_wrap (fresh_writer None))"
  have ans: "rw_answer (cw_inner ?cw) = (200, h)" by (simp add: rw_answer_def cw_set_header_def)
  with assms(1) have "rw_room (length (rd_data b)) (cw_inner ?cw)"
    by (simp add: rw_room_def body_allowed_def)
  note c = cw_copy_room [OF this, unfolded assms(2)]
  then show "e = rd_err b" by simp
  show "wire_response (cw_inner cw) = \<lparr>rs_status = 200, rs_header = h, rs_body = bytes_reader (rd_data b)\<rparr>"
    using c assms(1)
    by (auto simp: wire_response_def rw_answer_def rw_write_header_def cw_set_header_def bytes_reader_def)
  show "wire_response (cw_inner (cw_write_header st cw)) =
      (if rd_data b = [] then \<lparr>rs_status = st, rs_header = h, rs_body = bytes_reader []\<rparr> else wire_response (cw_inner cw))"
    using c assms(1)
    by (auto simp: wire_response_def rw_answer_def rw_write_header_def cw_write_header_def cw_set_header_def bytes_reader_def)
qed

lemma metadata_no_length [simp]: "declared_length (SetMetadata [] m) = None"
proof -
  have "canonical_key ''Content-Length'' = ''Content-Length''" by code_simp
  moreover have "''Content-Length'' \<noteq> HeaderMetadata" by (simp add: HeaderMetadata_def)
  ultimately have "header_get (SetMetadata [] m) ''Content-Length'' = []"
    unfolding SetMetadata_def header_get_set by simp
  then show ?thesis by (simp add: declared_length_def atoi_def)
qed

lemma reader_close_disk:
  "reader_close env s = (e, s') \<Longrightarrow> disk_stored s' = disk_stored s \<and> disk_inv s' = disk_inv s"
  by (auto simp: reader_close_def os_close_def)

section \<open>The handlers on a disk cache\<close>

lemma cluster_get_outcome:
  assumes "sv_disk sv = disk_ops d" and "disk_inv (w_disk w)"
    and h: "handle_cluster_get env sv rq (cw_wrap (fresh_writer None)) w = (r, cw, w')"
  shows "disk_inv (w_disk w') \<and> disk_stored (w_disk w') = disk_stored (w_disk w) \<and>
    (let rs = wire_response (cw_inner (respond r cw)) in
     rs_status rs = 200 \<longrightarrow> rd_err (rs_body rs) = None \<and>
       (\<exists>key m b. GetKey (rq_header rq) = Inr key \<and> disk_stored (w_disk w) (path_name key) = Some (m, b) \<and>
          rd_data (rs_body rs) = rd_data (cut_reader (env_read_blob (re_get env)) b) \<and>
          GetMetadata (rs_header rs) = Inr (coerce_metadata m)))"
proof (cases "perform_cluster_auth sv rq")
  case (Some r')
  with h cluster_auth_cases [of sv rq] assms(2) show ?thesis
    by (auto simp: handle_cluster_get_def respond_def wire_response_code)
next
  case None
  show ?thesis
  proof (cases "GetKey (rq_header rq)")
    case (Inl e)
    with h None assms(2) show ?thesis by (auto simp: handle_cluster_get_def respond_def wire_response_code)
  next
    case (Inr key)
    obtain q s where g: "disk_get (re_get env) (w_disk w) key = (q, s)" by fastforce
    note s = disk_get_inv [OF assms(2) g] disk_get_stored [OF g]
    show ?thesis
    proof (cases q)
      case (Inl err)
      with h None Inr g s assms(1) show ?thesis
        by (auto simp: handle_cluster_get_def disk_ops_def not_found_or_error_def respond_def wire_response_code)
    next
      case (Inr p)
      obtain b m where p: "p = (b, m)" by fastforce
      from disk_get_sound [OF g [unfolded Inr p]] obtain blob where b: "b = cut_reader (env_read_blob (re_get env)) blob"
        "disk_stored (w_disk w) (path_name key) = Some (m, blob)" by blast
      let ?h = "SetMetadata [] m"
      obtain e cw1 where c: "cw_copy b (cw_set_header ?h (cw_wrap (fresh_writer None))) = (e, cw1)" by fastforce
      note cp = wire_response_copied [OF metadata_no_length c]
      obtain f s' where cl: "reader_close (re_close env) s = (f, s')" by fastforce
      note s' = reader_close_disk [OF cl]
      note h' = h [unfolded handle_cluster_get_def None \<open>GetKey (rq_header rq) = Inr key\<close>]
      have out: "cw = cw1" "w' = w\<lparr>w_disk := if e = None then s' else s\<rparr>" "\<exists>msg. r = Code 500 msg \<or> r = Empty msg"
        "e \<noteq> None \<Longrightarrow> \<exists>msg. r = Code 500 msg"
        using h' g Inr p c cl assms(1) by (auto simp: disk_ops_def split: option.splits)
      have "wire_response (cw_inner (respond r cw1)) = wire_response (cw_inner cw1) \<or> rs_status (wire_response (cw_inner (respond r cw1))) = 500"
        using out(3) cp(3) [of 500] by (auto simp: respond_def split: if_splits)
      then show ?thesis
        using s s' b cp(2) \<open>GetKey (rq_header rq) = Inr key\<close> by (auto simp: out(1,2) Let_def)
    qed
  qed
qed

lemma cluster_put_outcome:
  assumes "sv_disk sv = disk_ops d" and "disk_inv (w_disk w)" and h: "handle_cluster_put env sv rq w = (r, n, w')"
  shows "disk_inv (w_disk w')" and "\<exists>st msg. r = Code st msg \<and>
    (if st = 200 then rd_err (rq_body rq) = None \<and> n = length (rd_data (rq_body rq)) \<and>
       (\<exists>key m. GetKey (rq_header rq) = Inr key \<and> GetMetadata (rq_header rq) = Inr m \<and>
          disk_stored (w_disk w') \<subseteq>\<^sub>m (disk_stored (w_disk w))(path_name key \<mapsto> (coerce_metadata m, rd_data (rq_body rq))))
     else disk_stored (w_disk w') \<subseteq>\<^sub>m disk_stored (w_disk w))"
proof -
  have "disk_inv (w_disk w') \<and> (\<exists>st msg. r = Code st msg \<and>
    (if st = 200 then rd_err (rq_body rq) = None \<and> n = length (rd_data (rq_body rq)) \<and>
       (\<exists>key m. GetKey (rq_header rq) = Inr key \<and> GetMetadata (rq_header rq) = Inr m \<and>
          disk_stored (w_disk w') \<subseteq>\<^sub>m (disk_stored (w_disk w))(path_name key \<mapsto> (coerce_metadata m, rd_data (rq_body rq))))
     else disk_stored (w_disk w') \<subseteq>\<^sub>m disk_stored (w_disk w)))"
  proof (cases "perform_cluster_auth sv rq")
    case (Some r')
    with h cluster_auth_cases [of sv rq] assms(2) show ?thesis by (auto simp: handle_cluster_put_def)
  next
    case None
    show ?thesis
    proof (cases "(\<exists>e. GetKey (rq_header rq) = Inl e) \<or> (\<exists>e. GetMetadata (rq_header rq) = Inl e)")
      case True
      with h None assms(2) show ?thesis by (auto simp: handle_cluster_put_def intro: exI [of _ 400] split: sum.splits)
    next
      case False
      then obtain key m where km: "GetKey (rq_header rq) = Inr key" "GetMetadata (rq_header rq) = Inr m"
        by (metis sum.exhaust)
      obtain e c s where q: "disk_put d (re_put env) (w_disk w) key m (rq_body rq) = ((e, c), s)" by (metis prod.collapse)
      with h None km assms(1) have w': "w' = w\<lparr>w_disk := s\<rparr>" "n = c"
        "r = (case e of Some _ \<Rightarrow> Code 500 ''unable to put cache entry'' | None \<Rightarrow> Code 200 ''cache entry written successfully'')"
        by (auto simp: handle_cluster_put_def disk_ops_def split: option.splits)
      show ?thesis
      proof (cases e)
        case None
        with dc.put_inv [OF assms(2) q] dc.put_ok [OF assms(2) q [unfolded None]] km w' show ?thesis
          by (intro conjI exI [of _ 200]) auto
      next
        case (Some err)
        with dc.put_inv [OF assms(2) q] dc.put_failed_keeps [OF assms(2) q [unfolded Some]] w' show ?thesis
          by (intro conjI exI [of _ 500]) auto
      qed
    qed
  qed
  then show "disk_inv (w_disk w')" and "\<exists>st msg. r = Code st msg \<and>
    (if st = 200 then rd_err (rq_body rq) = None \<and> n = length (rd_data (rq_body rq)) \<and>
       (\<exists>key m. GetKey (rq_header rq) = Inr key \<and> GetMetadata (rq_header rq) = Inr m \<and>
          disk_stored (w_disk w') \<subseteq>\<^sub>m (disk_stored (w_disk w))(path_name key \<mapsto> (coerce_metadata m, rd_data (rq_body rq))))
     else disk_stored (w_disk w') \<subseteq>\<^sub>m disk_stored (w_disk w))"
    by blast+
qed

section \<open>A remote disk cache is a cache\<close>

definition peer_header :: "string \<Rightarrow> string \<Rightarrow> header" where
  "peer_header secret key = SetKey (if secret \<noteq> [] then set_basic_auth [] [] secret else []) key"

lemma peer_header_simps [simp]:
  "GetKey (peer_header secret key) = (if key = [] then Inl (Errorf ''no header is found or it is empty'') else Inr key)"
  "basic_auth (peer_header secret key) = (if secret = [] then None else Some ([], secret))"
  by (simp_all add: peer_header_def GetKey_SetKey basic_auth_set) (simp add: basic_auth_def)

lemma peer_simps:
  "kv_url (peer pk d a secret sv) = ''http://'' @ addr_string a"
  "kv_do (peer pk d a secret sv) = node_client pk (peer_server d a sv)"
  "SetKey (kv_authorize (peer pk d a secret sv) []) key = peer_header secret key"
  by (auto simp: kv_url_def kv_do_def peer_def kv_new_client kv_authorize_def peer_header_def fun_eq_iff)

lemmas new_request_peer =
  new_request_host_port [OF host_port_addr valid_methods(1), simplified]
  new_request_host_port [OF host_port_addr valid_methods(2), simplified]

text \<open>The status of a response decides what the client makes of it.\<close>

definition got :: "response \<Rightarrow> (reader \<times> metadata) result" where
  "got rs =
     (if rs_status rs = 200 then (case GetMetadata (rs_header rs) of Inl err \<Rightarrow> Inl err | Inr m \<Rightarrow> Inr (rs_body rs, m))
      else if rs_status rs = 404 then Inl ErrNotFound else Inl (Errorf ''unexpected HTTP status''))"

lemma kv_get_peer:
  assumes "le_dial e = None"
    and "handle_cluster_get (le_node e) (peer_server d a sv) (kv_request ''GET'' a (peer_header secret key) (bytes_reader []))
      (cw_wrap (fresh_writer None)) w = (r, cw, w1)"
  shows "kv_get (peer pk d a secret sv) e w key =
    (case le_reply e of Some err \<Rightarrow> Inl err | None \<Rightarrow> got (received (le_recv e) (wire_response (cw_inner (respond r cw)))),
     snd (finish_request (kv_request ''GET'' a (peer_header secret key) (bytes_reader [])) ''cluster-get'' (r, cw, w1)))"
proof -
  let ?rq = "\<lparr>rq_method = ''GET'', rq_host = addr_string a, rq_tls = False,
    rq_url = key_url ''http'' (addr_string a) [] [], rq_header = peer_header secret key, rq_body = bytes_reader []\<rparr>"
  have "\<exists>c. node_client pk (peer_server d a sv) e ?rq w =
     (case le_reply e of Some err \<Rightarrow> Inl err | None \<Rightarrow> Inr (received (le_recv e) (wire_response (cw_inner (respond r cw)))), c,
      snd (finish_request (kv_request ''GET'' a (peer_header secret key) (bytes_reader [])) ''cluster-get'' (r, cw, w1)))"
    using assms by (simp add: node_client_def Let_def serve_get finish_request_def flip: kv_request_def split: option.splits)
  then show ?thesis
    by (auto simp: kv_get_def new_request_peer peer_simps got_def split: sum.splits option.splits)
qed

lemma kv_put_peer:
  assumes "le_dial e = None"
    and "handle_cluster_put (le_node e) (peer_server d a sv)
      (kv_request ''PUT'' a (SetMetadata (peer_header secret key) m) (sent_body (le_send e) b)) w = (Code st msg, n, w1)"
  shows "kv_put (peer pk d a secret sv) e w key m b =
    ((case rd_err (sent_body (le_send e) b) of
        Some err \<Rightarrow> Some err
      | None \<Rightarrow> (case le_reply e of
                  Some err \<Rightarrow> Some err
                | None \<Rightarrow> if st = 200 then None else Some (Errorf ''unexpected HTTP status'')),
      min (n + le_ahead e) (length (rd_data b))),
     snd (finish_request (kv_request ''PUT'' a (SetMetadata (peer_header secret key) m) (sent_body (le_send e) b)) ''cluster-put''
       (Code st msg, cw_wrap (fresh_writer None), w1)))"
proof -
  let ?h = "SetMetadata (peer_header secret key) m" and ?b = "sent_body (le_send e) b"
  let ?rq = "\<lparr>rq_method = ''PUT'', rq_host = addr_string a, rq_tls = False,
    rq_url = key_url ''http'' (addr_string a) [] [], rq_header = ?h, rq_body = b\<rparr>"
  have "node_client pk (peer_server d a sv) e ?rq w =
    (case rd_err ?b of
       Some err \<Rightarrow> Inl err
     | None \<Rightarrow> (case le_reply e of
                 Some err \<Rightarrow> Inl err
               | None \<Rightarrow> Inr (received (le_recv e) \<lparr>rs_status = st, rs_header = [], rs_body = bytes_reader []\<rparr>)),
     min (n + le_ahead e) (length (rd_data b)),
     snd (finish_request (kv_request ''PUT'' a ?h ?b) ''cluster-put'' (Code st msg, cw_wrap (fresh_writer None), w1)))"
    using assms
    by (simp add: node_client_def Let_def serve_put finish_request_def body_read_def respond_def wire_response_code
        flip: kv_request_def split: option.splits)
  then show ?thesis
    by (auto simp: kv_put_def new_request_peer peer_simps split: option.splits)
qed

lemma kv_peer_unreachable:
  assumes "le_dial e = Some err"
  shows "kv_get (peer pk d a secret sv) e w key = (Inl err, w)"
    and "kv_put (peer pk d a secret sv) e w key m b = ((Some err, 0), w)"
  using assms by (simp_all add: kv_get_def kv_put_def new_request_peer peer_simps node_client_def)

text \<open>
  The invariant of a node's directory: its own, and metadata that survived JSON before. Every entry
  a node wrote itself is of that kind.
\<close>

definition clean_disk :: "fs \<Rightarrow> bool" where
  "clean_disk s \<longleftrightarrow> disk_inv s \<and> (\<forall>n m b. disk_stored s n = Some (m, b) \<longrightarrow> coerce_metadata m = m)"

lemma clean_disk_step:
  assumes "clean_disk s" and "disk_inv s'" and "disk_stored s' \<subseteq>\<^sub>m (disk_stored s)(n \<mapsto> (coerce_metadata m, b))"
  shows "clean_disk s'"
  unfolding clean_disk_def
proof (intro conjI allI impI)
  fix n' m' b'
  assume "disk_stored s' n' = Some (m', b')"
  with assms(3) have "((disk_stored s)(n \<mapsto> (coerce_metadata m, b))) n' = Some (m', b')" by (metis domI map_le_def)
  with assms(1) show "coerce_metadata m' = m'" by (auto simp: clean_disk_def split: if_splits)
qed (fact assms(2))

lemma clean_disk_mono: "clean_disk s \<Longrightarrow> disk_inv s' \<Longrightarrow> disk_stored s' \<subseteq>\<^sub>m disk_stored s \<Longrightarrow> clean_disk s'"
  unfolding clean_disk_def map_le_def by (metis domI)

lemma finish_request_disk [simp]: "w_disk (snd (finish_request rq op (r, cw, w))) = w_disk w"
  by (simp add: finish_request_def Let_def)

text \<open>The node reads the blob of the entry from its disk without an error.\<close>

definition node_reads :: "os_env link_env \<Rightarrow> bool" where
  "node_reads e \<longleftrightarrow> env_read_blob (re_get (le_node e)) = None"

lemma peer_get_sound:
  assumes "clean_disk (w_disk w)" and "GetKey (rq_header rq) = (if key = [] then Inl err else Inr key)"
    and "disk_stored (w_disk w) (path_name key') = Some (m', blob)" "GetKey (rq_header rq) = Inr key'"
    and "rd_data (rs_body rs) = rd_data (cut_reader (env_read_blob (re_get (le_node e))) blob)" "rd_err (rs_body rs) = None"
    and "GetMetadata (rs_header rs) = Inr (coerce_metadata m')" and "got (received c rs) = Inr (b, m)"
  shows "\<exists>d. disk_stored (w_disk w) (path_name key) = Some (m, d) \<and> prefix (rd_data b) d \<and> (node_reads e \<longrightarrow> reads b d)"
proof (intro exI conjI impI)
  have "key' = key" using assms(2,4) by (auto split: if_splits)
  moreover have m: "m = m'" and b: "b = rs_body (received c rs)"
    using assms(1,3,7,8) by (auto simp: got_def clean_disk_def split: if_splits)
  ultimately show "disk_stored (w_disk w) (path_name key) = Some (m, blob)" using assms(3) by simp
  have "prefix (rd_data (rs_body rs)) blob" unfolding assms(5) by (rule readsD) simp
  with received_body(1) [of c rs] show "prefix (rd_data b) blob" unfolding b by (rule prefix_order.trans)
  assume "node_reads e"
  then have "rd_data (rs_body rs) = blob" unfolding assms(5) by (simp add: node_reads_def)
  with \<open>prefix (rd_data b) blob\<close> received_body(2) [of c rs] show "reads b blob" by (auto simp: reads_def b)
qed

lemma peer_get_laws:
  assumes "clean_disk (w_disk w)" and "kv_get (peer pk d a secret sv) e w key = (q, w')"
  shows "clean_disk (w_disk w')" and "disk_stored (w_disk w') = disk_stored (w_disk w)"
    and "q = Inr (b, m) \<Longrightarrow>
      \<exists>d. disk_stored (w_disk w) (path_name key) = Some (m, d) \<and> prefix (rd_data b) d \<and> (node_reads e \<longrightarrow> reads b d)"
proof -
  let ?rq = "kv_request ''GET'' a (peer_header secret key) (bytes_reader [])"
  have "clean_disk (w_disk w') \<and> disk_stored (w_disk w') = disk_stored (w_disk w) \<and> (q = Inr (b, m) \<longrightarrow>
    (\<exists>d. disk_stored (w_disk w) (path_name key) = Some (m, d) \<and> prefix (rd_data b) d \<and> (node_reads e \<longrightarrow> reads b d)))" for b m
  proof (cases "le_dial e")
    case (Some err)
    with assms show ?thesis by (auto simp: kv_peer_unreachable(1) [OF Some])
  next
    case None
    obtain r cw w1 where h: "handle_cluster_get (le_node e) (peer_server d a sv) ?rq (cw_wrap (fresh_writer None)) w = (r, cw, w1)"
      by (metis prod.collapse)
    have inv: "disk_inv (w_disk w)" using assms(1) by (simp add: clean_disk_def)
    let ?rs = "wire_response (cw_inner (respond r cw))"
    note out = cluster_get_outcome [OF peer_server_simps(1) inv h, unfolded Let_def]
    have q: "q = (case le_reply e of Some err \<Rightarrow> Inl err | None \<Rightarrow> got (received (le_recv e) ?rs))" "w_disk w' = w_disk w1"
      using kv_get_peer [OF None h, of pk] assms(2) by auto
    have key: "GetKey (rq_header ?rq) = (if key = [] then Inl (Errorf ''no header is found or it is empty'') else Inr key)" by simp
    have "\<exists>d. disk_stored (w_disk w) (path_name key) = Some (m, d) \<and> prefix (rd_data b) d \<and> (node_reads e \<longrightarrow> reads b d)"
      if "q = Inr (b, m)"
    proof -
      from that q(1) have g: "got (received (le_recv e) ?rs) = Inr (b, m)" by (simp split: option.splits)
      then have "rs_status ?rs = 200" by (auto simp: got_def split: if_splits)
      with out obtain key' m' blob where "rd_err (rs_body ?rs) = None" "GetKey (rq_header ?rq) = Inr key'"
        "disk_stored (w_disk w) (path_name key') = Some (m', blob)"
        "rd_data (rs_body ?rs) = rd_data (cut_reader (env_read_blob (re_get (le_node e))) blob)"
        "GetMetadata (rs_header ?rs) = Inr (coerce_metadata m')" by blast
      then show ?thesis using peer_get_sound [OF assms(1) key _ _ _ _ _ g] by blast
    qed
    with assms(1) out q(2) show ?thesis by (simp add: clean_disk_def)
  qed
  then show "clean_disk (w_disk w')" and "disk_stored (w_disk w') = disk_stored (w_disk w)" and "q = Inr (b, m) \<Longrightarrow>
      \<exists>d. disk_stored (w_disk w) (path_name key) = Some (m, d) \<and> prefix (rd_data b) d \<and> (node_reads e \<longrightarrow> reads b d)" by blast+
qed

lemma peer_put_laws:
  assumes "clean_disk (w_disk w)" and "kv_put (peer pk d a secret sv) e w key m b = ((q, n), w')"
  shows "clean_disk (w_disk w')"
    and "q = None \<Longrightarrow> rd_err b = None \<and> n = length (rd_data b) \<and>
      disk_stored (w_disk w') \<subseteq>\<^sub>m (disk_stored (w_disk w))(path_name key \<mapsto> (coerce_metadata m, rd_data b))"
    and "disk_stored (w_disk w') \<subseteq>\<^sub>m disk_stored (w_disk w) \<or> (rd_err b = None \<and>
      disk_stored (w_disk w') \<subseteq>\<^sub>m (disk_stored (w_disk w))(path_name key \<mapsto> (coerce_metadata m, rd_data b)))"
proof -
  let ?b = "sent_body (le_send e) b" and ?v = "(disk_stored (w_disk w))(path_name key \<mapsto> (coerce_metadata m, rd_data b))"
  let ?rq = "kv_request ''PUT'' a (SetMetadata (peer_header secret key) m) ?b"
  have inv: "disk_inv (w_disk w)" using assms(1) by (simp add: clean_disk_def)
  have "disk_inv (w_disk w') \<and> (q = None \<longrightarrow> rd_err b = None \<and> n = length (rd_data b) \<and> disk_stored (w_disk w') \<subseteq>\<^sub>m ?v) \<and>
    (disk_stored (w_disk w') \<subseteq>\<^sub>m disk_stored (w_disk w) \<or> (rd_err b = None \<and> disk_stored (w_disk w') \<subseteq>\<^sub>m ?v))"
  proof (cases "le_dial e")
    case (Some err)
    with assms(2) inv show ?thesis by (auto simp: kv_peer_unreachable(2) [OF Some])
  next
    case None
    obtain r c w1 where h: "handle_cluster_put (le_node e) (peer_server d a sv) ?rq w = (r, c, w1)" by (metis prod.collapse)
    note out = cluster_put_outcome [OF peer_server_simps(1) inv h]
    from out(2) obtain st msg where r: "r = Code st msg" by blast
    have res: "q = (case rd_err ?b of Some err \<Rightarrow> Some err | None \<Rightarrow> (case le_reply e of Some err \<Rightarrow> Some err
        | None \<Rightarrow> if st = 200 then None else Some (Errorf ''unexpected HTTP status'')))"
      "n = min (c + le_ahead e) (length (rd_data b))" "w_disk w' = w_disk w1"
      using kv_put_peer [OF None h [unfolded r], of pk] assms(2) by auto
    show ?thesis
    proof (cases "st = 200")
      case True
      with out(2) r have ok: "rd_err ?b = None" "c = length (rd_data ?b)"
        "disk_stored (w_disk w1) \<subseteq>\<^sub>m (disk_stored (w_disk w))(path_name key \<mapsto> (coerce_metadata m, rd_data ?b))"
        by (auto split: if_splits)
      from sent_body_whole [OF ok(1)] ok True out(1) res show ?thesis by simp
    next
      case False
      with out r res show ?thesis by (auto split: option.splits)
    qed
  qed
  then show "clean_disk (w_disk w')"
    and "q = None \<Longrightarrow> rd_err b = None \<and> n = length (rd_data b) \<and> disk_stored (w_disk w') \<subseteq>\<^sub>m ?v"
    and "disk_stored (w_disk w') \<subseteq>\<^sub>m disk_stored (w_disk w) \<or> (rd_err b = None \<and> disk_stored (w_disk w') \<subseteq>\<^sub>m ?v)"
    using assms(1) by (auto intro: clean_disk_step clean_disk_mono)
qed

interpretation rc: cache "kv_get (peer pk d a secret sv)" "kv_put (peer pk d a secret sv)" path_name
  "\<lambda>w. disk_stored (w_disk w)" "\<lambda>w. clean_disk (w_disk w)" node_reads for pk d a secret sv
proof unfold_locales
  show "clean_disk (w_disk w) \<Longrightarrow> kv_get (peer pk d a secret sv) e w k = (r, w') \<Longrightarrow> clean_disk (w_disk w')" for w e k r w'
    by (rule peer_get_laws)
  show "clean_disk (w_disk w) \<Longrightarrow> kv_get (peer pk d a secret sv) e w k = (r, w') \<Longrightarrow>
      disk_stored (w_disk w') = disk_stored (w_disk w)" for w e k r w'
    by (rule peer_get_laws)
  show "clean_disk (w_disk w) \<Longrightarrow> kv_get (peer pk d a secret sv) e w k = (Inr (b, m), w') \<Longrightarrow>
      \<exists>d. disk_stored (w_disk w) (path_name k) = Some (m, d) \<and> prefix (rd_data b) d \<and> (node_reads e \<longrightarrow> reads b d)" for w e k b m w'
    by (rule peer_get_laws) simp_all
  show "clean_disk (w_disk w) \<Longrightarrow> kv_put (peer pk d a secret sv) e w k m b = (q, w') \<Longrightarrow> clean_disk (w_disk w')" for w e k m b q w'
    by (cases q) (auto dest: peer_put_laws(1))
  show "clean_disk (w_disk w) \<Longrightarrow> kv_put (peer pk d a secret sv) e w k m b = ((None, n), w') \<Longrightarrow> rd_err b = None \<and> n = length (rd_data b) \<and>
      disk_stored (w_disk w') \<subseteq>\<^sub>m (disk_stored (w_disk w))(path_name k \<mapsto> (coerce_metadata m, rd_data b))" for w e k m b n w'
    by (rule peer_put_laws(2)) simp_all
  show "clean_disk (w_disk w) \<Longrightarrow> kv_put (peer pk d a secret sv) e w k m b = ((Some err, n), w') \<Longrightarrow>
      disk_stored (w_disk w') \<subseteq>\<^sub>m disk_stored (w_disk w) \<or> (rd_err b = None \<and>
        disk_stored (w_disk w') \<subseteq>\<^sub>m (disk_stored (w_disk w))(path_name k \<mapsto> (coerce_metadata m, rd_data b)))" for w e k m b err n w'
    by (rule peer_put_laws(3))
qed

section \<open>Properties of the cluster protocol\<close>

text \<open>
  C12. What a remote cache returns. Start with an empty directory at the node and run any sequence of \<^verbatim>\<open>Get\<close>s and
  \<^verbatim>\<open>Put\<close>s through the client, one after the other, with the node unreachable, connections that break in the middle of
  a request or of an answer, answers that get lost after the node has done its work, secrets rejected, readers and system
  calls failing as they like. If a \<^verbatim>\<open>Get\<close> then hits, its metadata and blob are those of the last \<^verbatim>\<open>Put\<close> under that
  file name that reported success, or of a later \<^verbatim>\<open>Put\<close> that reported an error although its blob was
  complete; nothing of any other \<^verbatim>\<open>Put\<close> is returned. The reader yields a beginning of that blob, and when the node could
  read its file, all of it unless the reader ends with an error. (When the node cannot, its handler ends the
  answer as if the blob were complete, and the client cannot tell.)
\<close>

theorem cluster_hit_is_last_put:
  assumes "w_disk w = empty_fs"
    and "cache_run (kv_get (peer pk d a secret sv)) (kv_put (peer pk d a secret sv)) path_name (w, no_puts) ops = (w', g)"
    and "kv_get (peer pk d a secret sv) e w' key = (Inr (b, m), w'')"
  shows "\<exists>blob. (fst (g (path_name key)) = Some (m, blob) \<or> (m, blob) \<in> set (snd (g (path_name key)))) \<and>
    prefix (rd_data b) blob \<and> (env_read_blob (re_get (le_node e)) = None \<longrightarrow> reads b blob)"
proof -
  have "disk_stored empty_fs = Map.empty" by (simp add: disk_stored_def empty_fs_def fun_eq_iff)
  then have "clean_disk (w_disk w)" "tracked (disk_stored (w_disk w)) no_puts"
    by (simp_all add: assms(1) clean_disk_def tracked_def)
  from rc.hit_is_candidate [OF this assms(2,3)] show ?thesis by (auto simp: candidates_def node_reads_def)
qed

text \<open>An exchange in which nothing fails.\<close>

definition quiet_link :: "int \<Rightarrow> string \<Rightarrow> nat \<Rightarrow> os_env link_env" where
  "quiet_link now tmp ahead =
     \<lparr>le_dial = None, le_send = None, le_node = quiet_renv now tmp, le_ahead = ahead, le_reply = None, le_recv = None\<rparr>"

lemma quiet_link_simps [simp]:
  "le_dial (quiet_link now tmp ahead) = None" "re_get (le_node (quiet_link now tmp ahead)) = quiet_env now tmp"
  "re_put (le_node (quiet_link now tmp ahead)) = quiet_env now tmp"
  "re_close (le_node (quiet_link now tmp ahead)) = quiet_env now tmp" "re_now (le_node (quiet_link now tmp ahead)) = now"
  "le_send (quiet_link now tmp ahead) = None" "le_reply (quiet_link now tmp ahead) = None" "le_recv (quiet_link now tmp ahead) = None"
  by (simp_all add: quiet_link_def)

lemma reader_close_quiet: "reader_close (quiet_env now tmp) s = (None, os_close s)"
  by (simp add: reader_close_def quiet_env_def)

lemma cluster_get_quiet:
  assumes "sv_disk sv = disk_ops d" and "perform_cluster_auth sv rq = None" and "GetKey (rq_header rq) = Inr key"
    and "disk_stored (w_disk w) (path_name key) = Some (m, b)"
  shows "\<exists>cw s. handle_cluster_get (le_node (quiet_link now tmp ahead)) sv rq (cw_wrap (fresh_writer None)) w =
      (Empty ''cache entry read successfully'', cw, w\<lparr>w_disk := s\<rparr>) \<and> cw_status cw = 0 \<and>
    wire_response (cw_inner cw) = \<lparr>rs_status = 200, rs_header = SetMetadata [] m, rs_body = bytes_reader b\<rparr>"
proof -
  obtain s where g: "disk_get (quiet_env now tmp) (w_disk w) key = (Inr (bytes_reader b, m), s)"
    using disk_get_quiet [OF assms(4)] by blast
  obtain e cw where c: "cw_copy (bytes_reader b) (cw_set_header (SetMetadata [] m) (cw_wrap (fresh_writer None))) = (e, cw)"
    by fastforce
  note cp = wire_response_copied [OF metadata_no_length c]
  have "cw_status cw = 0" using cw_copy_status [OF c] by (simp add: cw_wrap_def)
  with g c cp(1,2) assms show ?thesis
    by (intro exI [of _ cw] exI [of _ "os_close s"]) (simp add: handle_cluster_get_def disk_ops_def reader_close_quiet)
qed

lemma peer_roundtrip:
  assumes "sv_cluster sv = Some c" and "cl_secret c = secret" and "secret \<noteq> []" and "key \<noteq> []"
    and "disk_inv (w_disk w)" and "map_of (fs_tmp (w_disk w)) tmp = None"
    and "content_size (entry_archive key (coerce_metadata m) b) \<le> unat (d_limit d)"
  shows "\<exists>w1 w2.
    kv_put (peer pk d a secret sv) (quiet_link now tmp ahead) w key m (bytes_reader b) = ((None, length b), w1) \<and>
    kv_get (peer pk d a secret sv) (quiet_link now' tmp' ahead') w1 key = (Inr (bytes_reader b, coerce_metadata m), w2) \<and>
    w_requests w2 = (''GET'', 0, ''cluster-get'') # (''PUT'', 200, ''cluster-put'') # w_requests w"
proof -
  let ?sv = "peer_server d a sv"
  let ?put = "kv_request ''PUT'' a (SetMetadata (peer_header secret key) m) (bytes_reader b)"
  let ?get = "kv_request ''GET'' a (peer_header secret key) (bytes_reader [])"
  have body: "rq_body ?put = bytes_reader b"
    by (simp add: kv_request_def wire_request_def bytes_reader_def)
  have auth: "perform_cluster_auth ?sv ?put = None" "perform_cluster_auth ?sv ?get = None"
    using assms(1-3) by (simp_all add: perform_cluster_auth_def)
  obtain s where s: "disk_put d (quiet_env now tmp) (w_disk w) key (coerce_metadata m) (bytes_reader b) = ((None, length b), s)"
    using disk_put_succeeds [OF assms(5-7)] by blast
  let ?w = "w\<lparr>w_disk := s\<rparr>"
  have "handle_cluster_put (le_node (quiet_link now tmp ahead)) ?sv ?put w =
      (Code 200 ''cache entry written successfully'', length b, ?w)"
    using auth(1) s assms(4) by (simp add: handle_cluster_put_def body disk_ops_def)
  note put = kv_put_peer [of "quiet_link now tmp ahead", simplified, OF this, of pk]
  let ?w1 = "snd (finish_request ?put ''cluster-put'' (Code 200 ''cache entry written successfully'', cw_wrap (fresh_writer None), ?w))"
  have p: "kv_put (peer pk d a secret sv) (quiet_link now tmp ahead) w key m (bytes_reader b) = ((None, length b), ?w1)"
    using put by simp
  have "disk_stored (w_disk ?w1) (path_name key) = Some (coerce_metadata m, b)"
    using disk_put_stored [OF s] by simp
  from cluster_get_quiet [OF _ auth(2) _ this, of d] assms(4) obtain cw s' where
    g: "handle_cluster_get (le_node (quiet_link now' tmp' ahead')) ?sv ?get (cw_wrap (fresh_writer None)) ?w1 =
      (Empty ''cache entry read successfully'', cw, ?w1\<lparr>w_disk := s'\<rparr>)" and cw: "cw_status cw = 0"
      "wire_response (cw_inner cw) = \<lparr>rs_status = 200, rs_header = SetMetadata [] (coerce_metadata m), rs_body = bytes_reader b\<rparr>"
    by (metis kv_request_simps(4) peer_header_simps(1) peer_server_simps(1) wire_kv(1))
  let ?w2 = "snd (finish_request ?get ''cluster-get'' (Empty ''cache entry read successfully'', cw, ?w1\<lparr>w_disk := s'\<rparr>))"
  have "kv_get (peer pk d a secret sv) (quiet_link now' tmp' ahead') ?w1 key = (Inr (bytes_reader b, coerce_metadata m), ?w2)"
    using kv_get_peer [OF _ g, of pk] cw(2) by (simp add: respond_def got_def)
  moreover have "w_requests ?w2 = (''GET'', 0, ''cluster-get'') # (''PUT'', 200, ''cluster-put'') # w_requests w"
    using cw(1) by (simp add: finish_request_def respond_def Let_def)
  ultimately show ?thesis using p by blast
qed

text \<open>
  C13. The cluster protocol round-trips end to end. With the right secret, a node that can be
  reached and no failing system call, a \<^verbatim>\<open>Put\<close> of a blob that fits reads it whole and succeeds, and a later
  \<^verbatim>\<open>Get\<close> through the protocol returns it byte for byte with its metadata. The node
  counts the \<^verbatim>\<open>PUT\<close> with status 200, but the \<^verbatim>\<open>GET\<close>, which the client sees succeed with 200, with status 0:
  the capturing writer does not notice the implicit \<^verbatim>\<open>WriteHeader\<close> of the first write.
\<close>

theorem cluster_put_get:
  assumes "sv_cluster sv = Some c" and "cl_secret c = secret" and "secret \<noteq> []" and "key \<noteq> []"
    and "disk_inv (w_disk w)" and "map_of (fs_tmp (w_disk w)) tmp = None"
    and "content_size (entry_archive key (coerce_metadata m) b) \<le> unat (d_limit d)"
  shows "\<exists>w1 w2.
    kv_put (peer pk d a secret sv) (quiet_link now tmp ahead) w key m (bytes_reader b) = ((None, length b), w1) \<and>
    kv_get (peer pk d a secret sv) (quiet_link now' tmp' ahead') w1 key = (Inr (bytes_reader b, coerce_metadata m), w2) \<and>
    w_requests w2 = (''GET'', 0, ''cluster-get'') # (''PUT'', 200, ''cluster-put'') # w_requests w"
  by (rule peer_roundtrip [OF assms])

text \<open>A node with the secret \<^verbatim>\<open>s\<close> for the witnesses.\<close>

definition sample_addr :: node_addr where
  "sample_addr = Addr ''10.0.0.1:8080''"

definition node_server :: "(os_env, fs, unit) server" where
  "node_server = disk_server\<lparr>sv_cluster := Some (cluster_new ''s'' ''10.0.0.1:8080'' [''10.0.0.1:8080''])\<rparr>"

lemma coerce_sample_md [simp]: "coerce_metadata sample_md = sample_md"
  by (rule coerce_metadata_valid) (simp add: sample_md_def valid_utf8_ascii is_ascii_def)

lemma node_server_facts:
  "sv_cluster node_server = Some (cluster_new ''s'' ''10.0.0.1:8080'' [''10.0.0.1:8080''])"
  "cl_secret (cluster_new ''s'' ''10.0.0.1:8080'' [''10.0.0.1:8080'']) = ''s''"
  "map_of (fs_tmp (w_disk disk_world)) ''t'' = None" "w_disk disk_world = empty_fs"
  "content_size (entry_archive ''a'' (coerce_metadata sample_md) ''hi'') \<le> unat (d_limit sample_disk)"
  by (simp_all add: node_server_def cluster_new_def disk_world_def sample_size)
    (simp_all add: empty_fs_def sample_disk_def)

theorem cluster_put_get_witness:
  "\<exists>w1 w2. kv_put (peer sample_packages sample_disk sample_addr ''s'' node_server) (quiet_link 5 ''t'' 0) disk_world ''a'' sample_md
      (bytes_reader ''hi'') = ((None, length ''hi''), w1) \<and>
    kv_get (peer sample_packages sample_disk sample_addr ''s'' node_server) (quiet_link 9 [] 0) w1 ''a'' =
      (Inr (bytes_reader ''hi'', coerce_metadata sample_md), w2) \<and>
    w_requests w2 = (''GET'', 0, ''cluster-get'') # (''PUT'', 200, ''cluster-put'') # w_requests disk_world"
  by (rule cluster_put_get [OF node_server_facts(1,2) _ _ disk_server_facts(2) node_server_facts(3,5)]) simp_all

text \<open>The witness: the answer to a \<^verbatim>\<open>Put\<close> gets lost, and its entry is found all the same.\<close>

definition lossy_link :: "int \<Rightarrow> string \<Rightarrow> os_env link_env" where
  "lossy_link now tmp = (quiet_link now tmp 0)\<lparr>le_reply := Some ErrEOF\<rparr>"

lemma kv_put_lost:
  assumes "kv_put (peer pk d a secret sv) (quiet_link now tmp 0) w key m b = ((None, n), w')"
  shows "kv_put (peer pk d a secret sv) (lossy_link now tmp) w key m b = ((Some ErrEOF, n), w')"
  using assms
  by (auto simp: kv_put_def new_request_peer peer_simps node_client_def lossy_link_def Let_def
      split: option.splits sum.splits prod.splits if_splits)

theorem cluster_hit_is_last_put_witness:
  "\<exists>w g w'. cache_run (kv_get (peer sample_packages sample_disk sample_addr ''s'' node_server))
      (kv_put (peer sample_packages sample_disk sample_addr ''s'' node_server)) path_name (disk_world, no_puts)
      [OpPut (lossy_link 5 ''t'') ''a'' sample_md (bytes_reader ''hi'')] = (w, g) \<and>
    kv_get (peer sample_packages sample_disk sample_addr ''s'' node_server) (quiet_link 9 [] 0) w ''a'' =
      (Inr (bytes_reader ''hi'', sample_md), w') \<and>
    g (path_name ''a'') = (None, [(sample_md, ''hi'')])"
proof -
  let ?k = "peer sample_packages sample_disk sample_addr ''s'' node_server"
  obtain w1 w2 where w: "kv_put ?k (lossy_link 5 ''t'') disk_world ''a'' sample_md (bytes_reader ''hi'') = ((Some ErrEOF, length ''hi''), w1)"
    "kv_get ?k (quiet_link 9 [] 0) w1 ''a'' = (Inr (bytes_reader ''hi'', sample_md), w2)"
    using peer_roundtrip [OF node_server_facts(1,2) _ _ disk_server_facts(2) node_server_facts(3,5), of sample_packages sample_addr 5 0 9 "[]" 0]
      kv_put_lost by fastforce
  then obtain g where g: "cache_run (kv_get ?k) (kv_put ?k) path_name (disk_world, no_puts)
      [OpPut (lossy_link 5 ''t'') ''a'' sample_md (bytes_reader ''hi'')] = (w1, g)"
    by (simp add: cache_step_def Let_def)
  from g w(1) have "g (path_name ''a'') = (None, [(sample_md, ''hi'')])"
    by (auto simp: cache_step_def Let_def no_puts_def)
  with cluster_hit_is_last_put [OF node_server_facts(4) g w(2)] g w(2) show ?thesis by blast
qed

end
