(* ===== verification/DirectLink.thy ===== *)
theory DirectLink
  imports ClusterLink
begin

text \<open>
  Direct connect across two nodes: the redirect that \<^verbatim>\<open>handle_proxy_default.go\<close> answers with, followed by
  a client to the node it points to, where \<^verbatim>\<open>handle_direct_connect.go\<close> checks the token and
  serves the entry.
\<close>

section \<open>The redirect URL\<close>

lemma ctl_escaped:
  assumes "is_ctl c"
  shows "should_escape EncQuery c" and "c \<notin> set ''%0123456789ABCDEF''" and "c \<noteq> CHR ''+''" and "c \<noteq> CHR ''=''"
proof -
  have lit: "c \<notin> set s" if "list_all (\<lambda>c. \<not> is_ctl c) s" for s
    using that assms by (auto simp: list_all_iff)
  have "\<not> is_letter c" "\<not> is_digit c" using assms by (auto simp: is_ctl_def is_letter_def is_digit_def)
  moreover have "c \<notin> set ''-_.~''" by (rule lit) code_simp
  ultimately show "should_escape EncQuery c" by (simp add: should_escape_def)
  show "c \<notin> set ''%0123456789ABCDEF''" by (rule lit) code_simp
  have "\<not> is_ctl (CHR ''+'')" "\<not> is_ctl (CHR ''='')" by code_simp+
  with assms show "c \<noteq> CHR ''+''" "c \<noteq> CHR ''=''" by metis+
qed

lemma escape_query_plain: "c \<in> set (escape EncQuery s) \<Longrightarrow> \<not> is_ctl c \<and> c \<noteq> CHR ''#''"
proof -
  assume c: "c \<in> set (escape EncQuery s)"
  have "\<not> is_ctl c"
  proof
    assume "is_ctl c"
    from escape_free [OF ctl_escaped(1,2) [OF this], of s] ctl_escaped(3) [OF this] c show False by blast
  qed
  moreover have "CHR ''#'' \<notin> set (escape EncQuery s)"
    by (rule escape_free; simp add: should_escape_def is_letter_def is_digit_def)
  ultimately show ?thesis using c by metis
qed

definition token_query :: "string \<Rightarrow> string" where
  "token_query tok = values_encode (values_set [] ''token'' tok)"

lemma token_query_eq: "token_query tok = escape EncQuery ''token'' @ CHR ''='' # escape EncQuery tok"
  by (simp add: token_query_def values_set_def values_encode_def values_pairs_def encode_pair_def)

lemma token_query_plain: "c \<in> set (token_query tok) \<Longrightarrow> \<not> is_ctl c \<and> c \<noteq> CHR ''#''" "token_query tok \<noteq> []"
  using escape_query_plain ctl_escaped(4) by (auto simp: token_query_eq simp del: escape.simps)

lemma escape_host_port: "host_port n \<Longrightarrow> escape EncHost n = n"
proof -
  have "(\<And>c. c \<in> set s \<Longrightarrow> plain_char c \<or> c = CHR '':'') \<Longrightarrow> escape EncHost s = s" for s
    using plain_char_safe by (induction s) auto
  then show "host_port n \<Longrightarrow> ?thesis" using host_port_chars by blast
qed

text \<open>URLs of a node with a plain absolute path parse back to their parts.\<close>

definition plain_path :: "string \<Rightarrow> bool" where
  "plain_path p \<longleftrightarrow> hd p = CHR ''/'' \<and> p \<noteq> [] \<and> p \<noteq> ''*'' \<and> CHR ''?'' \<notin> set p \<and> CHR ''#'' \<notin> set p \<and> \<not> list_ex is_ctl p \<and>
     unescape EncPath p = Some p \<and> escape EncPath p = p"

lemma node_url_eq:
  assumes "host_port n" and "plain_path p"
  shows "url_string (key_url ''http'' n p q) = ''http://'' @ n @ p @ (if q \<noteq> [] then CHR ''?'' # q else [])"
proof -
  have "n \<noteq> []" using assms(1) by (auto simp: host_port_def split_last_def)
  moreover have "rooted p = p" using assms(2) by (simp add: rooted_def plain_path_def)
  ultimately show ?thesis
    using assms by (simp add: url_string_key escape_host_port plain_path_def)
qed

lemma parse_node_url:
  assumes "host_port n" and "plain_path p" and q: "\<And>c. c \<in> set q \<Longrightarrow> \<not> is_ctl c \<and> c \<noteq> CHR ''#''"
  shows "url_parse (url_string (key_url ''http'' n p q)) = Inr (key_url ''http'' n p q)"
proof -
  let ?u = "''http://'' @ n @ p @ (if q \<noteq> [] then CHR ''?'' # q else [])"
  obtain p' where p': "p = CHR ''/'' # p'" using assms(2) by (cases p) (auto simp: plain_path_def)
  have free: "CHR ''#'' \<notin> set n" "CHR ''?'' \<notin> set n" "CHR ''/'' \<notin> set n"
    using host_port_no_special [OF assms(1)] by simp_all
  have ctl: "\<not> list_ex is_ctl n" "\<not> list_ex is_ctl q"
    using host_port_chars [OF assms(1)] plain_char_safe q by (fastforce simp: list_ex_iff)+
  have cut: "strings_cut (CHR ''#'') ?u = (?u, [], False)"
    using free q [of "CHR ''#''"] assms(2) by (intro strings_cut_no_sep) (auto simp: plain_path_def)
  have "CHR ''?'' \<notin> set (n @ p)" using free assms(2) by (simp add: plain_path_def)
  from cut_query [OF this, of q] have query: "strings_cut (CHR ''?'') (n @ p @ (if q \<noteq> [] then CHR ''?'' # q else [])) = (n @ p, q, q \<noteq> [])"
    by (simp only: append_assoc)
  have path: "strings_cut (CHR ''/'') (n @ p) = (n, p', True)"
    using free strings_cut_append [of "CHR ''/''" n p'] by (simp add: p')
  have lit: "\<not> list_ex is_ctl ''http://''" "\<not> is_ctl (CHR ''?'')" by code_simp+
  have "\<not> list_ex is_ctl ?u" using ctl lit assms(2) by (simp add: plain_path_def)
  moreover have "has_prefix ''http://'' ?u" "drop 7 ?u = n @ p @ (if q \<noteq> [] then CHR ''?'' # q else [])"
    by (simp_all add: has_prefix_iff)
  ultimately have "url_parse ?u =
    (case set_path (drop (length n) (n @ p)) (empty_url\<lparr>u_scheme := ''http'', u_user := None, u_host := n,
       u_force_query := q \<noteq> [] \<and> q = [], u_rawquery := q\<rparr>) of None \<Rightarrow> Inl (Errorf ''parse: invalid URL'') | Some u \<Rightarrow> Inr u)"
    unfolding url_parse_def Let_def cut prod.case
    by (simp only: query path prod.case parse_host_port(1) [OF assms(1)] option.case if_True if_False simp_thms unescape.simps
        option.distinct)
  then show ?thesis
    using assms(2) unfolding node_url_eq [OF assms(1,2)]
    by (simp add: set_path_def key_url_def empty_url_def plain_path_def)
qed

lemma plain_paths: "plain_path ''/direct-connect''" "plain_path ''/health''"
  by code_simp+

lemma direct_connect_url_query: "direct_connect_url n tok = url_string (key_url ''http'' n ''/direct-connect'' (token_query tok))"
proof -
  have "parse_query [] = []" by code_simp
  then show ?thesis by (simp add: direct_connect_url_def token_query_def)
qed

lemma parse_direct_connect_url:
  assumes "host_port n"
  shows "url_parse (direct_connect_url n tok) = Inr (key_url ''http'' n ''/direct-connect'' (token_query tok))"
  unfolding direct_connect_url_query by (rule parse_node_url [OF assms plain_paths(1)]) (rule token_query_plain)

section \<open>Following the redirect\<close>

text \<open>The request a client makes for the URL, as the node sees it.\<close>

definition direct_request :: "node_addr \<Rightarrow> string \<Rightarrow> request" where
  "direct_request a tok =
     \<lparr>rq_method = ''GET'', rq_host = addr_string a, rq_tls = False,
      rq_url = key_url ''http'' (addr_string a) ''/direct-connect'' (token_query tok), rq_header = [], rq_body = bytes_reader []\<rparr>"

lemma new_direct_request:
  "http_new_request ''GET'' (direct_connect_url (addr_string a) tok) (bytes_reader []) = Inr (direct_request a tok)"
  by (simp add: http_new_request_def parse_direct_connect_url direct_request_def key_url_def empty_url_def
      parse_host_port(2) Let_def)

lemma serve_direct:
  assumes "perform_direct_connect_auth pk now (peer_server d a sv) (wire_request (direct_request a tok)) = Inr key"
    and "disk_stored (w_disk w) (path_name key) = Some (m, b)"
  shows "\<exists>cw w'. serve_http pk (le_node (quiet_link now tmp n)) cenv (peer_server d a sv) (wire_request (direct_request a tok))
      (fresh_writer None) w = Some (cw, w', []) \<and>
    wire_response (cw_inner cw) = \<lparr>rs_status = 200, rs_header = [], rs_body = bytes_reader b\<rparr> \<and>
    w_cache_ops w' = ''direct-connect'' # w_cache_ops w"
proof -
  let ?rq = "wire_request (direct_request a tok)" and ?sv = "peer_server d a sv"
  have rq: "rq_host ?rq = addr_string a" "rq_method ?rq = ''GET''" "u_path (rq_url ?rq) = ''/direct-connect''"
    by (simp_all add: wire_request_def direct_request_def key_url_def)
  obtain s where g: "disk_get (quiet_env now tmp) (w_disk w) key = (Inr (bytes_reader b, m), s)"
    using disk_get_quiet [OF assms(2)] by blast
  obtain e cw where c: "cw_copy (bytes_reader b) (cw_wrap (fresh_writer None)) = (e, cw)" by fastforce
  have "cw_set_header [] (cw_wrap (fresh_writer None)) = cw_wrap (fresh_writer None)"
    by (simp add: cw_set_header_def cw_wrap_def fresh_writer_def)
  with c have cp: "e = None" "wire_response (cw_inner cw) = \<lparr>rs_status = 200, rs_header = [], rs_body = bytes_reader b\<rparr>"
    using wire_response_copied(1,2) [OF declared_length_Nil, of "bytes_reader b" e cw] by simp_all
  have "handle_direct_connect_get pk (le_node (quiet_link now tmp n)) ?sv ?rq (cw_wrap (fresh_writer None)) w =
      (Empty ''cache entry read successfully'', cw, count_cache_op ''direct-connect'' (w\<lparr>w_disk := os_close s\<rparr>))"
    using assms(1) g c cp(1) by (simp add: handle_direct_connect_get_def disk_ops_def reader_close_quiet)
  then show ?thesis
    using rq cp(2) by (simp add: serve_http_def dispatch_def finish_request_def respond_def Let_def count_cache_op_def)
qed

text \<open>
  C14. Direct connect works end to end. When the proxy answers a hit with a redirect, the
  \<^verbatim>\<open>Location\<close> it sends is a URL that a client can request at once; the request reaches the node that owns the
  key, the token in it is accepted there (same cluster secret, clocks at most ten seconds apart or the
  token at most ten minutes old), and if the node holds the entry the client receives it
  completely, with status 200, and one \<^verbatim>\<open>direct-connect\<close> operation is counted.
\<close>

theorem direct_connect_end_to_end:
  assumes "jwt_complete pk" and "sv_cluster sv = Some c" and "target_node (pk_hrw pk) c key = Some (addr_string a)"
    and "answer_redirect pk sv env c ru key cw w = Some (Code 307 msg, cw', w')"
    and "sv_cluster sv' = Some c'" and "cl_secret c' = cl_secret c"
    and "re_now env - jwtLeeway \<le> now" and "now \<le> re_now env + jwtValidity + 9 * second"
    and "disk_stored (w_disk node) (path_name key) = Some (m, b)"
  shows "\<exists>rq cw2 node'. http_new_request ''GET'' (header_get (cw_header cw') ''Location'') (bytes_reader []) = Inr rq \<and>
    rq_host rq = addr_string a \<and>
    serve_http pk (le_node (quiet_link now tmp n)) cenv (peer_server d a sv') (wire_request rq) (fresh_writer None) node =
      Some (cw2, node', []) \<and>
    wire_response (cw_inner cw2) = \<lparr>rs_status = 200, rs_header = [], rs_body = bytes_reader b\<rparr> \<and>
    w_cache_ops node' = ''direct-connect'' # w_cache_ops node"
proof -
  from assms(3,4) obtain tok where tok: "generate_direct_connect_token pk (re_now env) sv key = Inr tok"
    and h: "cw_header cw' = (let h = header_set (cw_header cw) ''Location'' (direct_connect_url (addr_string a) tok)
      in if directConnectHeader ru then header_set h ''X-Chacha-Direct-Connect'' ''1'' else h)"
    by (auto simp: answer_redirect_def Let_def split: sum.splits)
  have "canonical_key ''Location'' \<noteq> canonical_key ''X-Chacha-Direct-Connect''" by code_simp
  then have loc: "header_get (cw_header cw') ''Location'' = direct_connect_url (addr_string a) tok"
    by (simp add: h Let_def header_get_set)
  have q: "u_rawquery (rq_url (wire_request (direct_request a tok))) = values_encode (values_set [] ''token'' tok)"
    by (simp add: wire_request_def direct_request_def key_url_def token_query_def)
  from assms(5) have "sv_cluster (peer_server d a sv') = Some c'" by simp
  from token_accepted [OF assms(1,2) this assms(6) tok q assms(7,8)] serve_direct [OF _ assms(9)] new_direct_request [of a tok] loc
  show ?thesis by (fastforce simp: direct_request_def)
qed

definition direct_rule :: rule where
  "direct_rule = sample_rule\<lparr>directConnect := True\<rparr>"

definition direct_cluster :: cluster where
  "direct_cluster = cluster_new ''s'' ''10.0.0.1:8080'' [''10.0.0.1:8080'']"

definition direct_node :: "(fs, unit) world" where
  "direct_node = disk_world\<lparr>w_disk :=
     empty_fs\<lparr>fs_dir := [(path_name ''k'', new_file sample_env ''k'' sample_md (bytes_reader ''hi''))]\<rparr>\<rparr>"

definition direct_renv :: "os_env request_env" where
  "direct_renv = disk_renv\<lparr>re_now := 1000 * second\<rparr>"

lemma direct_facts:
  "sv_cluster node_server = Some direct_cluster" "target_node (pk_hrw sample_packages) direct_cluster ''k'' = Some (addr_string sample_addr)"
  "disk_stored (w_disk direct_node) (path_name ''k'') = Some (sample_md, ''hi'')"
  "re_now direct_renv - jwtLeeway \<le> 1500 * second" "1500 * second \<le> re_now direct_renv + jwtValidity + 9 * second"
proof -
  have "host_port ''10.0.0.1:8080''" by code_simp
  then have "addr_string sample_addr = ''10.0.0.1:8080''" by (simp add: sample_addr_def Addr_inverse)
  then show "target_node (pk_hrw sample_packages) direct_cluster ''k'' = Some (addr_string sample_addr)"
    by (simp add: target_node_def direct_cluster_def cluster_new_def sample_packages_def sample_hrw_def)
qed (simp_all add: node_server_def direct_cluster_def direct_node_def disk_stored_def new_file_def entry_of_archive
    direct_renv_def jwtLeeway_def jwtValidity_def second_def)

lemma direct_redirect:
  "\<exists>cw' w'. answer_redirect sample_packages node_server direct_renv direct_cluster direct_rule ''k''
    (cw_wrap (fresh_writer None)) disk_world = Some (Code 307 ''redirected with a direct connect hint'', cw', w')"
proof -
  have "generate_direct_connect_token sample_packages (re_now direct_renv) node_server ''k'' = Inr ''tok''"
    using direct_facts(1)
    by (simp add: generate_direct_connect_token_def direct_cluster_def cluster_new_def sample_packages_def sample_claims_def
        numeric_date_def second_def jwtValidity_def jwtIssuerChacha_def jwtAudienceDirectConnect_def direct_renv_def)
  then show ?thesis by (simp add: answer_redirect_def direct_facts(2) Let_def)
qed

theorem direct_connect_end_to_end_witness:
  "\<exists>cw' w' rq cw2 node'. answer_redirect sample_packages node_server direct_renv direct_cluster direct_rule ''k''
      (cw_wrap (fresh_writer None)) disk_world = Some (Code 307 ''redirected with a direct connect hint'', cw', w') \<and>
    http_new_request ''GET'' (header_get (cw_header cw') ''Location'') (bytes_reader []) = Inr rq \<and>
    serve_http sample_packages (le_node (quiet_link (1500 * second) [] 0)) no_connect_errors
      (peer_server sample_disk sample_addr node_server) (wire_request rq) (fresh_writer None) direct_node = Some (cw2, node', []) \<and>
    wire_response (cw_inner cw2) = \<lparr>rs_status = 200, rs_header = [], rs_body = bytes_reader ''hi''\<rparr>"
proof -
  obtain cw' w' where r: "answer_redirect sample_packages node_server direct_renv direct_cluster direct_rule ''k''
      (cw_wrap (fresh_writer None)) disk_world = Some (Code 307 ''redirected with a direct connect hint'', cw', w')"
    using direct_redirect by blast
  from direct_connect_end_to_end [OF sample_packages_laws(1) direct_facts(1,2) r direct_facts(1) refl direct_facts(4,5,3)] r
  show ?thesis by fast
qed

end
