(* ===== verification/Health.thy ===== *)
theory Health
  imports DirectLink "HOL-Library.Multiset"
begin

text \<open>
  Health checks between the nodes of a cluster, \<^verbatim>\<open>cluster_health.go\<close>: one goroutine per node asks for \<^verbatim>\<open>/health\<close> and
  sends its result on a buffered channel; the callback waits for all of them and reports one observation per
  result. The goroutines run in any order, given by a schedule.
\<close>

section \<open>The check of one node\<close>

definition health_warning :: "string \<Rightarrow> string \<Rightarrow> log_level \<times> string" where
  "health_warning node what = (Warnf, ''failed to perform health check of the cluster node '' @ node @ '': '' @ what)"

text \<open>The verdict, the warnings logged and the state of the network after the check.\<close>

definition cluster_node_is_healthy ::
    "('e, 's, 'n) server \<Rightarrow> 'e \<Rightarrow> string \<Rightarrow> 'n \<Rightarrow> bool \<times> (log_level \<times> string) list \<times> 'n" where
  "cluster_node_is_healthy sv e node n =
     (case http_new_request ''GET'' (url_string (key_url ''http'' node ''/health'' [])) (bytes_reader []) of
        Inl err \<Rightarrow> (False, [health_warning node ''failed to create HTTP request''], n)
      | Inr req \<Rightarrow>
          (case sv_internal sv e req n of
             (Inl err, _, n') \<Rightarrow> (False, [health_warning node ''failed to perform HTTP request''], n')
           | (Inr resp, _, n') \<Rightarrow>
               (if rs_status resp \<noteq> 200 then (False, [health_warning node ''expected HTTP 200''], n')
                else (True, [], n'))))"

section \<open>The callback\<close>

text \<open>
  A goroutine first performs its check, then sends the result and is done. The channel holds a result for
  every node, so that sending never blocks.
\<close>

datatype check_phase = Started | Checked bool | Sent

record 'n health_state =
  hs_phases :: "check_phase list"
  hs_results :: "(string \<times> bool) list"
  hs_log :: "(log_level \<times> string) list"
  hs_net :: 'n

definition health_start :: "string list \<Rightarrow> 'n \<Rightarrow> 'n health_state" where
  "health_start nodes n = \<lparr>hs_phases = map (\<lambda>_. Started) nodes, hs_results = [], hs_log = [], hs_net = n\<rparr>"

text \<open>One step of the goroutine of the \<open>i\<close>-th node; \<open>es ! i\<close> is what its request meets.\<close>

definition health_step ::
    "('e, 's, 'n) server \<Rightarrow> 'e list \<Rightarrow> string list \<Rightarrow> nat \<Rightarrow> 'n health_state \<Rightarrow> 'n health_state" where
  "health_step sv es nodes i st =
     (if i < length nodes then
        (case hs_phases st ! i of
           Started \<Rightarrow>
             (case cluster_node_is_healthy sv (es ! i) (nodes ! i) (hs_net st) of
                (b, ws, n) \<Rightarrow> st\<lparr>hs_phases := (hs_phases st)[i := Checked b], hs_log := ws @ hs_log st, hs_net := n\<rparr>)
         | Checked b \<Rightarrow> st\<lparr>hs_phases := (hs_phases st)[i := Sent], hs_results := hs_results st @ [(nodes ! i, b)]\<rparr>
         | Sent \<Rightarrow> st)
      else st)"

text \<open>What the callback observes: the attributes \<^verbatim>\<open>node\<close> and \<^verbatim>\<open>status\<close>, each with the value 1.\<close>

definition observation :: "string \<times> bool \<Rightarrow> string \<times> string" where
  "observation = (\<lambda>(node, b). (node, if b then ''healthy'' else ''unhealthy''))"

text \<open>
  \<open>None\<close> stands for a schedule after which the callback still waits. The callback is registered for servers with
  a cluster only.
\<close>

definition cluster_health_callback ::
    "('e, 's, 'n) server \<Rightarrow> cluster \<Rightarrow> 'e list \<Rightarrow> nat list \<Rightarrow> 'n \<Rightarrow>
     ((string \<times> string) list \<times> (log_level \<times> string) list \<times> 'n) option" where
  "cluster_health_callback sv c es schedule n =
     (let nodes = cl_nodes c;
          st = fold (health_step sv es nodes) schedule (health_start nodes n)
      in if list_all (\<lambda>p. p = Sent) (hs_phases st)
         then Some (map observation (hs_results st), hs_log st, hs_net st) else None)"

section \<open>Every schedule\<close>

text \<open>The result a goroutine has got so far.\<close>

fun phase_result :: "check_phase \<Rightarrow> bool option" where
  "phase_result (Checked b) = Some b"
| "phase_result _ = None"

fun phase_steps :: "check_phase \<Rightarrow> nat" where
  "phase_steps Started = 0"
| "phase_steps (Checked _) = 1"
| "phase_steps Sent = 2"

text \<open>
  The invariant, for verdicts \<open>v\<close> that do not depend on the schedule: results are those of the goroutines that
  have sent theirs.
\<close>

definition health_inv :: "(nat \<Rightarrow> bool) \<Rightarrow> string list \<Rightarrow> 'n health_state \<Rightarrow> bool" where
  "health_inv v nodes st \<longleftrightarrow> length (hs_phases st) = length nodes \<and>
     (\<forall>i<length nodes. \<forall>b. hs_phases st ! i = Checked b \<longrightarrow> b = v i) \<and>
     mset (hs_results st) = {# (nodes ! i, v i). i \<in># mset_set {i. i < length nodes \<and> hs_phases st ! i = Sent} #}"

lemma health_start_inv: "health_inv v nodes (health_start nodes n)"
proof -
  have "{i. i < length nodes \<and> map (\<lambda>_. Started) nodes ! i = Sent} = {}" by auto
  then have "mset_set {i. i < length nodes \<and> map (\<lambda>_. Started) nodes ! i = Sent} = {#}" by (simp only: mset_set.empty)
  then show ?thesis by (simp add: health_inv_def health_start_def)
qed

lemma health_step_inv:
  assumes "health_inv v nodes st"
    and "\<And>n. fst (cluster_node_is_healthy sv (es ! i) (nodes ! i) n) = v i"
  shows "health_inv v nodes (health_step sv es nodes i st)"
proof (cases "i < length nodes")
  case i: True
  have len: "length (hs_phases st) = length nodes" using assms(1) by (simp add: health_inv_def)
  show ?thesis
  proof (cases "hs_phases st ! i")
    case Started
    obtain ws n where "cluster_node_is_healthy sv (es ! i) (nodes ! i) (hs_net st) = (v i, ws, n)"
      using assms(2) [of "hs_net st"] by (cases "cluster_node_is_healthy sv (es ! i) (nodes ! i) (hs_net st)") simp
    moreover have "{j. j < length nodes \<and> (hs_phases st)[i := Checked (v i)] ! j = Sent} =
        {j. j < length nodes \<and> hs_phases st ! j = Sent}"
      using Started len i by (auto simp: nth_list_update)
    ultimately show ?thesis
      using assms(1) Started i by (auto simp: health_step_def health_inv_def nth_list_update)
  next
    case (Checked b)
    then have b: "b = v i" using assms(1) i by (auto simp: health_inv_def)
    let ?sent = "{j. j < length nodes \<and> hs_phases st ! j = Sent}"
    have "{j. j < length nodes \<and> (hs_phases st)[i := Sent] ! j = Sent} = insert i ?sent"
      using i len by (auto simp: nth_list_update)
    moreover have "i \<notin> ?sent" "finite ?sent" using Checked by simp_all
    moreover have "\<forall>j<length nodes. \<forall>b. (hs_phases st)[i := Sent] ! j = Checked b \<longrightarrow> b = v j"
      using assms(1) i len by (simp add: health_inv_def nth_list_update)
    moreover have "mset (hs_results st @ [(nodes ! i, v i)]) = {# (nodes ! j, v j). j \<in># add_mset i (mset_set ?sent) #}"
      using assms(1) by (simp add: health_inv_def)
    ultimately show ?thesis
      using Checked i len b by (simp add: health_step_def health_inv_def)
  next
    case Sent
    then show ?thesis using assms(1) by (simp add: health_step_def)
  qed
qed (use assms in \<open>simp add: health_step_def\<close>)

lemma health_fold_inv:
  assumes "\<And>i n. i < length nodes \<Longrightarrow> fst (cluster_node_is_healthy sv (es ! i) (nodes ! i) n) = v i"
  shows "health_inv v nodes st \<Longrightarrow> health_inv v nodes (fold (health_step sv es nodes) schedule st)"
proof (induction schedule arbitrary: st)
  case (Cons i schedule)
  have "health_inv v nodes (health_step sv es nodes i st)"
  proof (cases "i < length nodes")
    case True
    show ?thesis by (rule health_step_inv [OF Cons.prems]) (rule assms [OF True])
  qed (use Cons.prems in \<open>simp add: health_step_def\<close>)
  then show ?case using Cons.IH by simp
qed simp

text \<open>Every step of a goroutine brings it closer to its end, and no other goroutine is touched.\<close>

lemma health_step_phases:
  assumes "length (hs_phases st) = length nodes"
  shows "length (hs_phases (health_step sv es nodes i st)) = length nodes"
    and "j < length nodes \<Longrightarrow> phase_steps (hs_phases (health_step sv es nodes i st) ! j) =
      (if i = j then min 2 (phase_steps (hs_phases st ! j) + 1) else phase_steps (hs_phases st ! j))"
  using assms by (auto simp: health_step_def nth_list_update split: check_phase.splits prod.splits)

lemma health_fold_phases:
  assumes "length (hs_phases st) = length nodes"
  shows "length (hs_phases (fold (health_step sv es nodes) schedule st)) = length nodes \<and>
    (\<forall>j<length nodes. phase_steps (hs_phases (fold (health_step sv es nodes) schedule st) ! j) =
      min 2 (phase_steps (hs_phases st ! j) + count_list schedule j))"
  using assms
proof (induction schedule arbitrary: st)
  case Nil
  have "phase_steps p \<le> 2" for p by (cases p) simp_all
  with Nil show ?case by (simp add: min_absorb2)
next
  case (Cons i schedule)
  note step = health_step_phases [OF Cons.prems, where sv = sv and es = es and i = i]
  from Cons.IH [OF step(1)] step(2) show ?case by auto
qed

lemma health_callback_returns:
  "cluster_health_callback sv c es schedule n \<noteq> None \<longleftrightarrow> (\<forall>i<length (cl_nodes c). 2 \<le> count_list schedule i)"
proof -
  define nodes where "nodes = cl_nodes c"
  let ?st = "fold (health_step sv es nodes) schedule (health_start nodes n)"
  have ph: "phase_steps (hs_phases ?st ! j) = min 2 (count_list schedule j)" if "j < length nodes" for j
    using health_fold_phases [of "health_start nodes n" nodes, where sv = sv and es = es] that by (simp add: health_start_def)
  have len: "length (hs_phases ?st) = length nodes"
    using health_fold_phases [of "health_start nodes n" nodes, where sv = sv and es = es] by (simp add: health_start_def)
  have "p = Sent \<longleftrightarrow> phase_steps p = 2" for p by (cases p) simp_all
  then have "list_all (\<lambda>p. p = Sent) (hs_phases ?st) \<longleftrightarrow> (\<forall>i<length nodes. 2 \<le> count_list schedule i)"
    using ph by (auto simp: list_all_length len)
  then show ?thesis by (simp add: cluster_health_callback_def Let_def nodes_def del: not_None_eq)
qed

lemma health_observations:
  assumes "\<And>i n. i < length nodes \<Longrightarrow> fst (cluster_node_is_healthy sv (es ! i) (nodes ! i) n) = v i"
    and "cluster_health_callback sv c es schedule n = Some (obs, log, n')" and "cl_nodes c = nodes"
  shows "mset obs = mset (map (\<lambda>i. observation (nodes ! i, v i)) [0..<length nodes])"
proof -
  let ?st = "fold (health_step sv es nodes) schedule (health_start nodes n)"
  from assms(2,3) have all: "list_all (\<lambda>p. p = Sent) (hs_phases ?st)" and obs: "obs = map observation (hs_results ?st)"
    by (auto simp: cluster_health_callback_def Let_def split: if_splits)
  have inv: "health_inv v nodes ?st" by (rule health_fold_inv) (simp_all add: assms(1) health_start_inv)
  with all have "{i. i < length nodes \<and> hs_phases ?st ! i = Sent} = {0..<length nodes}"
    by (auto simp: health_inv_def list_all_length)
  with inv have "mset (hs_results ?st) = {# (nodes ! i, v i). i \<in># mset_set {0..<length nodes} #}"
    by (simp add: health_inv_def)
  then show ?thesis
    by (simp add: obs multiset.map_comp o_def flip: mset_upt)
qed

section \<open>Checks between the servers of the model\<close>

text \<open>
  A network of nodes: each address has a server, given by its configuration, and a world; a request goes to
  the node its host names.
\<close>

definition cluster_client ::
    "packages \<Rightarrow> (string \<Rightarrow> (os_env, fs, 'n) server) \<Rightarrow> (os_env link_env, string \<Rightarrow> (fs, 'n) world) http_client" where
  "cluster_client pk at e rq net =
     (case node_client pk (at (rq_host rq)) e rq (net (rq_host rq)) of
        (r, c, w) \<Rightarrow> (r, c, net(rq_host rq := w)))"

lemma serve_health:
  assumes "rq_method rq = ''GET''" and "rq_host rq = addr_string a" and "u_path (rq_url rq) = ''/health''"
  shows "\<exists>w'. serve_http pk env cenv (peer_server d a sv) rq (fresh_writer None) w =
    Some (cw_write_header 200 (cw_wrap (fresh_writer None)), w', [])"
  using assms by (simp add: serve_http_def dispatch_def finish_request_def respond_def Let_def)

lemma health_verdict:
  assumes "sv_internal me = cluster_client pk at" and "at (addr_string a) = peer_server d a sv"
  shows "fst (cluster_node_is_healthy me e (addr_string a) net) \<longleftrightarrow> le_dial e = None \<and> le_reply e = None"
proof -
  let ?rq = "\<lparr>rq_method = ''GET'', rq_host = addr_string a, rq_tls = False,
    rq_url = key_url ''http'' (addr_string a) ''/health'' [], rq_header = [], rq_body = bytes_reader []\<rparr>"
  have rq: "http_new_request ''GET'' (url_string (key_url ''http'' (addr_string a) ''/health'' [])) (bytes_reader []) = Inr ?rq"
    using parse_node_url [OF host_port_addr plain_paths(2), of "[]" a]
    by (simp add: http_new_request_def key_url_def empty_url_def parse_host_port(2) Let_def)
  obtain w' where "serve_http pk (le_node e) no_connect_errors (peer_server d a sv) (wire_request ?rq) (writer_for (wire_request ?rq) None)
      (net (addr_string a)) = Some (cw_write_header 200 (cw_wrap (fresh_writer None)), w', [])"
    using serve_health [of "wire_request ?rq" a] by (fastforce simp: writer_for_fresh wire_request_def key_url_def)
  then show ?thesis
    by (cases "le_dial e"; cases "le_reply e")
      (simp_all add: cluster_node_is_healthy_def rq assms cluster_client_def node_client_def Let_def wire_response_code)
qed

text \<open>
  C35. The health metric is accurate. Whatever the order in which the goroutines run, the callback returns as
  soon as each of them has had its two turns, and not before; it then reports exactly one observation for
  every node of the cluster, \<^verbatim>\<open>healthy\<close> when the node could be reached and its answer arrived and \<^verbatim>\<open>unhealthy\<close> when
  not: a node that answers at all answers \<^verbatim>\<open>/health\<close> with 200.
\<close>

theorem health_accurate:
  assumes "sv_internal me = cluster_client pk at" and "cl_nodes c = map addr_string nodes"
    and "\<And>a. a \<in> set nodes \<Longrightarrow> at (addr_string a) = peer_server d a (conf a)"
    and "\<And>i. i < length nodes \<Longrightarrow> 2 \<le> count_list schedule i"
  shows "\<exists>obs log net'. cluster_health_callback me c es schedule net = Some (obs, log, net') \<and>
    mset obs = mset (map (\<lambda>i. (addr_string (nodes ! i), if le_dial (es ! i) = None \<and> le_reply (es ! i) = None then ''healthy'' else ''unhealthy''))
      [0..<length nodes])"
proof -
  have "cluster_health_callback me c es schedule net \<noteq> None"
    unfolding health_callback_returns using assms(2,4) by simp
  then obtain obs log net' where cb: "cluster_health_callback me c es schedule net = Some (obs, log, net')"
    by (metis not_None_eq prod_cases3)
  have "mset obs = mset (map (\<lambda>i. observation (map addr_string nodes ! i, le_dial (es ! i) = None \<and> le_reply (es ! i) = None)) [0..<length (map addr_string nodes)])"
    by (rule health_observations [OF _ cb assms(2)]) (simp add: health_verdict [OF assms(1,3)])
  moreover have "map (\<lambda>i. observation (map addr_string nodes ! i, le_dial (es ! i) = None \<and> le_reply (es ! i) = None)) [0..<length (map addr_string nodes)] =
      map (\<lambda>i. (addr_string (nodes ! i), if le_dial (es ! i) = None \<and> le_reply (es ! i) = None then ''healthy'' else ''unhealthy'')) [0..<length nodes]"
    by (simp add: observation_def)
  ultimately show ?thesis using cb by metis
qed

definition health_checker :: "(os_env link_env, fs, string \<Rightarrow> (fs, unit) world) server" where
  "health_checker =
     \<lparr>sv_listener = ''10.0.0.3:8080'',
      sv_internal = cluster_client sample_packages (\<lambda>n. peer_server sample_disk (Addr n) node_server),
      sv_external = (\<lambda>e rq n. (Inl ErrEOF, 0, n)), sv_disk = noop_ops, sv_tls = None, sv_rules = [], sv_cluster = None\<rparr>"

definition other_addr :: node_addr where
  "other_addr = Addr ''10.0.0.2:8080''"

lemma sample_addrs: "addr_string sample_addr = ''10.0.0.1:8080''" "addr_string other_addr = ''10.0.0.2:8080''"
proof -
  have "host_port ''10.0.0.1:8080''" "host_port ''10.0.0.2:8080''" by code_simp+
  then show "addr_string sample_addr = ''10.0.0.1:8080''" "addr_string other_addr = ''10.0.0.2:8080''"
    by (simp_all add: sample_addr_def other_addr_def Addr_inverse)
qed

theorem health_accurate_witness:
  "\<exists>obs log net'. cluster_health_callback health_checker
      (cluster_new ''s'' ''10.0.0.3:8080'' (map addr_string [sample_addr, other_addr]))
      [quiet_link 0 [] 0, (quiet_link 0 [] 0)\<lparr>le_dial := Some ErrEOF\<rparr>] [1, 0, 0, 1] (\<lambda>_. direct_node) = Some (obs, log, net') \<and>
    mset obs = {#(''10.0.0.1:8080'', ''healthy''), (''10.0.0.2:8080'', ''unhealthy'')#}"
proof -
  let ?c = "cluster_new ''s'' ''10.0.0.3:8080'' (map addr_string [sample_addr, other_addr])"
  have c: "cl_nodes ?c = map addr_string [sample_addr, other_addr]" by (simp add: cluster_new_def sample_addrs)
  have sched: "2 \<le> count_list [1, 0, 0, 1] i" if "i < length [sample_addr, other_addr]" for i :: nat
    using that by (auto simp: less_Suc_eq)
  have at: "peer_server sample_disk (Addr (addr_string a)) node_server = peer_server sample_disk a node_server" for a
    by (simp add: addr_string_inverse)
  have cl: "sv_internal health_checker = cluster_client sample_packages (\<lambda>n. peer_server sample_disk (Addr n) node_server)"
    by (simp add: health_checker_def)
  from health_accurate [OF cl c at sched, of "[quiet_link 0 [] 0, (quiet_link 0 [] 0)\<lparr>le_dial := Some ErrEOF\<rparr>]" "\<lambda>_. direct_node"]
  show ?thesis by (simp add: upt_rec sample_addrs)
qed

end
