(* ===== verification/ClusterProxy.thy ===== *)
theory ClusterProxy
  imports Health
begin

text \<open>
  A whole cluster: the proxy of one node in front of the disk of another. Every node runs the server of the model
  with its own disk; a member forwards requests to an origin and keeps the answers at the node that owns their key, through
  the cluster protocol.
\<close>

section \<open>Members of a cluster\<close>

text \<open>
  The network of a member: the worlds of all nodes by their address, and the state of the origins. The internal
  client of a member reaches the nodes, the external one the origins.
\<close>

type_synonym ('m, 'o) cluster_net = "(string \<Rightarrow> (fs, 'm) world) \<times> 'o"

definition nodes_at :: "(string \<Rightarrow> disk) \<Rightarrow> (string \<Rightarrow> (os_env, fs, 'm) server) \<Rightarrow> string \<Rightarrow> (os_env, fs, 'm) server" where
  "nodes_at ds conf h = peer_server (ds h) (Addr h) (conf h)"

definition internal_client ::
    "packages \<Rightarrow> (string \<Rightarrow> (os_env, fs, 'm) server) \<Rightarrow> (os_env link_env, ('m, 'o) cluster_net) http_client" where
  "internal_client pk at e rq n = (case cluster_client pk at e rq (fst n) of (r, c, net) \<Rightarrow> (r, c, (net, snd n)))"

definition external_client ::
    "(os_env link_env, 'o) http_client \<Rightarrow> (os_env link_env, ('m, 'o) cluster_net) http_client" where
  "external_client origin e rq n = (case origin e rq (snd n) of (r, c, os) \<Rightarrow> (r, c, (fst n, os)))"

definition member ::
    "packages \<Rightarrow> (string \<Rightarrow> (os_env, fs, 'm) server) \<Rightarrow> (os_env link_env, 'o) http_client \<Rightarrow> cluster \<Rightarrow>
     (os_env link_env, 's, ('m, 'o) cluster_net) server \<Rightarrow> (os_env link_env, 's, ('m, 'o) cluster_net) server" where
  "member pk at origin c sv =
     sv\<lparr>sv_internal := internal_client pk at, sv_external := external_client origin, sv_cluster := Some c\<rparr>"

text \<open>The client of the owner that a member makes for a request.\<close>

definition owner_kv ::
    "packages \<Rightarrow> (string \<Rightarrow> (os_env, fs, 'm) server) \<Rightarrow> cluster \<Rightarrow> node_addr \<Rightarrow> (os_env link_env, ('m, 'o) cluster_net) kv" where
  "owner_kv pk at c a = kv_new (internal_client pk at) (addr_string a) (cl_secret c) [WithHTTPClient (internal_client pk at)]"

definition owner_disk :: "node_addr \<Rightarrow> ('s, ('m, 'o) cluster_net) world \<Rightarrow> fs" where
  "owner_disk a w = w_disk (fst (w_net w) (addr_string a))"

text \<open>The request of a client does not name a node of the cluster as its host.\<close>

definition outside :: "cluster \<Rightarrow> request \<Rightarrow> bool" where
  "outside c request \<longleftrightarrow> (\<forall>m urq. upstream_request request m urq \<longrightarrow> \<not> contains_node c (u_host (rq_url urq)))"

lemma member_simps [simp]:
  "sv_cluster (member pk at origin c sv) = Some c" "sv_disk (member pk at origin c sv) = sv_disk sv"
  "sv_internal (member pk at origin c sv) = internal_client pk at" "sv_rules (member pk at origin c sv) = sv_rules sv"
  "sv_external (member pk at origin c sv) = external_client origin"
  by (simp_all add: member_def)

lemma proxy_key_member [simp]:
  "proxy_key (member pk at origin c sv) request = proxy_key sv request"
  "proxy_rule (member pk at origin c sv) request = proxy_rule sv request"
  by (simp_all add: proxy_key_def proxy_rule_def)

lemma choose_owner:
  assumes "target_node (pk_hrw pk) c key = Some (addr_string a)" and "addr_string a \<noteq> cl_addr c"
  shows "choose_cache pk (member pk at origin c sv) key = Some (Some (owner_kv pk at c a))"
  using assms by (simp add: choose_cache_def owner_kv_def)

section \<open>The owner behind a member\<close>

text \<open>A request of the cluster protocol changes the owner's world only, and as the client of the owner alone does.\<close>

lemma nodes_at_addr [simp]: "nodes_at ds conf (addr_string a) = peer_server (ds (addr_string a)) a (conf (addr_string a))"
  by (simp add: nodes_at_def addr_string_inverse)

abbreviation owner_peer where
  "owner_peer pk ds conf c a \<equiv> peer pk (ds (addr_string a)) a (cl_secret c) (conf (addr_string a))"

lemma owner_kv_simps:
  "kv_url (owner_kv pk at c a) = ''http://'' @ addr_string a"
  "kv_do (owner_kv pk at c a) = internal_client pk at"
  "SetKey (kv_authorize (owner_kv pk at c a) []) key = peer_header (cl_secret c) key"
  by (auto simp: kv_url_def kv_do_def owner_kv_def kv_new_client kv_authorize_def peer_header_def fun_eq_iff)

lemma owner_get:
  "kv_get (owner_kv pk (nodes_at ds conf) c a) e n key =
     (case kv_get (owner_peer pk ds conf c a) e (fst n (addr_string a)) key of
        (r, w) \<Rightarrow> (r, ((fst n)(addr_string a := w), snd n)))"
  by (auto simp: kv_get_def owner_kv_simps peer_simps new_request_peer internal_client_def cluster_client_def
      split: prod.splits sum.splits if_splits)

lemma owner_put:
  "kv_put (owner_kv pk (nodes_at ds conf) c a) e n key m b =
     (case kv_put (owner_peer pk ds conf c a) e (fst n (addr_string a)) key m b of
        (r, w) \<Rightarrow> (r, ((fst n)(addr_string a := w), snd n)))"
  by (auto simp: kv_put_def owner_kv_simps peer_simps new_request_peer internal_client_def cluster_client_def
      split: prod.splits sum.splits if_splits)

text \<open>
  The owner's disk is a cache behind the member's proxy, and nothing else changes: not the member's own disk,
  and no other node.
\<close>

definition owner_inv ::
    "node_addr \<Rightarrow> 's \<Rightarrow> (string \<Rightarrow> (fs, 'm) world) \<Rightarrow> ('s, ('m, 'o) cluster_net) world \<Rightarrow> bool" where
  "owner_inv a own others w \<longleftrightarrow> clean_disk (owner_disk a w) \<and> w_disk w = own \<and>
     (\<forall>h. h \<noteq> addr_string a \<longrightarrow> fst (w_net w) h = others h)"

interpretation op: proxied_cache "member pk (nodes_at ds conf) origin c sv" "Some (owner_kv pk (nodes_at ds conf) c a)" path_name
  "\<lambda>w. disk_stored (owner_disk a w)" "owner_inv a own others" node_reads for pk ds conf origin c sv a own others
proof unfold_locales
  let ?sv = "member pk (nodes_at ds conf) origin c sv" and ?ca = "Some (owner_kv pk (nodes_at ds conf) c a)"
  let ?k = "owner_peer pk ds conf c a" and ?ok = "owner_inv a own others"
  note ops = chosen_get_def chosen_put_def chosen_close_def owner_get owner_put owner_inv_def owner_disk_def
  show "?ok w \<Longrightarrow> chosen_get ?sv ?ca e w k = (r, w') \<Longrightarrow> ?ok w'" for w e k r w'
    by (auto simp: ops split: prod.splits dest: peer_get_laws(1))
  show "?ok w \<Longrightarrow> chosen_get ?sv ?ca e w k = (r, w') \<Longrightarrow> disk_stored (owner_disk a w') = disk_stored (owner_disk a w)" for w e k r w'
    by (auto simp: ops split: prod.splits dest: peer_get_laws(2))
  show "?ok w \<Longrightarrow> chosen_get ?sv ?ca e w k = (Inr (b, m), w') \<Longrightarrow>
      \<exists>d. disk_stored (owner_disk a w) (path_name k) = Some (m, d) \<and> prefix (rd_data b) d \<and> (node_reads e \<longrightarrow> reads b d)" for w e k b m w'
    by (auto simp: ops split: prod.splits dest: rc.get_sound)
  show "?ok w \<Longrightarrow> chosen_put ?sv ?ca e w k m b = (q, w') \<Longrightarrow> ?ok w'" for w e k m b q w'
    by (auto simp: ops split: prod.splits dest: rc.put_inv)
  show "?ok w \<Longrightarrow> chosen_put ?sv ?ca e w k m b = ((None, n), w') \<Longrightarrow> rd_err b = None \<and> n = length (rd_data b) \<and>
      disk_stored (owner_disk a w') \<subseteq>\<^sub>m (disk_stored (owner_disk a w))(path_name k \<mapsto> (coerce_metadata m, rd_data b))" for w e k m b n w'
    by (auto simp: ops split: prod.splits dest: rc.put_ok)
  show "?ok w \<Longrightarrow> chosen_put ?sv ?ca e w k m b = ((Some err, n), w') \<Longrightarrow>
      disk_stored (owner_disk a w') \<subseteq>\<^sub>m disk_stored (owner_disk a w) \<or> (rd_err b = None \<and>
        disk_stored (owner_disk a w') \<subseteq>\<^sub>m (disk_stored (owner_disk a w))(path_name k \<mapsto> (coerce_metadata m, rd_data b)))" for w e k m b err n w'
    by (auto simp: ops split: prod.splits dest: rc.put_failed)
qed (simp_all add: chosen_close_def owner_inv_def owner_disk_def count_cache_op_def)

lemma outside_frame:
  assumes "outside c request"
  shows "upstream_frame (member pk (nodes_at ds conf) origin c sv) (\<lambda>w. disk_stored (owner_disk a w)) (owner_inv a own others) env request"
  using assms
  by (auto simp: upstream_frame_def outside_def upstream_client_def external_client_def owner_inv_def owner_disk_def
      split: prod.splits)

text \<open>What a member makes of a request whose key another node owns.\<close>

lemma member_owner:
  assumes "target_node (pk_hrw pk) c (proxy_key sv request) = Some (addr_string a)" and "addr_string a \<noteq> cl_addr c"
  shows "choose_cache pk (member pk (nodes_at ds conf) origin c sv) (proxy_key (member pk (nodes_at ds conf) origin c sv) request) =
    Some (Some (owner_kv pk (nodes_at ds conf) c a))"
  using choose_owner [OF assms] by simp

text \<open>
  C8. A cluster caches faithfully. Let a member of a cluster handle a request whose key another node owns, with nodes
  unreachable, connections breaking, answers lost, secrets rejected and disks failing as they like. The member's own
  disk and the other nodes stay as they are; the owner may forget entries, and may store one, under the key of the
  request, and then the blob is the complete body and the metadata the ETag of an origin's answer with status
  200 to this very request that the caching policy allows to keep. Whatever body bytes the client was sent are a
  beginning of the body of the origin's answer, or, only if that answer was 304 to a request made with the metadata of
  the owner's entry, a beginning of the blob that the owner's disk held under the key.
\<close>

theorem cluster_proxy_faithful:
  assumes "target_node (pk_hrw pk) c (proxy_key sv request) = Some (addr_string a)" and "addr_string a \<noteq> cl_addr c"
    and "outside c request" and "clean_disk (owner_disk a w)"
    and "handle_proxy_default pk env (member pk (nodes_at ds conf) origin c sv) request cw w = Some (r, cw', w')"
    and "rw_body (cw_inner cw) = []"
  shows "w_disk w' = w_disk w \<and> (\<forall>h. h \<noteq> addr_string a \<longrightarrow> fst (w_net w') h = fst (w_net w) h) \<and>
    clean_disk (owner_disk a w') \<and> (disk_stored (owner_disk a w') \<subseteq>\<^sub>m disk_stored (owner_disk a w) \<or>
    (\<exists>m rs. upstream_answered (member pk (nodes_at ds conf) origin c sv) env request m rs \<and> rs_status rs = 200 \<and>
       should_cache (fix_url request) (clean_response rs) (proxy_rule sv request) \<and> rd_err (rs_body rs) = None \<and>
       disk_stored (owner_disk a w') \<subseteq>\<^sub>m (disk_stored (owner_disk a w))
         (path_name (proxy_key sv request) \<mapsto> (coerce_metadata (response_etag rs), rd_data (rs_body rs))))) \<and>
    (rw_body (cw_inner cw') = [] \<or>
     (\<exists>m rs. upstream_answered (member pk (nodes_at ds conf) origin c sv) env request m rs \<and>
       (prefix (rw_body (cw_inner cw')) (rd_data (rs_body rs)) \<or>
        (rs_status rs = 304 \<and> (\<exists>blob. disk_stored (owner_disk a w) (path_name (proxy_key sv request)) = Some (m, blob) \<and>
           prefix (rw_body (cw_inner cw')) blob)))))"
proof -
  have ok: "owner_inv a (w_disk w) (fst (w_net w)) w" using assms(4) by (simp add: owner_inv_def)
  note ca = member_owner [OF assms(1,2)]
  have body: "rw_body (cw_inner cw') = [] \<or>
     (\<exists>m rs. upstream_answered (member pk (nodes_at ds conf) origin c sv) env request m rs \<and>
       (prefix (rw_body (cw_inner cw')) (rd_data (rs_body rs)) \<or>
        (rs_status rs = 304 \<and> (\<exists>blob. disk_stored (owner_disk a w) (path_name (proxy_key sv request)) = Some (m, blob) \<and>
           prefix (rw_body (cw_inner cw')) blob))))"
    using op.proxy_body_stored [OF ok ca assms(5,6), unfolded proxy_key_member] by blast
  with op.proxy_cache_faithful [OF ok outside_frame [OF assms(3)] ca assms(5)] show ?thesis
    by (simp add: owner_inv_def)
qed

text \<open>
  What a member counts it has handed over. When it counts such a request as \<^verbatim>\<open>miss\<close>, \<^verbatim>\<open>hit\<close> or \<^verbatim>\<open>not-allowed\<close>, the server took
  the complete body for the client (of a \<^verbatim>\<open>HEAD\<close> request: nothing): for a hit what the owner sent of the blob that its
  disk held under the key (all of it when the owner could read its file), after the origin had answered 304 to a
  request made with that entry's metadata; otherwise the body of the origin's answer.
\<close>

theorem cluster_proxy_counted:
  assumes "target_node (pk_hrw pk) c (proxy_key sv request) = Some (addr_string a)" and "addr_string a \<noteq> cl_addr c"
    and "outside c request" and "clean_disk (owner_disk a w)"
    and "handle_proxy_default pk env (member pk (nodes_at ds conf) origin c sv) request cw w = Some (r, cw', w')"
    and "w_cache_ops w' = op # w_cache_ops w"
    and "rw_sent (cw_inner cw) = None" and "rw_body (cw_inner cw) = []"
  shows "\<exists>m rs. upstream_answered (member pk (nodes_at ds conf) origin c sv) env request m rs \<and>
    ((op = ''miss'' \<and> rs_status rs = 200 \<and> should_cache (fix_url request) (clean_response rs) (proxy_rule sv request) \<and>
        rd_err (rs_body rs) = None \<and> rw_body (cw_inner cw') = client_gets (cw_inner cw) (rd_data (rs_body rs))) \<or>
     (op = ''hit'' \<and> rs_status rs = 304 \<and> (\<exists>h. rw_sent (cw_inner cw') = Some (200, h)) \<and>
        (\<exists>b b'. disk_stored (owner_disk a w) (path_name (proxy_key sv request)) = Some (m, b) \<and> prefix b' b \<and>
           (node_reads (re_get env) \<longrightarrow> b' = b) \<and> rw_body (cw_inner cw') = client_gets (cw_inner cw) b')) \<or>
     (op = ''not-allowed'' \<and> rd_err (rs_body rs) = None \<and>
        rw_body (cw_inner cw') = client_gets (cw_inner cw) (rd_data (rs_body rs)) \<and>
        (\<exists>h. rw_sent (cw_inner cw') = Some (rs_status rs, h))))"
proof -
  have ok: "owner_inv a (w_disk w) (fst (w_net w)) w" using assms(4) by (simp add: owner_inv_def)
  from op.proxy_counted_complete [OF ok outside_frame [OF assms(3)] member_owner [OF assms(1,2)] assms(5-8)] show ?thesis
    by (simp only: proxy_key_member)
qed

section \<open>Fetched through one node, served by another\<close>

lemma peer_get_absent:
  assumes "sv_cluster sv = Some c" and "cl_secret c = secret" and "secret \<noteq> []" and "key \<noteq> []"
    and "map_of (fs_dir (w_disk w)) (path_name key) = None"
  shows "\<exists>w'. kv_get (peer pk d a secret sv) (quiet_link now tmp ahead) w key = (Inl ErrNotFound, w') \<and> w_disk w' = w_disk w"
proof -
  let ?rq = "kv_request ''GET'' a (peer_header secret key) (bytes_reader [])"
  have "perform_cluster_auth (peer_server d a sv) ?rq = None" using assms(1-3) by (simp add: perform_cluster_auth_def)
  then have h: "handle_cluster_get (le_node (quiet_link now tmp ahead)) (peer_server d a sv) ?rq (cw_wrap (fresh_writer None)) w =
      (Code 404 ''no cache entry found'', cw_wrap (fresh_writer None), w)"
    using disk_get_absent [OF assms(5)] assms(4) by (simp add: handle_cluster_get_def disk_ops_def not_found_or_error_def)
  show ?thesis
    using kv_get_peer [OF _ h, of pk] by (simp add: got_def respond_def wire_response_code)
qed

definition quiet_member :: "int \<Rightarrow> string \<Rightarrow> os_env link_env request_env" where
  "quiet_member now tmp =
     \<lparr>re_get = quiet_link now tmp 0, re_upstream = quiet_link now tmp 0, re_put = quiet_link now tmp 0,
      re_close = quiet_link now tmp 0, re_now = now\<rparr>"

lemma quiet_member_simps [simp]:
  "re_get (quiet_member now tmp) = quiet_link now tmp 0" "re_put (quiet_member now tmp) = quiet_link now tmp 0"
  by (simp_all add: quiet_member_def)

lemma member_upstream:
  assumes "\<not> contains_node c (u_host (rq_url urq))" and "origin e urq (snd n) = (r, k, os)"
  shows "upstream_client (member pk at origin c sv) urq e urq n = (r, k, (fst n, os))"
  using assms by (simp add: upstream_client_def external_client_def)

lemma cluster_roundtrip:
  assumes owner: "target_node (pk_hrw pk) c1 key = Some (addr_string a)" "addr_string a \<noteq> cl_addr c1"
      "target_node (pk_hrw pk) c2 key = Some (addr_string a)" "addr_string a \<noteq> cl_addr c2"
    and secret: "sv_cluster (conf (addr_string a)) = Some c" "cl_secret c1 = cl_secret c" "cl_secret c2 = cl_secret c" "cl_secret c \<noteq> []"
    and rq1: "rq_host rq1 \<noteq> []" "proxy_key sv1 rq1 = key" and rq2: "rq_host rq2 \<noteq> []" "proxy_key sv2 rq2 = key"
    and disk: "disk_inv (owner_disk a w)" "map_of (fs_dir (owner_disk a w)) (path_name key) = None"
      "map_of (fs_tmp (owner_disk a w)) tmp = None"
    and fits: "content_size (entry_archive key (coerce_metadata (response_etag rs)) (rd_data (rs_body rs))) \<le>
      unat (d_limit (ds (addr_string a)))"
    and first: "upstream_request rq1 no_metadata urq1" "\<not> contains_node c1 (u_host (rq_url urq1))"
      "origin (re_upstream (quiet_member now tmp)) urq1 (snd (w_net w)) = (Inr rs, k, os)" "rs_status rs = 200"
      "should_cache (fix_url rq1) (clean_response rs) (proxy_rule sv1 rq1)" "rd_err (rs_body rs) = None"
      "announced rs \<in> {None, Some (length (rd_data (rs_body rs)))}"
    and second: "upstream_request rq2 (coerce_metadata (response_etag rs)) urq2" "\<not> contains_node c2 (u_host (rq_url urq2))"
      "origin (re_upstream (quiet_member now' tmp')) urq2 os = (Inr rs', k', os')" "rs_status rs' = 304"
      "\<forall>ru. proxy_rule sv2 rq2 = Some ru \<longrightarrow> \<not> directConnect ru"
      "announced rs' \<in> {None, Some (length (rd_data (rs_body rs)))}" "rq_method rq2 \<noteq> ''HEAD''"
  shows "\<exists>r1 cw1 w1.
    handle_proxy_default pk (quiet_member now tmp) (member pk (nodes_at ds conf) origin c1 sv1) rq1 (cw_wrap (writer_for rq1 None)) w =
      Some (r1, cw1, w1) \<and> rw_body (cw_inner cw1) = rd_data (rs_body rs) \<and> w_cache_ops w1 = ''miss'' # w_cache_ops w \<and>
    (\<forall>v. w_net v = w_net w1 \<longrightarrow> (\<exists>r2 cw2 v' h.
       handle_proxy_default pk (quiet_member now' tmp') (member pk (nodes_at ds conf) origin c2 sv2) rq2 (cw_wrap (writer_for rq2 None)) v =
         Some (r2, cw2, v') \<and> rw_body (cw_inner cw2) = rd_data (rs_body rs) \<and> rw_sent (cw_inner cw2) = Some (200, h) \<and>
       w_cache_ops v' = ''hit'' # w_cache_ops v))"
proof -
  let ?b = "rd_data (rs_body rs)" and ?m = "response_etag rs" and ?a = "addr_string a"
  let ?sv1 = "member pk (nodes_at ds conf) origin c1 sv1" and ?sv2 = "member pk (nodes_at ds conf) origin c2 sv2"
  let ?k1 = "Some (owner_kv pk (nodes_at ds conf) c1 a)" and ?k2 = "Some (owner_kv pk (nodes_at ds conf) c2 a)"
  let ?cw1 = "cw_wrap (writer_for rq1 None)" and ?cw2 = "cw_wrap (writer_for rq2 None)" and ?peer = "peer pk (ds ?a) a (cl_secret c) (conf ?a)"
  have key: "key \<noteq> []" using proxy_key_nonempty [OF rq1(1)] rq1(2) by blast
  have disk': "disk_inv (w_disk (fst (w_net w) ?a))" "map_of (fs_tmp (w_disk (fst (w_net w) ?a))) tmp = None"
    "map_of (fs_dir (w_disk (fst (w_net w) ?a))) (path_name key) = None"
    using disk by (simp_all add: owner_disk_def)
  obtain u1 where get1: "kv_get ?peer (quiet_link now tmp 0) (fst (w_net w) ?a) key = (Inl ErrNotFound, u1)"
    and u1: "w_disk u1 = w_disk (fst (w_net w) ?a)"
    using peer_get_absent [OF secret(1) refl secret(4) key disk'(3)] by blast
  obtain u2 u3 where put: "kv_put ?peer (quiet_link now tmp 0) u1 key ?m (bytes_reader ?b) = ((None, length ?b), u2)"
    and get2: "kv_get ?peer (quiet_link now' tmp' 0) u2 key = (Inr (bytes_reader ?b, coerce_metadata ?m), u3)"
    using peer_roundtrip [OF secret(1) refl secret(4) key _ _ fits, of u1 tmp] disk'(1,2) u1 by metis
  let ?w1 = "w\<lparr>w_net := ((fst (w_net w))(?a := u1), snd (w_net w))\<rparr>"
  let ?n = "((fst (w_net w))(?a := u1), os)" and ?n2 = "((fst (w_net w))(?a := u2), os)"
  let ?w2 = "w\<lparr>w_net := ?n2\<rparr>"
  have g1: "chosen_get ?sv1 ?k1 (re_get (quiet_member now tmp)) w key = (Inl ErrNotFound, ?w1)"
    by (simp add: chosen_get_def owner_get secret get1)
  have p1: "chosen_put ?sv1 ?k1 (re_put (quiet_member now tmp)) (?w1\<lparr>w_net := ?n\<rparr>) key ?m (rs_body rs) = ((None, length ?b), ?w2)"
    using put by (simp add: chosen_put_def owner_put secret reader_eq [OF first(6)])
  have c1: "choose_cache pk ?sv1 (proxy_key ?sv1 rq1) = Some ?k1" using choose_owner [OF owner(1,2)] rq1(2) by simp
  have f1: "upstream_client ?sv1 urq1 (re_upstream (quiet_member now tmp)) urq1 (w_net ?w1) = (Inr rs, k, ?n)"
    using member_upstream [OF first(2), of origin _ "w_net ?w1"] first(3) by simp
  obtain cw1 where h1: "handle_proxy_default pk (quiet_member now tmp) ?sv1 rq1 ?cw1 w =
      Some (Empty ''fetched from the upstream, cache entry is outdated'', cw1, count_cache_op ''miss'' ?w2)"
    "rw_body (cw_inner cw1) = ?b"
    using proxy_miss [OF rq1(1) c1 _ first(1) f1 first(4), where cw = ?cw1 and w = w and ?w2.0 = ?w2] g1 p1 rq1(2) first(5,6) answered_room [OF first(7)]
      should_cache_get [OF first(5)] by (auto simp: client_gets_def)
  have c2: "choose_cache pk ?sv2 (proxy_key ?sv2 rq2) = Some ?k2" using choose_owner [OF owner(3,4)] rq2(2) by simp
  have hit: "\<exists>r2 cw2 v' h. handle_proxy_default pk (quiet_member now' tmp') ?sv2 rq2 ?cw2 v = Some (r2, cw2, v') \<and>
      rw_body (cw_inner cw2) = ?b \<and> rw_sent (cw_inner cw2) = Some (200, h) \<and> w_cache_ops v' = ''hit'' # w_cache_ops v"
    if v: "w_net v = ?n2" for v
  proof -
    let ?v1 = "v\<lparr>w_net := ((fst (w_net w))(?a := u3), os)\<rparr>"
    have g2: "chosen_get ?sv2 ?k2 (re_get (quiet_member now' tmp')) v key = (Inr (bytes_reader ?b, coerce_metadata ?m), ?v1)"
      by (simp add: chosen_get_def owner_get secret v get2)
    have f2: "upstream_client ?sv2 urq2 (re_upstream (quiet_member now' tmp')) urq2 (w_net ?v1) =
        (Inr rs', k', (fst (w_net ?v1), os'))"
      using member_upstream [OF second(2), of origin _ "w_net ?v1"] second(3) by simp
    from proxy_hit [OF rq2(1) c2 _ second(1) f2 second(4), where cw = ?cw2 and w = v and reader = "bytes_reader ?b"] g2 rq2(2)
      second(5,7) answered_room [OF second(6)] obtain cw2 h where
      "handle_proxy_default pk (quiet_member now' tmp') ?sv2 rq2 ?cw2 v = Some (Empty ''retrieved from the cache'', cw2,
         chosen_close ?sv2 ?k2 (re_close (quiet_member now' tmp')) (count_cache_op ''hit'' (?v1\<lparr>w_net := (fst (w_net ?v1), os')\<rparr>)))"
      "rw_body (cw_inner cw2) = ?b" "rw_sent (cw_inner cw2) = Some (200, h)"
      by (auto simp: client_gets_def)
    then show ?thesis by (simp add: chosen_close_def count_cache_op_def)
  qed
  show ?thesis using h1 hit by (simp add: count_cache_op_def)
qed

text \<open>
  C9. The cluster shares its cache. Let a client ask one member for something that is not yet cached and that a third
  node owns, the origin answer with 200 and a body the policy allows to keep, and nothing fail. Then the
  client gets the body, and a client that asks any other member afterwards, for a request with the same key
  (and another method than \<^verbatim>\<open>HEAD\<close>) that the origin answers with 304, gets the same body with status 200 from the
  owner's disk; the members count a miss and a hit. As for a single node, the origin's answers must not carry a
  \<^verbatim>\<open>Content-Length\<close> other than the length of the body.
\<close>

theorem cluster_serves_cached:
  assumes owner: "target_node (pk_hrw pk) c1 key = Some (addr_string a)" "addr_string a \<noteq> cl_addr c1"
      "target_node (pk_hrw pk) c2 key = Some (addr_string a)" "addr_string a \<noteq> cl_addr c2"
    and secret: "sv_cluster (conf (addr_string a)) = Some c" "cl_secret c1 = cl_secret c" "cl_secret c2 = cl_secret c" "cl_secret c \<noteq> []"
    and rq1: "rq_host rq1 \<noteq> []" "proxy_key sv1 rq1 = key" and rq2: "rq_host rq2 \<noteq> []" "proxy_key sv2 rq2 = key"
    and disk: "disk_inv (owner_disk a w)" "map_of (fs_dir (owner_disk a w)) (path_name key) = None"
      "map_of (fs_tmp (owner_disk a w)) tmp = None"
    and fits: "content_size (entry_archive key (coerce_metadata (response_etag rs)) (rd_data (rs_body rs))) \<le>
      unat (d_limit (ds (addr_string a)))"
    and first: "upstream_request rq1 no_metadata urq1" "\<not> contains_node c1 (u_host (rq_url urq1))"
      "origin (re_upstream (quiet_member now tmp)) urq1 (snd (w_net w)) = (Inr rs, k, os)" "rs_status rs = 200"
      "should_cache (fix_url rq1) (clean_response rs) (proxy_rule sv1 rq1)" "rd_err (rs_body rs) = None"
      "announced rs \<in> {None, Some (length (rd_data (rs_body rs)))}"
    and second: "upstream_request rq2 (coerce_metadata (response_etag rs)) urq2" "\<not> contains_node c2 (u_host (rq_url urq2))"
      "origin (re_upstream (quiet_member now' tmp')) urq2 os = (Inr rs', k', os')" "rs_status rs' = 304"
      "\<forall>ru. proxy_rule sv2 rq2 = Some ru \<longrightarrow> \<not> directConnect ru"
      "announced rs' \<in> {None, Some (length (rd_data (rs_body rs)))}" "rq_method rq2 \<noteq> ''HEAD''"
  shows "\<exists>r1 cw1 w1.
    handle_proxy_default pk (quiet_member now tmp) (member pk (nodes_at ds conf) origin c1 sv1) rq1 (cw_wrap (writer_for rq1 None)) w =
      Some (r1, cw1, w1) \<and> rw_body (cw_inner cw1) = rd_data (rs_body rs) \<and> w_cache_ops w1 = ''miss'' # w_cache_ops w \<and>
    (\<forall>v. w_net v = w_net w1 \<longrightarrow> (\<exists>r2 cw2 v' h.
       handle_proxy_default pk (quiet_member now' tmp') (member pk (nodes_at ds conf) origin c2 sv2) rq2 (cw_wrap (writer_for rq2 None)) v =
         Some (r2, cw2, v') \<and> rw_body (cw_inner cw2) = rd_data (rs_body rs) \<and> rw_sent (cw_inner cw2) = Some (200, h) \<and>
       w_cache_ops v' = ''hit'' # w_cache_ops v))"
  by (rule cluster_roundtrip [where conf = conf and ds = ds and origin = origin, OF assms])

section \<open>A cluster of three nodes\<close>

definition sample_cluster :: "string \<Rightarrow> cluster" where
  "sample_cluster addr = cluster_new ''s'' addr [''10.0.0.1:8080'']"

definition sample_net :: "(unit, (unit, unit) cluster_net) world" where
  "sample_net = \<lparr>w_disk = (), w_net = (\<lambda>_. disk_world, ()), w_cache_ops = [], w_requests = [], w_log = []\<rparr>"

text \<open>A node before it joins the cluster.\<close>

abbreviation sample_base :: "string \<Rightarrow> (os_env link_env, unit, (unit, unit) cluster_net) server" where
  "sample_base addr \<equiv> \<lparr>sv_listener = addr, sv_internal = (\<lambda>e rq n. (Inl ErrEOF, 0, n)), sv_external = (\<lambda>e rq n. (Inl ErrEOF, 0, n)),
      sv_disk = noop_ops, sv_tls = None, sv_rules = [sample_rule], sv_cluster = None\<rparr>"

lemma sample_base_facts:
  "proxy_rule (sample_base addr) (sample_request []) = Some sample_rule"
  "proxy_key (sample_base addr) (sample_request []) = ''https://example.com/a''"
  by (simp_all add: proxy_key_def proxy_rule_def) (simp_all add: sample_rule_def sample_key [unfolded sample_rule_def])

lemma sample_cluster_facts:
  "target_node (pk_hrw sample_packages) (sample_cluster addr) key = Some (addr_string sample_addr)"
  "cl_addr (sample_cluster addr) = addr" "cl_secret (sample_cluster addr) = ''s''" "\<not> contains_node (sample_cluster addr) ''example.com''"
  by (simp_all add: sample_cluster_def target_node_def cluster_new_def sample_packages_def sample_hrw_def sample_addrs contains_node_def)

lemma sample_net_facts:
  "owner_disk a sample_net = empty_fs" "w_cache_ops sample_net = []" "snd (w_net sample_net) = ()"
  by (simp_all add: owner_disk_def sample_net_def disk_world_def)

lemma sample_md_answer: "coerce_metadata (response_etag sample_answer) = sample_md"
  unfolding sample_answers(3) by (rule coerce_sample_md)

lemma sample_node: "sv_cluster ((\<lambda>_. node_server) (addr_string sample_addr)) = Some (sample_cluster ''10.0.0.1:8080'')"
  by (simp add: node_server_def sample_cluster_def)

lemma sample_host: "u_host (rq_url (sample_forwarded h)) = ''example.com''"
  by (simp add: sample_forwarded_def sample_url_def)

abbreviation sample_joined :: "string \<Rightarrow> (os_env link_env, unit, (unit, unit) cluster_net) server" where
  "sample_joined addr \<equiv>
     member sample_packages (nodes_at (\<lambda>_. sample_disk) (\<lambda>_. node_server)) sample_origin (sample_cluster addr) (sample_base addr)"

lemmas sample_owner = sample_cluster_facts(1)

lemma sample_not_owner:
  "addr_string sample_addr \<noteq> cl_addr (sample_cluster ''10.0.0.2:8080'')" "addr_string sample_addr \<noteq> cl_addr (sample_cluster ''10.0.0.3:8080'')"
  by (simp_all add: sample_cluster_facts sample_addrs)

lemma sample_disk_facts:
  "disk_inv (owner_disk a sample_net)" "map_of (fs_dir (owner_disk a sample_net)) k = None" "map_of (fs_tmp (owner_disk a sample_net)) t = None"
  "clean_disk (owner_disk a sample_net)"
proof -
  show "disk_inv (owner_disk a sample_net)" by (simp add: sample_net_facts)
  then show "clean_disk (owner_disk a sample_net)"
    by (simp add: clean_disk_def sample_net_facts) (simp add: disk_stored_def empty_fs_def)
  show "map_of (fs_dir (owner_disk a sample_net)) k = None" "map_of (fs_tmp (owner_disk a sample_net)) t = None"
    by (simp_all add: sample_net_facts) (simp_all add: empty_fs_def)
qed

lemma sample_fits_answer:
  "content_size (entry_archive ''https://example.com/a'' (coerce_metadata (response_etag sample_answer)) (rd_data (rs_body sample_answer))) \<le>
     unat (d_limit ((\<lambda>_. sample_disk) (addr_string sample_addr)))"
  by (simp add: sample_md_answer sample_fits)

lemma sample_secrets:
  "cl_secret (sample_cluster a) = cl_secret (sample_cluster b)" "cl_secret (sample_cluster b) \<noteq> []"
  by (simp_all add: sample_cluster_facts)

lemma sample_outside: "\<not> contains_node (sample_cluster a) (u_host (rq_url (sample_forwarded h)))"
  by (simp add: sample_host sample_cluster_facts)

lemma sample_rule_facts:
  "should_cache (fix_url (sample_request [])) (clean_response sample_answer) (proxy_rule (sample_base a) (sample_request []))"
  "\<forall>ru. proxy_rule (sample_base a) (sample_request []) = Some ru \<longrightarrow> \<not> directConnect ru"
  unfolding sample_base_facts using sample_answers(4) by (simp_all add: sample_rule_def)

lemma sample_second: "upstream_request (sample_request []) (coerce_metadata (response_etag sample_answer)) (sample_forwarded [(''If-None-Match'', [''v1''])])"
  unfolding sample_md_answer by (rule sample_forward)

lemma sample_values:
  "rq_host (sample_request []) \<noteq> []" "rs_status sample_answer = 200" "rd_err (rs_body sample_answer) = None"
  "rs_status \<lparr>rs_status = 304, rs_header = [], rs_body = bytes_reader []\<rparr> = 304"
  by (simp_all add: sample_request_def)

theorem cluster_serves_cached_witness:
  "\<exists>r1 cw1 w1.
    handle_proxy_default sample_packages (quiet_member 5 ''t'') (sample_joined ''10.0.0.2:8080'') (sample_request [])
      (cw_wrap (fresh_writer None)) sample_net = Some (r1, cw1, w1) \<and> rw_body (cw_inner cw1) = ''hi'' \<and>
    (\<exists>r2 cw2 v'. handle_proxy_default sample_packages (quiet_member 9 ''u'') (sample_joined ''10.0.0.3:8080'') (sample_request [])
       (cw_wrap (fresh_writer None)) w1 = Some (r2, cw2, v') \<and> rw_body (cw_inner cw2) = ''hi'')"
  using cluster_serves_cached [where conf = "\<lambda>_. node_server" and ds = "\<lambda>_. sample_disk" and origin = sample_origin and now = 5 and now' = 9
      and tmp = "''t''" and tmp' = "''u''", OF sample_owner sample_not_owner(1) sample_owner sample_not_owner(2) sample_node sample_secrets(1,1,2)
      sample_values(1) sample_base_facts(2) sample_values(1) sample_base_facts(2) sample_disk_facts(1-3) sample_fits_answer sample_forward(1)
      sample_outside sample_answers(1) sample_values(2) sample_rule_facts(1) sample_values(3) sample_announced(1) sample_second sample_outside sample_answers(2)
      sample_values(4) sample_rule_facts(2) sample_announced(2) sample_get]
  by (simp only: bytes_reader_simps response.simps sample_writer) blast

lemma sample_member_run:
  "\<exists>r cw w. handle_proxy_default sample_packages (quiet_member 5 ''t'') (sample_joined ''10.0.0.2:8080'') (sample_request [])
     (cw_wrap (fresh_writer None)) sample_net = Some (r, cw, w) \<and> rw_body (cw_inner cw) = ''hi'' \<and> w_cache_ops w = ''miss'' # w_cache_ops sample_net"
  using cluster_roundtrip [where conf = "\<lambda>_. node_server" and ds = "\<lambda>_. sample_disk" and origin = sample_origin and now = 5 and now' = 9
      and tmp = "''t''" and tmp' = "''u''", OF sample_owner sample_not_owner(1) sample_owner sample_not_owner(2) sample_node sample_secrets(1,1,2)
      sample_values(1) sample_base_facts(2) sample_values(1) sample_base_facts(2) sample_disk_facts(1-3) sample_fits_answer sample_forward(1)
      sample_outside sample_answers(1) sample_values(2) sample_rule_facts(1) sample_values(3) sample_announced(1) sample_second sample_outside sample_answers(2)
      sample_values(4) sample_rule_facts(2) sample_announced(2) sample_get]
  by (simp only: bytes_reader_simps response.simps sample_writer) blast

lemma sample_request_outside: "outside (sample_cluster a) (sample_request [])"
  using sample_outside by (auto simp: outside_def upstream_request_def sample_new_request)

theorem cluster_proxy_faithful_witness:
  "\<exists>r cw w. handle_proxy_default sample_packages (quiet_member 5 ''t'') (sample_joined ''10.0.0.2:8080'') (sample_request [])
     (cw_wrap (fresh_writer None)) sample_net = Some (r, cw, w) \<and> w_cache_ops w = [''miss''] \<and>
     (\<forall>h. h \<noteq> addr_string sample_addr \<longrightarrow> fst (w_net w) h = fst (w_net sample_net) h) \<and> clean_disk (owner_disk sample_addr w) \<and>
     (\<exists>m rs. upstream_answered (sample_joined ''10.0.0.2:8080'') (quiet_member 5 ''t'') (sample_request []) m rs \<and> prefix ''hi'' (rd_data (rs_body rs)))"
proof -
  obtain r cw w where h: "handle_proxy_default sample_packages (quiet_member 5 ''t'') (sample_joined ''10.0.0.2:8080'') (sample_request [])
      (cw_wrap (fresh_writer None)) sample_net = Some (r, cw, w)" and ops: "w_cache_ops w = [''miss'']"
    and b: "rw_body (cw_inner cw) = ''hi''"
    using sample_member_run by (auto simp: sample_net_facts)
  have fresh: "rw_body (cw_inner (cw_wrap (fresh_writer None))) = []" by simp
  have none: "disk_stored (owner_disk sample_addr sample_net) n = None" for n
    by (simp add: sample_net_facts disk_stored_def) (simp add: empty_fs_def)
  from cluster_proxy_faithful [OF sample_owner sample_not_owner(1) sample_request_outside sample_disk_facts(4) h fresh] h ops b none show ?thesis
    by auto
qed

theorem cluster_proxy_counted_witness:
  "\<exists>r cw w m rs. handle_proxy_default sample_packages (quiet_member 5 ''t'') (sample_joined ''10.0.0.2:8080'') (sample_request [])
     (cw_wrap (fresh_writer None)) sample_net = Some (r, cw, w) \<and>
     upstream_answered (sample_joined ''10.0.0.2:8080'') (quiet_member 5 ''t'') (sample_request []) m rs \<and>
     rw_body (cw_inner cw) = rd_data (rs_body rs) \<and> rw_body (cw_inner cw) = ''hi''"
proof -
  obtain r cw w where h: "handle_proxy_default sample_packages (quiet_member 5 ''t'') (sample_joined ''10.0.0.2:8080'') (sample_request [])
      (cw_wrap (fresh_writer None)) sample_net = Some (r, cw, w)" and b: "rw_body (cw_inner cw) = ''hi''"
    and ops: "w_cache_ops w = ''miss'' # w_cache_ops sample_net"
    using sample_member_run by auto
  have fresh: "rw_sent (cw_inner (cw_wrap (fresh_writer None))) = None" "rw_body (cw_inner (cw_wrap (fresh_writer None))) = []"
    by simp_all
  from cluster_proxy_counted [OF sample_owner sample_not_owner(1) sample_request_outside sample_disk_facts(4) h ops fresh] obtain m rs where
    "upstream_answered (sample_joined ''10.0.0.2:8080'') (quiet_member 5 ''t'') (sample_request []) m rs"
    "rw_body (cw_inner cw) = rd_data (rs_body rs)"
    by (auto simp: client_gets_def)
  with h b show ?thesis by blast
qed

end
