(* ===== verification/HelperWire.thy ===== *)
theory HelperWire
  imports GoJson
begin

text \<open>
  The messages between chacha and its privileged helper (\<^verbatim>\<open>pkg/localnetworkhelper\<close>): JSON objects written
  one after the other into a stream socket, and the decoder loop that takes them out of a buffer.
\<close>

section \<open>The decoder makes progress\<close>

lemma skip_ws_length: "length (skip_ws s) \<le> length s"
  by (induction s) auto

lemma parse_hex4_length: "parse_hex4 s = Some (n, t) \<Longrightarrow> length t < length s"
  by (induction s rule: parse_hex4.induct) (auto split: option.splits)

lemma unescape_u_length: "unescape_u s = Some (x, t) \<Longrightarrow> length t < length s"
  by (auto simp: unescape_u_def Let_def split: option.splits if_splits list.splits prod.splits dest!: parse_hex4_length)

lemma parse_str_length: "parse_str n s = Some (x, t) \<Longrightarrow> length t < length s"
proof (induction n arbitrary: s x t)
  case (Suc n)
  then obtain c u where s: "s = c # u" by (cases s) (simp_all add: parse_str.simps)
  have IH: "parse_str n v = Some (y, t) \<Longrightarrow> length v \<le> Suc (length u) \<Longrightarrow> length t < Suc (length u)" for v y
    using Suc.IH by fastforce
  from Suc.prems show ?case unfolding s
    by (auto simp: parse_str.simps simp del: utf8_len.simps split: if_splits option.splits list.splits
        dest!: IH unescape_u_length)
qed (simp add: parse_str.simps)

lemma take_digits_length: "length (fst (take_digits s)) + length (snd (take_digits s)) = length s"
  by (induction s) auto

lemma apfst_snd: "apfst f p = (a, b) \<Longrightarrow> b = snd p"
  by (cases p) auto

lemma parse_num_length:
  assumes "parse_num s = Some (v, t)"
  shows "length t < length s"
proof -
  obtain sg s1 where 1: "(case s of c # t \<Rightarrow> if c = CHR ''-'' then ([c], t) else ([], s) | [] \<Rightarrow> ([], s)) = (sg, s1)"
    by fastforce
  obtain ip s2 where 2: "(case s1 of c # t \<Rightarrow> if c = CHR ''0'' then ([c], t) else take_digits s1 | [] \<Rightarrow> ([], [])) = (ip, s2)"
    by fastforce
  obtain fp s3 where 3: "(case s2 of c # t \<Rightarrow> if c = CHR ''.'' then apfst (\<lambda>d. c # d) (take_digits t) else ([], s2)
    | [] \<Rightarrow> ([], [])) = (fp, s3)" by fastforce
  let ?e = "\<lambda>s. (case s of
      c # t \<Rightarrow>
        if c = CHR ''e'' \<or> c = CHR ''E'' then
          (case t of
             d # u \<Rightarrow> if d = CHR ''+'' \<or> d = CHR ''-'' then apfst (\<lambda>x. c # d # x) (take_digits u)
                     else apfst (\<lambda>x. c # x) (take_digits t)
           | [] \<Rightarrow> ([c], []))
        else ([], s)
    | [] \<Rightarrow> ([], []))"
  obtain ex s4 where 4: "?e s3 = (ex, s4)" by fastforce
  have d: "length (snd (take_digits u)) \<le> length u" for u using take_digits_length [of u] by simp
  have "length s1 \<le> length s" using 1 by (auto split: list.splits if_splits)
  moreover have "length ip + length s2 = length s1"
    using 2 take_digits_length [of s1] by (cases s1) (auto split: if_splits)
  moreover have "length s3 \<le> length s2"
    using 3 d by (auto split: list.splits if_splits dest!: apfst_snd intro: le_SucI)
  moreover have "length s4 \<le> length s3"
    using 4 d [THEN le_SucI] d [THEN le_SucI, THEN le_SucI] d [of "tl s3"]
    by (auto simp del: take_digits.simps split: list.splits if_splits dest!: apfst_snd)
  moreover have "ip \<noteq> []" "t = s4"
    using assms unfolding parse_num_def Let_def 1 prod.case 2 3 4 by (simp_all split: if_splits)
  ultimately show ?thesis by (cases ip) auto
qed

lemma parse_length:
  "parse_value n s = Some (v, t) \<Longrightarrow> length t < length s"
  "parse_members n s = Some (ms, t) \<Longrightarrow> length t < length s"
  "parse_elements n s = Some (vs, t) \<Longrightarrow> length t < length s"
proof -
  have "(\<forall>s v t. parse_value n s = Some (v, t) \<longrightarrow> length t < length s) \<and>
    (\<forall>s ms t. parse_members n s = Some (ms, t) \<longrightarrow> length t < length s) \<and>
    (\<forall>s vs t. parse_elements n s = Some (vs, t) \<longrightarrow> length t < length s)"
  proof (induction n)
    case (Suc n)
    then have V: "parse_value n u = Some (v, t) \<Longrightarrow> length t < length u"
      and M: "parse_members n u = Some (ms, t) \<Longrightarrow> length t < length u"
      and E: "parse_elements n u = Some (vs, t) \<Longrightarrow> length t < length u" for u v ms vs t by blast+
    have skip: "skip_ws u = c # r \<Longrightarrow> length r < length u" for u c r
      using skip_ws_length [of u] by simp
    show ?case
    proof (intro conjI allI impI)
      show "length t < length s" if "parse_value (Suc n) s = Some (v, t)" for s v t
        using that
        by (auto simp: parse_value.simps split: list.splits if_splits
            dest!: skip parse_str_length M E parse_num_length)
      show "length t < length s" if "parse_members (Suc n) s = Some (ms, t)" for s ms t
        using that
        by (auto simp: parse_members.simps split: list.splits if_splits option.splits
            dest!: skip parse_str_length M V)
      show "length t < length s" if "parse_elements (Suc n) s = Some (vs, t)" for s vs t
        using that
        by (auto simp: parse_elements.simps split: list.splits if_splits option.splits
            dest!: skip E V)
    qed
  qed (simp add: parse_value.simps parse_members.simps)
  then show "parse_value n s = Some (v, t) \<Longrightarrow> length t < length s"
    "parse_members n s = Some (ms, t) \<Longrightarrow> length t < length s"
    "parse_elements n s = Some (vs, t) \<Longrightarrow> length t < length s" by blast+
qed

text \<open>
  The parser's fuel is enough: what any fuel parses is parsed with the length of the text, since each call consumes
  at least as many bytes as it uses fuel.
\<close>

lemma parse_str_enough:
  "parse_str n s = Some (x, t) \<Longrightarrow> length s < m + length t \<Longrightarrow> parse_str m s = Some (x, t)"
proof (induction n arbitrary: m s x t)
  case (Suc n)
  from parse_str_length [OF Suc.prems(1)] Suc.prems(2) obtain k where m: "m = Suc k" by (cases m) auto
  obtain c u where s: "s = c # u" using Suc.prems(1) by (cases s) (simp_all add: parse_str.simps)
  have len: "length u < k + length t" using Suc.prems(2) s m by simp
  have simple: "parse_str k v = Some (y, t)" if "parse_str n v = Some (y, t)" "Suc (length v) < k + length t" for v y
    by (rule Suc.IH [OF that(1)]) (use that(2) in simp)
  have esc: "parse_str k b = Some (y, t)"
    if "parse_str n b = Some (y, t)" "unescape_u v = Some (r, b)" "Suc (length v) < k + length t" for v r b y
    by (rule Suc.IH [OF that(1)]) (use unescape_u_length [OF that(2)] that(3) in simp)
  have drop: "length (drop (utf8_len (c # u)) (c # u)) < k + length t" if "0 < utf8_len (c # u)" using that len by simp
  from Suc.prems(1) len show ?case unfolding s m
    by (auto simp: parse_str.simps simp del: utf8_len.simps length_drop split: if_splits option.splits list.splits
        intro: Suc.IH simple drop) (erule (2) esc)+
qed (simp add: parse_str.simps)

lemma skip_ws_shorter: "skip_ws u = c # r \<Longrightarrow> length r < length u"
  using skip_ws_length [of u] by simp

lemma parse_enough:
  "parse_value n s = Some (v, t) \<Longrightarrow> length s < m + length t \<Longrightarrow> parse_value m s = Some (v, t)"
  "parse_members n s = Some (ms, t) \<Longrightarrow> length s < m + length t \<Longrightarrow> parse_members m s = Some (ms, t)"
  "parse_elements n s = Some (vs, t) \<Longrightarrow> length s < m + length t \<Longrightarrow> parse_elements m s = Some (vs, t)"
proof (induction n arbitrary: s t m v ms vs)
  case 0
  {
    case 1 then show ?case by (simp add: parse_value.simps)
  next
    case 2 then show ?case by (simp add: parse_members.simps)
  next
    case 3 then show ?case by (simp add: parse_elements.simps)
  }
next
  case (Suc n)
  {
    case 1
    with parse_length(1) [OF 1(1)] obtain k where m: "m = Suc k" by (cases m) auto
    obtain c r where s: "skip_ws s = c # r" using 1(1) by (auto simp: parse_value.simps split: list.splits)
    have k: "length r < k + length t" using 1(2) m skip_ws_shorter [OF s] by simp
    from 1(1) Suc.IH(2,3) [where s = r, OF _ k] show ?case unfolding m
      by (auto simp: parse_value.simps s split: if_splits list.splits)
  next
    case 2
    with parse_length(2) [OF 2(1)] obtain k where m: "m = Suc k" by (cases m) auto
    from 2(1) obtain c r key t1 d u v w e x where parts: "skip_ws s = c # r" "c = quote" "parse_str (Suc (length r)) r = Some (key, t1)"
      "skip_ws t1 = d # u" "d = CHR '':''" "parse_value n u = Some (v, w)" "skip_ws w = e # x"
      by (auto simp: parse_members.simps split: if_splits list.splits option.splits)
    have len: "length u < length s" "length x < length w" "length w < length u"
      using skip_ws_shorter [OF parts(1)] parse_str_length [OF parts(3)] skip_ws_shorter [OF parts(4)] skip_ws_shorter [OF parts(7)]
        parse_length(1) [OF parts(6)] by auto
    have t: "length t \<le> length x" 
      using 2(1) parts parse_length(2) by (fastforce simp: parse_members.simps split: if_splits)
    have "parse_value k u = Some (v, w)"
      by (rule Suc.IH(1) [OF parts(6)]) (use 2(2) m len t in simp)
    moreover have "parse_members k x = Some (ms', t)" if "parse_members n x = Some (ms', t)" for ms'
      by (rule Suc.IH(2) [OF that]) (use 2(2) m len in simp)
    ultimately show ?case unfolding m using 2(1) parts by (auto simp: parse_members.simps split: if_splits)
  next
    case 3
    with parse_length(3) [OF 3(1)] obtain k where m: "m = Suc k" by (cases m) auto
    from 3(1) obtain v w e x where parts: "parse_value n s = Some (v, w)" "skip_ws w = e # x"
      by (auto simp: parse_elements.simps split: if_splits list.splits option.splits)
    have len: "length x < length w" "length w < length s"
      using skip_ws_shorter [OF parts(2)] parse_length(1) [OF parts(1)] by auto
    have t: "length t \<le> length x"
      using 3(1) parts parse_length(3) by (fastforce simp: parse_elements.simps split: if_splits)
    have "parse_value k s = Some (v, w)"
      by (rule Suc.IH(1) [OF parts(1)]) (use 3(2) m len t in simp)
    moreover have "parse_elements k x = Some (vs', t)" if "parse_elements n x = Some (vs', t)" for vs'
      by (rule Suc.IH(3) [OF that]) (use 3(2) m len in simp)
    ultimately show ?case unfolding m using 3(1) parts by (auto simp: parse_elements.simps split: if_splits)
  }
qed

lemma parse_value_fuel: "parse_value n s = Some p \<Longrightarrow> parse_value (Suc (length s)) s = Some p"
  using parse_enough(1) [of n s "fst p" "snd p" "Suc (length s)"] by (simp add: less_Suc_eq)

section \<open>Messages\<close>

record socket_request =
  sr_token :: string
  sr_network :: string
  sr_addr :: string

record socket_response =
  sp_token :: string
  sp_error :: string

text \<open>\<^verbatim>\<open>json.Marshal\<close> of a struct whose fields are strings.\<close>

fun members_text :: "(string \<times> string) list \<Rightarrow> string" where
  "members_text [] = ''}''"
| "members_text [(k, v)] = json_string k @ CHR '':'' # json_string v @ ''}''"
| "members_text ((k, v) # m # ms) = json_string k @ CHR '':'' # json_string v @ CHR '','' # members_text (m # ms)"

definition marshal_request :: "socket_request \<Rightarrow> string" where
  "marshal_request q =
     CHR ''{'' # members_text [(''token'', sr_token q), (''network'', sr_network q), (''addr'', sr_addr q)]"

definition marshal_response :: "socket_response \<Rightarrow> string" where
  "marshal_response p = CHR ''{'' # members_text [(''token'', sp_token p), (''error'', sp_error p)]"

text \<open>
  Decoding into these structs: names match without case, unknown members are skipped, and the first
  type error is reported after the value was read.
\<close>

definition assign_string :: "json \<Rightarrow> string \<Rightarrow> (string \<Rightarrow> 'a) \<Rightarrow> go_error option \<Rightarrow> go_error option \<times> 'a" where
  "assign_string v old upd e =
     (case string_field v old of (e', s) \<Rightarrow> (case e of None \<Rightarrow> e' | Some _ \<Rightarrow> e, upd s))"

definition request_field :: "go_error option \<times> socket_request \<Rightarrow> string \<times> json \<Rightarrow> go_error option \<times> socket_request" where
  "request_field = (\<lambda>(e, q) (k, v).
     if equal_fold k ''token'' then assign_string v (sr_token q) (\<lambda>s. q\<lparr>sr_token := s\<rparr>) e
     else if equal_fold k ''network'' then assign_string v (sr_network q) (\<lambda>s. q\<lparr>sr_network := s\<rparr>) e
     else if equal_fold k ''addr'' then assign_string v (sr_addr q) (\<lambda>s. q\<lparr>sr_addr := s\<rparr>) e
     else (e, q))"

definition response_field :: "go_error option \<times> socket_response \<Rightarrow> string \<times> json \<Rightarrow> go_error option \<times> socket_response" where
  "response_field = (\<lambda>(e, p) (k, v).
     if equal_fold k ''token'' then assign_string v (sp_token p) (\<lambda>s. p\<lparr>sp_token := s\<rparr>) e
     else if equal_fold k ''error'' then assign_string v (sp_error p) (\<lambda>s. p\<lparr>sp_error := s\<rparr>) e
     else (e, p))"

definition decode_struct :: "(go_error option \<times> 'a \<Rightarrow> string \<times> json \<Rightarrow> go_error option \<times> 'a) \<Rightarrow> 'a \<Rightarrow> json \<Rightarrow> 'a result" where
  "decode_struct field zero v =
     (case (case v of JObj ms \<Rightarrow> foldl field (None, zero) ms | JNull \<Rightarrow> (None, zero)
            | _ \<Rightarrow> (Some (Errorf ''json: cannot unmarshal into struct''), zero)) of
        (Some e, _) \<Rightarrow> Inl e
      | (None, x) \<Rightarrow> Inr x)"

text \<open>
  \<^verbatim>\<open>Decoder.Decode\<close> on a buffer: \<^verbatim>\<open>io.EOF\<close> when nothing but white space is left, a value that ends too
  early or is malformed is another error.
\<close>

definition json_next :: "string \<Rightarrow> (json \<times> string) result" where
  "json_next s =
     (if skip_ws s = [] then Inl ErrEOF
      else (case parse_value (Suc (length s)) s of
              None \<Rightarrow> Inl (Errorf ''json: unexpected EOF or syntax error'')
            | Some p \<Rightarrow> Inr p))"

definition decode_request :: "string \<Rightarrow> (socket_request \<times> string) result" where
  "decode_request s =
     (case json_next s of
        Inl e \<Rightarrow> Inl e
      | Inr (v, t) \<Rightarrow>
          (case decode_struct request_field \<lparr>sr_token = [], sr_network = [], sr_addr = []\<rparr> v of
             Inl e \<Rightarrow> Inl e | Inr q \<Rightarrow> Inr (q, t)))"

definition decode_response :: "string \<Rightarrow> (socket_response \<times> string) result" where
  "decode_response s =
     (case json_next s of
        Inl e \<Rightarrow> Inl e
      | Inr (v, t) \<Rightarrow>
          (case decode_struct response_field \<lparr>sp_token = [], sp_error = []\<rparr> v of
             Inl e \<Rightarrow> Inl e | Inr p \<Rightarrow> Inr (p, t)))"

lemma json_next_shorter: "json_next s = Inr (v, t) \<Longrightarrow> length t < length s"
  by (auto simp: json_next_def split: if_splits option.splits dest: parse_length(1))

lemma decode_request_shorter: "decode_request s = Inr (q, t) \<Longrightarrow> length t < length s"
  by (auto simp: decode_request_def split: sum.splits dest: json_next_shorter)

lemma decode_response_shorter: "decode_response s = Inr (p, t) \<Longrightarrow> length t < length s"
  by (auto simp: decode_response_def split: sum.splits dest: json_next_shorter)

section \<open>Round trips\<close>

lemma parse_members_text:
  "ms \<noteq> [] \<Longrightarrow> length ms \<le> n \<Longrightarrow>
     parse_members (Suc n) (members_text ms @ t) = Some (map (\<lambda>(k, v). (coerce_utf8 k, JStr (coerce_utf8 v))) ms, t)"
proof (induction ms arbitrary: n rule: members_text.induct)
  case (2 k v)
  then obtain m where "n = Suc m" by (cases n) auto
  then show ?case by (simp add: parse_members_member parse_value_json_string)
next
  case (3 k v m ms)
  then obtain j where n: "n = Suc j" by (cases n) auto
  with 3 have "parse_members (Suc j) (members_text (m # ms) @ t) =
      Some (map (\<lambda>(k, v). (coerce_utf8 k, JStr (coerce_utf8 v))) (m # ms), t)" by simp
  then show ?case by (simp add: parse_members_member parse_value_json_string n)
qed simp

lemma members_text_string: "ms \<noteq> [] \<Longrightarrow> \<exists>k r. members_text ms = json_string k @ r"
  by (induction ms rule: members_text.induct) auto

lemma members_text_length: "length ms \<le> length (members_text ms)"
  by (induction ms rule: members_text.induct) (auto simp: json_string_def)

lemma json_next_members:
  assumes "ms \<noteq> []"
  shows "json_next (CHR ''{'' # members_text ms @ t) =
    Inr (JObj (map (\<lambda>(k, v). (coerce_utf8 k, JStr (coerce_utf8 v))) ms), t)"
proof -
  obtain k r where k: "members_text ms = json_string k @ r" using members_text_string [OF assms] by blast
  have "length ms \<le> length (members_text ms @ t)" using members_text_length [of ms] by simp
  from parse_members_text [OF assms this, of t] have
    "parse_value (Suc (Suc (length (members_text ms @ t)))) (CHR ''{'' # members_text ms @ t) =
      Some (JObj (map (\<lambda>(k, v). (coerce_utf8 k, JStr (coerce_utf8 v))) ms), t)"
    unfolding k append_assoc by (rule parse_value_object)
  then show ?thesis by (simp add: json_next_def)
qed

lemma coerce_field_names [simp]:
  "coerce_utf8 ''token'' = ''token''" "coerce_utf8 ''network'' = ''network''" "coerce_utf8 ''addr'' = ''addr''"
  "coerce_utf8 ''error'' = ''error''"
  by (simp_all add: coerce_utf8_valid valid_utf8_ascii is_ascii_def)

lemma fold_field_names [simp]:
  "equal_fold ''token'' ''token''" "equal_fold ''network'' ''network''" "equal_fold ''addr'' ''addr''" "equal_fold ''error'' ''error''"
  "\<not> equal_fold ''network'' ''token''" "\<not> equal_fold ''addr'' ''token''" "\<not> equal_fold ''addr'' ''network''"
  "\<not> equal_fold ''error'' ''token''"
  by code_simp+

definition coerce_request :: "socket_request \<Rightarrow> socket_request" where
  "coerce_request q = \<lparr>sr_token = coerce_utf8 (sr_token q), sr_network = coerce_utf8 (sr_network q), sr_addr = coerce_utf8 (sr_addr q)\<rparr>"

definition coerce_response :: "socket_response \<Rightarrow> socket_response" where
  "coerce_response p = \<lparr>sp_token = coerce_utf8 (sp_token p), sp_error = coerce_utf8 (sp_error p)\<rparr>"

text \<open>The first message is taken off a buffer exactly, whatever follows it.\<close>

lemma decode_marshal_request: "decode_request (marshal_request q @ t) = Inr (coerce_request q, t)"
  by (simp add: decode_request_def marshal_request_def json_next_members decode_struct_def request_field_def assign_string_def
      string_field_def coerce_request_def del: members_text.simps)

lemma decode_marshal_response: "decode_response (marshal_response p @ t) = Inr (coerce_response p, t)"
  by (simp add: decode_response_def marshal_response_def json_next_members decode_struct_def response_field_def assign_string_def
      string_field_def coerce_response_def del: members_text.simps)

lemma decode_nothing [simp]: "decode_request [] = Inl ErrEOF" "decode_response [] = Inl ErrEOF"
  by (simp_all add: decode_request_def decode_response_def json_next_def)

end
