(* ===== verification/Helper.thy ===== *)
theory Helper
  imports HelperWire
begin

text \<open>
  \<^verbatim>\<open>pkg/localnetworkhelper\<close>: connections are dialled by a privileged child process, which passes the sockets
  back as ancillary data (\<^verbatim>\<open>SCM_RIGHTS\<close>). The client (\<^verbatim>\<open>localnetworkhelper.go\<close>) matches responses to
  waiting callers by token; the server (\<^verbatim>\<open>serve.go\<close>) dials each request in its own goroutine.

  \<open>'f\<close> are open sockets, \<open>'a\<close> the ancillary data, \<open>'m\<close> its control messages. The functions of
  \<^verbatim>\<open>golang.org/x/sys/unix\<close> that build and parse ancillary data are parameters.
\<close>

record ('f, 'a, 'm) unix_package =
  ux_none :: 'a
  ux_rights :: "'f \<Rightarrow> 'a"
  ux_parse_messages :: "'a \<Rightarrow> 'm list result"
  ux_parse_rights :: "'m \<Rightarrow> 'f list result"

section \<open>The client\<close>

text \<open>
  A request as the callers queue it. The reply channel has a buffer of one; it is named by a number.
\<close>

record dial_request =
  dr_network :: string
  dr_addr :: string
  dr_chan :: nat

text \<open>
  The state: the global error, the requests in flight by token, the replies put into channels (latest
  first), the bytes written to the socket, and whether the goroutine of \<^verbatim>\<open>handleResponses\<close> is running.
\<close>

record 'f helper_client =
  hc_err :: "go_error option"
  hc_processed :: "(string \<times> dial_request) list"
  hc_replies :: "(nat \<times> 'f result) list"
  hc_sent :: string
  hc_reading :: bool

definition client_new :: "'f helper_client" where
  "client_new = \<lparr>hc_err = None, hc_processed = [], hc_replies = [], hc_sent = [], hc_reading = True\<rparr>"

text \<open>\<^verbatim>\<open>err.CompareAndSwap(nil, &err)\<close>: the first error stays.\<close>

definition set_err :: "go_error \<Rightarrow> 'f helper_client \<Rightarrow> 'f helper_client" where
  "set_err e c = (case hc_err c of None \<Rightarrow> c\<lparr>hc_err := Some e\<rparr> | Some _ \<Rightarrow> c)"

definition send_reply :: "nat \<Rightarrow> 'f result \<Rightarrow> 'f helper_client \<Rightarrow> 'f helper_client" where
  "send_reply ch r c = c\<lparr>hc_replies := (ch, r) # hc_replies c\<rparr>"

text \<open>
  One round of \<^verbatim>\<open>handleRequests\<close>. The token is a fresh UUID; a failing write may have sent some of the
  bytes.
\<close>

definition handle_request ::
    "string \<Rightarrow> (go_error \<times> nat) option \<Rightarrow> dial_request \<Rightarrow> 'f helper_client \<Rightarrow> 'f helper_client" where
  "handle_request token write rq c =
     (let bytes = marshal_request \<lparr>sr_token = token, sr_network = dr_network rq, sr_addr = dr_addr rq\<rparr>;
          c1 = c\<lparr>hc_processed := AList.update token rq (hc_processed c)\<rparr>
      in (case write of
            None \<Rightarrow> c1\<lparr>hc_sent := hc_sent c1 @ bytes\<rparr>
          | Some (e, n) \<Rightarrow>
              send_reply (dr_chan rq) (Inl (Wrap ''failed to send privileged socket request'' e))
                (c1\<lparr>hc_sent := hc_sent c1 @ take n bytes, hc_processed := AList.delete token (hc_processed c1)\<rparr>)))"

text \<open>
  The errors of wrapping a received socket: \<^verbatim>\<open>net.FileConn\<close> and closing the file.
\<close>

record conn_env =
  cv_file_conn :: "go_error option"
  cv_close :: "go_error option"

definition handle_response ::
    "('f, 'a, 'm) unix_package \<Rightarrow> conn_env \<Rightarrow> socket_response \<Rightarrow> 'a \<Rightarrow> 'f result" where
  "handle_response ux env resp oob =
     (if sp_error resp \<noteq> [] then Inl (Errorf (sp_error resp))
      else
        (case ux_parse_messages ux oob of
           Inl e \<Rightarrow> Inl (Wrap ''failed to parse socket control message'' e)
         | Inr [msg] \<Rightarrow>
             (case ux_parse_rights ux msg of
                Inl e \<Rightarrow> Inl (Wrap ''failed to parse unix rights'' e)
              | Inr [fd] \<Rightarrow>
                  (case cv_file_conn env of
                     Some e \<Rightarrow> Inl (Wrap ''failed to convert netFile to netConn'' e)
                   | None \<Rightarrow>
                       (case cv_close env of
                          Some e \<Rightarrow> Inl (Wrap ''failed to close netFile'' e)
                        | None \<Rightarrow> Inr fd))
              | Inr _ \<Rightarrow> Inl (Errorf ''expected exactly one unix right''))
         | Inr _ \<Rightarrow> Inl (Errorf ''expected exactly one socket control message'')))"

text \<open>
  The inner loop of \<^verbatim>\<open>handleResponses\<close> over one buffer: only the first response of a read gets the ancillary
  data. Each round consumes a message, so the loop ends.
\<close>

definition stop_reading :: "go_error \<Rightarrow> 'f helper_client \<Rightarrow> 'f helper_client" where
  "stop_reading e c = (set_err e c)\<lparr>hc_reading := False\<rparr>"

function (sequential) handle_buffer ::
    "('f, 'a, 'm) unix_package \<Rightarrow> conn_env \<Rightarrow> 'a \<Rightarrow> string \<Rightarrow> 'f helper_client \<Rightarrow> 'f helper_client" where
  "handle_buffer ux env oob buf c =
     (case decode_response buf of
        Inl e \<Rightarrow>
          if errors_is e ErrEOF then c
          else stop_reading (Wrap ''failed to unmarshal privileged socket response'' e) c
      | Inr (resp, rest) \<Rightarrow>
          (case map_of (hc_processed c) (sp_token resp) of
             None \<Rightarrow> stop_reading (Errorf ''got response for a non-existent request'') c
           | Some rq \<Rightarrow>
               handle_buffer ux env (ux_none ux) rest
                 (send_reply (dr_chan rq) (handle_response ux env resp oob)
                   (c\<lparr>hc_processed := AList.delete (sp_token resp) (hc_processed c)\<rparr>))))"
  by pat_completeness auto
termination
  by (relation "measure (\<lambda>(ux, env, oob, buf, c). length buf)") (auto dest: decode_response_shorter)

declare handle_buffer.simps [simp del]

text \<open>One round of \<^verbatim>\<open>handleResponses\<close>: a read of data and ancillary data, or an error.\<close>

definition handle_read ::
    "('f, 'a, 'm) unix_package \<Rightarrow> conn_env \<Rightarrow> (string \<times> 'a) result \<Rightarrow> 'f helper_client \<Rightarrow> 'f helper_client" where
  "handle_read ux env rd c =
     (if \<not> hc_reading c then c
      else
        (case rd of
           Inl e \<Rightarrow>
             if errors_is e ErrNetClosed then c\<lparr>hc_reading := False\<rparr>
             else stop_reading (Wrap ''failed to read from the local network helper'' e) c
         | Inr (buf, oob) \<Rightarrow> handle_buffer ux env oob buf c))"

text \<open>
  \<^verbatim>\<open>PrivilegedDialContext\<close>: with a global error it returns at once; otherwise the request is queued and the
  caller waits for its reply or the end of its context (\<open>ctx\<close> is its error, once it has ended). When both are
  there \<^verbatim>\<open>select\<close> picks either: \<open>pick_ctx\<close> is its choice. \<open>None\<close> stands for a caller that still waits.
\<close>

definition dial_start :: "'f helper_client \<Rightarrow> go_error option" where
  "dial_start c = hc_err c"

definition dial_wait :: "nat \<Rightarrow> go_error option \<Rightarrow> bool \<Rightarrow> 'f helper_client \<Rightarrow> 'f result option" where
  "dial_wait ch ctx pick_ctx c =
     (case (map_of (hc_replies c) ch, ctx) of
        (None, None) \<Rightarrow> None
      | (Some r, None) \<Rightarrow> Some r
      | (None, Some e) \<Rightarrow> Some (Inl e)
      | (Some r, Some e) \<Rightarrow> if pick_ctx then Some (Inl e) else Some r)"

section \<open>The server\<close>

text \<open>What \<^verbatim>\<open>net.Dial\<close> returns, and the errors of getting at the descriptor.\<close>

datatype 'f dialled =
    DialFailed string
  | TCPConn 'f "string option" "string option"
  | UDPConn 'f "string option" "string option"
  | OtherConn

text \<open>The response and the ancillary data that \<^verbatim>\<open>handleRequest\<close> writes.\<close>

definition serve_request ::
    "('f, 'a, 'm) unix_package \<Rightarrow> (string \<Rightarrow> string \<Rightarrow> 'f dialled) \<Rightarrow> socket_request \<Rightarrow> socket_response \<times> 'a" where
  "serve_request ux dial q =
     (let raw = (\<lambda>fd syscall_err control_err.
        (case syscall_err of
           Some e \<Rightarrow> (\<lparr>sp_token = sr_token q, sp_error = e\<rparr>, ux_none ux)
         | None \<Rightarrow>
             (case control_err of
                Some e \<Rightarrow> (\<lparr>sp_token = sr_token q, sp_error = e\<rparr>, ux_none ux)
              | None \<Rightarrow> (\<lparr>sp_token = sr_token q, sp_error = []\<rparr>, ux_rights ux fd))))
      in (case dial (sr_network q) (sr_addr q) of
            DialFailed e \<Rightarrow> (\<lparr>sp_token = sr_token q, sp_error = e\<rparr>, ux_none ux)
          | TCPConn fd se ce \<Rightarrow> raw fd se ce
          | UDPConn fd se ce \<Rightarrow> raw fd se ce
          | OtherConn \<Rightarrow> (\<lparr>sp_token = sr_token q, sp_error = ''unsupported net.Conn type''\<rparr>, ux_none ux)))"

text \<open>
  The inner loop of \<^verbatim>\<open>Serve\<close>: the requests of one buffer, each handed to a goroutine, and the error
  that ends the server, if any.
\<close>

function (sequential) serve_buffer :: "string \<Rightarrow> socket_request list \<times> go_error option" where
  "serve_buffer buf =
     (case decode_request buf of
        Inl e \<Rightarrow> if errors_is e ErrEOF then ([], None) else ([], Some (Wrap ''failed to unmarshal privileged socket request'' e))
      | Inr (q, rest) \<Rightarrow> apfst ((#) q) (serve_buffer rest))"
  by pat_completeness auto
termination
  by (relation "measure length") (auto dest: decode_request_shorter)

declare serve_buffer.simps [simp del]

text \<open>
  The outer loop over the reads: the requests started, in order, and how the server ended, if it
  did. A goroutine that failed to write its response ends it before the next read.
\<close>

fun serve_loop :: "(go_error option \<times> string result) list \<Rightarrow> socket_request list \<times> go_error option option" where
  "serve_loop [] = ([], None)"
| "serve_loop ((helper_err, rd) # rest) =
     (case helper_err of
        Some e \<Rightarrow> ([], Some (Some e))
      | None \<Rightarrow>
          (case rd of
             Inl e \<Rightarrow> ([], Some (if errors_is e ErrEOF then None else Some (Wrap ''failed to read from unix socket'' e)))
           | Inr buf \<Rightarrow>
               (case serve_buffer buf of
                  (qs, Some e) \<Rightarrow> (qs, Some (Some e))
                | (qs, None) \<Rightarrow> apfst ((@) qs) (serve_loop rest))))"

end
