(* ===== verification/HelperProps.thy ===== *)
theory HelperProps
  imports Helper "HOL-Library.Multiset"
begin

text \<open>
  Properties of the privileged helper: no reply is lost, duplicated or sent to the wrong caller,
  whatever the socket delivers; and every dial gets its own connection when messages arrive whole
  and ancillary data with the first message of a read.
\<close>

definition no_conn_errors :: conn_env where
  "no_conn_errors = \<lparr>cv_file_conn = None, cv_close = None\<rparr>"

text \<open>Ancillary data as the list of the sockets in each control message.\<close>

definition sample_unix :: "(nat, nat list list, nat list) unix_package" where
  "sample_unix = \<lparr>ux_none = [], ux_rights = (\<lambda>f. [[f]]), ux_parse_messages = Inr, ux_parse_rights = Inr\<rparr>"

section \<open>Every request is answered at most once\<close>




lemma set_err_simps [simp]:
  "hc_processed (set_err e c) = hc_processed c" "hc_replies (set_err e c) = hc_replies c"
  "hc_reading (set_err e c) = hc_reading c"
  by (simp_all add: set_err_def split: option.splits)

lemma stop_reading_simps [simp]:
  "hc_processed (stop_reading e c) = hc_processed c" "hc_replies (stop_reading e c) = hc_replies c"
  by (simp_all add: stop_reading_def)

lemma update_absent: "map_of xs k = None \<Longrightarrow> AList.update k v xs = xs @ [(k, v)]"
  by (induction xs) (auto split: if_splits)







section \<open>Whole messages\<close>

text \<open>
  What \<^verbatim>\<open>unix\<close> documents: the rights of one socket parse back as one control message with that
  socket, and no ancillary data parses as no message.
\<close>

definition unix_laws :: "('f, 'a, 'm) unix_package \<Rightarrow> bool" where
  "unix_laws ux \<longleftrightarrow> ux_parse_messages ux (ux_none ux) = Inr [] \<and>
     (\<forall>f. \<exists>m. ux_parse_messages ux (ux_rights ux f) = Inr [m] \<and> ux_parse_rights ux m = Inr [f])"

text \<open>One response handed to its caller.\<close>

definition deliver ::
    "('f, 'a, 'm) unix_package \<Rightarrow> conn_env \<Rightarrow> socket_response \<times> 'a \<Rightarrow> 'f helper_client \<Rightarrow> 'f helper_client" where
  "deliver ux env = (\<lambda>(p, oob) c.
     send_reply (dr_chan (the (map_of (hc_processed c) (sp_token p)))) (handle_response ux env (coerce_response p) oob)
       (c\<lparr>hc_processed := AList.delete (sp_token p) (hc_processed c)\<rparr>))"

definition response_bytes :: "(socket_response \<times> 'a) list \<Rightarrow> string" where
  "response_bytes ps = concat (map (\<lambda>p. marshal_response (fst p)) ps)"

definition tokens_ok :: "(socket_response \<times> 'a) list \<Rightarrow> 'f helper_client \<Rightarrow> bool" where
  "tokens_ok ps c \<longleftrightarrow> distinct (map (\<lambda>p. sp_token (fst p)) ps) \<and>
     (\<forall>p \<in> set ps. valid_utf8 (sp_token (fst p)) \<and> map_of (hc_processed c) (sp_token (fst p)) \<noteq> None)"

lemma deliver_simps [simp]:
  "hc_processed (deliver ux env p c) = AList.delete (sp_token (fst p)) (hc_processed c)"
  "hc_err (deliver ux env p c) = hc_err c" "hc_reading (deliver ux env p c) = hc_reading c"
  by (simp_all add: deliver_def send_reply_def case_prod_beta)

lemma tokens_ok_other: "tokens_ok (p # ps) c \<Longrightarrow> q \<in> set ps \<Longrightarrow> sp_token (fst q) \<noteq> sp_token (fst p)"
  unfolding tokens_ok_def by (metis (no_types, lifting) distinct.simps(2) image_eqI list.map(2) list.set_map)

lemma tokens_ok_Cons:
  assumes "tokens_ok (p # ps) c"
  shows "tokens_ok ps (deliver ux env p c)" and "valid_utf8 (sp_token (fst p))"
    and "\<exists>rq. map_of (hc_processed c) (sp_token (fst p)) = Some rq"
  using assms tokens_ok_other [OF assms] by (auto simp: tokens_ok_def)

lemma tokens_ok_prefix: "tokens_ok (ps @ qs) c \<Longrightarrow> tokens_ok ps c"
  by (auto simp: tokens_ok_def)

lemma handle_buffer_message:
  assumes "tokens_ok (p # ps) c"
  shows "handle_buffer ux env (snd p) (marshal_response (fst p) @ rest) c = handle_buffer ux env (ux_none ux) rest (deliver ux env p c)"
proof -
  from tokens_ok_Cons(2,3) [OF assms] obtain rq where "map_of (hc_processed c) (sp_token (fst p)) = Some rq"
    "valid_utf8 (sp_token (fst p))" by blast
  then show ?thesis
    by (simp add: handle_buffer.simps [of ux env "snd p"] decode_marshal_response coerce_response_def coerce_utf8_valid
        deliver_def case_prod_beta)
qed

lemma handle_buffer_messages:
  "tokens_ok ps c \<Longrightarrow> ps \<noteq> [] \<Longrightarrow> \<forall>p \<in> set (tl ps). snd p = ux_none ux \<Longrightarrow>
     handle_buffer ux env (snd (hd ps)) (response_bytes ps) c = fold (deliver ux env) ps c"
proof (induction ps arbitrary: c)
  case (Cons p ps)
  note step = handle_buffer_message [OF Cons.prems(1), of ux env "response_bytes ps"]
  show ?case
  proof (cases ps)
    case Nil
    with step show ?thesis by (simp add: response_bytes_def handle_buffer.simps [of ux env "ux_none ux" "[]"])
  next
    case (Cons q qs)
    with Cons.IH [OF tokens_ok_Cons(1) [OF Cons.prems(1)], of ux env] Cons.prems(3) step show ?thesis
      by (simp add: response_bytes_def)
  qed
qed simp

lemma tokens_ok_rest: "tokens_ok (ps @ qs) c \<Longrightarrow> tokens_ok qs (fold (deliver ux env) ps c)"
  by (induction ps arbitrary: c) (auto dest: tokens_ok_Cons(1))

lemma fold_deliver_frame [simp]:
  "hc_reading (fold (deliver ux env) ps c) = hc_reading c" "hc_err (fold (deliver ux env) ps c) = hc_err c"
  by (induction ps arbitrary: c) auto

text \<open>A read that returns whole messages, the ancillary data belonging to the first of them.\<close>

definition read_of :: "(socket_response \<times> 'a) list \<Rightarrow> (string \<times> 'a) result" where
  "read_of ps = Inr (response_bytes ps, snd (hd ps))"

definition whole_read :: "('f, 'a, 'm) unix_package \<Rightarrow> (socket_response \<times> 'a) list \<Rightarrow> bool" where
  "whole_read ux ps \<longleftrightarrow> ps \<noteq> [] \<and> (\<forall>p \<in> set (tl ps). snd p = ux_none ux)"

lemma handle_reads:
  "tokens_ok (concat pss) c \<Longrightarrow> list_all (whole_read ux) pss \<Longrightarrow> hc_reading c \<Longrightarrow>
     fold (handle_read ux env) (map read_of pss) c = fold (deliver ux env) (concat pss) c"
proof (induction pss arbitrary: c)
  case (Cons ps pss)
  have "tokens_ok ps c" "tokens_ok (concat pss) (fold (deliver ux env) ps c)"
    using tokens_ok_prefix [of ps "concat pss" c] tokens_ok_rest [of ps "concat pss" c ux env] Cons.prems(1) by auto
  with Cons handle_buffer_messages [of ps c ux env] show ?case
    by (simp add: read_of_def handle_read_def whole_read_def)
qed simp

lemma fold_deliver_replies:
  "tokens_ok ps c \<Longrightarrow>
     hc_processed (fold (deliver ux env) ps c) = filter (\<lambda>x. fst x \<notin> (\<lambda>p. sp_token (fst p)) ` set ps) (hc_processed c) \<and>
     hc_replies (fold (deliver ux env) ps c) =
       rev (map (\<lambda>p. (dr_chan (the (map_of (hc_processed c) (sp_token (fst p)))),
              handle_response ux env (coerce_response (fst p)) (snd p))) ps) @ hc_replies c"
proof (induction ps arbitrary: c)
  case (Cons p ps)
  have "map_of (AList.delete (sp_token (fst p)) (hc_processed c)) (sp_token (fst q)) = map_of (hc_processed c) (sp_token (fst q))"
    if "q \<in> set ps" for q
    using tokens_ok_other [OF Cons.prems that] by simp
  with Cons.IH [OF tokens_ok_Cons(1) [OF Cons.prems], of ux env] show ?case
    by (auto simp: AList_delete_filter deliver_def send_reply_def case_prod_beta filter_filter intro!: filter_cong map_cong)
qed simp

section \<open>From dial to connection\<close>

definition request_of :: "string \<times> dial_request \<Rightarrow> socket_request" where
  "request_of x = \<lparr>sr_token = fst x, sr_network = dr_network (snd x), sr_addr = dr_addr (snd x)\<rparr>"

definition request_bytes :: "socket_request list \<Rightarrow> string" where
  "request_bytes qs = concat (map marshal_request qs)"

definition submit_all :: "(string \<times> dial_request) list \<Rightarrow> 'f helper_client \<Rightarrow> 'f helper_client" where
  "submit_all xs = fold (\<lambda>(token, rq). handle_request token None rq) xs"

definition dialled_conn :: "'f dialled \<Rightarrow> 'f option" where
  "dialled_conn d = (case d of TCPConn f None None \<Rightarrow> Some f | UDPConn f None None \<Rightarrow> Some f | _ \<Rightarrow> None)"

lemma submit_all_state:
  "distinct (map fst (hc_processed c @ xs)) \<Longrightarrow>
     submit_all xs c = c\<lparr>hc_processed := hc_processed c @ xs, hc_sent := hc_sent c @ request_bytes (map request_of xs)\<rparr>"
proof (induction xs arbitrary: c)
  case (Cons x xs)
  obtain token rq where x: "x = (token, rq)" by fastforce
  have "map_of (hc_processed c) token = None" using Cons.prems x by (auto simp: map_of_eq_None_iff)
  then have "handle_request token None rq c =
      c\<lparr>hc_processed := hc_processed c @ [x], hc_sent := hc_sent c @ marshal_request (request_of x)\<rparr>"
    by (simp add: handle_request_def Let_def update_absent request_of_def x)
  with Cons.IH [of "handle_request token None rq c"] Cons.prems x show ?case
    by (simp add: submit_all_def request_bytes_def)
qed (simp add: submit_all_def request_bytes_def)

lemma serve_buffer_messages: "serve_buffer (request_bytes qs) = (map coerce_request qs, None)"
  by (induction qs) (simp_all add: request_bytes_def serve_buffer.simps [of "marshal_request _ @ _"] serve_buffer.simps [of "[]"]
      decode_marshal_request)

lemma serve_loop_messages:
  "serve_loop (map (\<lambda>qs. (None, Inr (request_bytes qs))) qss) = (map coerce_request (concat qss), None)"
  by (induction qss) (simp_all add: serve_buffer_messages)

lemma serve_request_token [simp]: "sp_token (fst (serve_request ux dial q)) = sr_token q"
  by (simp add: serve_request_def Let_def split: dialled.splits option.splits)

lemma response_outcome:
  assumes "unix_laws ux"
    and p: "p = serve_request ux dial q"
  shows "case dialled_conn (dial (sr_network q) (sr_addr q)) of
      Some f \<Rightarrow> handle_response ux no_conn_errors (coerce_response (fst p)) (snd p) = Inr f
    | None \<Rightarrow> isl (handle_response ux no_conn_errors (coerce_response (fst p)) (snd p))"
proof -
  have none: "isl (handle_response ux no_conn_errors r (ux_none ux))" for r
    using assms(1) by (simp add: unix_laws_def handle_response_def)
  have some: "handle_response ux no_conn_errors (coerce_response \<lparr>sp_token = t, sp_error = []\<rparr>) (ux_rights ux f) = Inr f" for t f
  proof -
    from assms(1) obtain m where "ux_parse_messages ux (ux_rights ux f) = Inr [m]" "ux_parse_rights ux m = Inr [f]"
      unfolding unix_laws_def by blast
    then show ?thesis by (simp add: handle_response_def coerce_response_def no_conn_errors_def)
  qed
  show ?thesis unfolding p
    by (cases "dial (sr_network q) (sr_addr q)")
      (auto simp: serve_request_def dialled_conn_def Let_def none some split: option.splits)
qed

lemma request_bytes_concat: "request_bytes (concat qss) = concat (map request_bytes qss)"
  by (induction qss) (simp_all add: request_bytes_def)

text \<open>Responses in any order reach the callers whose tokens they carry.\<close>

lemma deliver_permuted:
  assumes tokens: "distinct (map fst xs)" and chans: "distinct (map (\<lambda>x. dr_chan (snd x)) xs)"
    and utf8: "\<forall>x \<in> set xs. valid_utf8 (fst x)" and P: "\<And>x. sp_token (fst (P x)) = fst x"
    and m: "mset ps = mset (map P xs)" and c: "hc_processed c = xs" "hc_replies c = []"
  shows "tokens_ok ps c" and "hc_processed (fold (deliver ux env) ps c) = []"
    and "x \<in> set xs \<Longrightarrow> map_of (hc_replies (fold (deliver ux env) ps c)) (dr_chan (snd x)) =
      Some (handle_response ux env (coerce_response (fst (P x))) (snd (P x)))"
proof -
  let ?tok = "\<lambda>p. sp_token (fst p)" and ?c = "fold (deliver ux env) ps c"
  have toks: "mset (map ?tok ps) = mset (map fst xs)"
    using arg_cong [OF m, of "image_mset ?tok"] by (simp add: multiset.map_comp comp_def P)
  have mem: "p \<in> set ps \<longleftrightarrow> p \<in> P ` set xs" for p using mset_eq_setD [OF m] by simp
  show ok: "tokens_ok ps c"
    unfolding tokens_ok_def c(1)
  proof (intro conjI ballI)
    show "distinct (map ?tok ps)" using toks tokens by (metis mset_eq_imp_distinct_iff)
    fix p assume "p \<in> set ps"
    then obtain x where x: "x \<in> set xs" "p = P x" using mem by blast
    then show "valid_utf8 (?tok p)" "map_of xs (?tok p) \<noteq> None"
      unfolding x(2) P map_of_eq_None_iff using utf8 by auto
  qed
  note fin = fold_deliver_replies [OF ok, of ux env]
  have "set (map ?tok ps) = fst ` set xs" using mset_eq_setD [OF toks] by simp
  then show "hc_processed ?c = []" using fin by (auto simp: c filter_empty_conv)
  let ?ch = "\<lambda>p. dr_chan (the (map_of xs (?tok p)))"
  let ?r = "\<lambda>p. (?ch p, handle_response ux env (coerce_response (fst p)) (snd p))"
  have rep: "hc_replies ?c = rev (map ?r ps)" using fin by (simp add: c)
  have chan: "?ch (P x) = dr_chan (snd x)" if "x \<in> set xs" for x
    using that tokens unfolding P by (metis map_of_is_SomeI option.sel prod.collapse)
  have "mset (map fst (hc_replies ?c)) = image_mset ?ch (mset ps)"
    by (simp add: rep multiset.map_comp comp_def)
  also have "\<dots> = mset (map (\<lambda>x. dr_chan (snd x)) xs)"
    unfolding m using chan by (simp add: multiset.map_comp comp_def) (rule image_mset_cong, simp)
  finally have dist: "distinct (map fst (hc_replies ?c))" using chans by (metis mset_eq_imp_distinct_iff)
  show "map_of (hc_replies ?c) (dr_chan (snd x)) = Some (handle_response ux env (coerce_response (fst (P x))) (snd (P x)))"
    if "x \<in> set xs"
  proof -
    have "?r (P x) \<in> set (hc_replies ?c)" using mem that unfolding rep by (metis (no_types, lifting) image_eqI set_map set_rev)
    then show ?thesis using dist chan [OF that] by simp
  qed
qed

text \<open>
  C17. Every dial gets its own connection. Let any number of dials be in flight, the helper read the
  requests cut at any message boundaries and finish them in any order, and all writes succeed. Let every read of
  the responses return whole messages, one or more, of which at most the first has ancillary data (a split message and
  ancillary data of a later one are the cases of \<^verbatim>\<open>split_response_fatal\<close> and \<^verbatim>\<open>merged_ancillary_lost\<close>). Then the
  helper keeps running, no error is raised, no request stays unanswered, and every caller
  receives the socket that was dialled for its own network and address, or an error if that dial failed.
\<close>

theorem helper_delivers:
  assumes laws: "unix_laws ux" and tokens: "distinct (map fst xs)" and chans: "distinct (map (\<lambda>x. dr_chan (snd x)) xs)"
    and utf8: "\<forall>x \<in> set xs. valid_utf8 (fst x) \<and> valid_utf8 (dr_network (snd x)) \<and> valid_utf8 (dr_addr (snd x))"
    and requests: "concat qss = map request_of xs"
    and served: "serve_loop (map (\<lambda>qs. (None, Inr (request_bytes qs))) qss) = (started, ended)"
    and responses: "mset (concat pss) = mset (map (serve_request ux dial) started)" and reads: "list_all (whole_read ux) pss"
    and client: "c = submit_all xs client_new"
    and final: "c' = fold (handle_read ux no_conn_errors) (map read_of pss) c"
  shows "hc_sent c = concat (map request_bytes qss) \<and> ended = None \<and> hc_err c' = None \<and> hc_processed c' = [] \<and>
    (\<forall>x \<in> set xs. \<exists>r. map_of (hc_replies c') (dr_chan (snd x)) = Some r \<and>
       (case dialled_conn (dial (dr_network (snd x)) (dr_addr (snd x))) of Some f \<Rightarrow> r = Inr f | None \<Rightarrow> isl r))"
proof -
  let ?P = "\<lambda>x. serve_request ux dial (request_of x)"
  have "map coerce_request (map request_of xs) = map request_of xs"
    using utf8 by (simp add: coerce_request_def request_of_def coerce_utf8_valid)
  with served have st: "started = map request_of xs" "ended = None"
    unfolding serve_loop_messages requests by simp_all
  have m: "mset (concat pss) = mset (map ?P xs)" using responses by (simp add: st multiset.map_comp comp_def)
  have c: "hc_processed c = xs" "hc_replies c = []" "hc_reading c" "hc_err c = None" "hc_sent c = request_bytes (map request_of xs)"
    using tokens unfolding client by (simp_all add: submit_all_state client_new_def)
  have P: "sp_token (fst (?P x)) = fst x" for x by (simp add: request_of_def)
  have v: "\<forall>x \<in> set xs. valid_utf8 (fst x)" using utf8 by blast
  note del = deliver_permuted [OF tokens chans v P m c(1,2)]
  have c': "c' = fold (deliver ux no_conn_errors) (concat pss) c"
    using handle_reads [OF del(1) reads c(3)] final by simp
  have "\<exists>r. map_of (hc_replies c') (dr_chan (snd x)) = Some r \<and>
      (case dialled_conn (dial (dr_network (snd x)) (dr_addr (snd x))) of Some f \<Rightarrow> r = Inr f | None \<Rightarrow> isl r)" if "x \<in> set xs" for x
    using del(3) [OF that, of ux no_conn_errors] response_outcome [OF laws refl, of dial "request_of x"]
    by (auto simp: c' request_of_def split: option.splits)
  moreover have "hc_sent c = concat (map request_bytes qss)" by (simp add: c(5) flip: requests request_bytes_concat)
  ultimately show ?thesis using st(2) del(2) [of ux no_conn_errors] c(4) by (simp add: c')
qed

definition sample_dial :: "string \<Rightarrow> string \<Rightarrow> nat dialled" where
  "sample_dial network addr = (if addr = ''a:1'' then TCPConn 5 None None else DialFailed ''refused'')"

definition sample_dials :: "(string \<times> dial_request) list" where
  "sample_dials = [(''s'', \<lparr>dr_network = ''tcp'', dr_addr = ''b:1'', dr_chan = 2\<rparr>),
                   (''t'', \<lparr>dr_network = ''tcp'', dr_addr = ''a:1'', dr_chan = 1\<rparr>)]"

theorem helper_delivers_witness:
  "\<exists>c' e. c' = fold (handle_read sample_unix no_conn_errors)
      (map read_of [map (serve_request sample_unix sample_dial) (map request_of (rev sample_dials))])
      (submit_all sample_dials client_new) \<and>
    hc_processed c' = [] \<and> map_of (hc_replies c') 1 = Some (Inr 5) \<and> map_of (hc_replies c') 2 = Some (Inl e)"
proof -
  let ?ps = "map (serve_request sample_unix sample_dial) (map request_of (rev sample_dials))"
  have "unix_laws sample_unix" by (simp add: unix_laws_def sample_unix_def)
  moreover have "\<forall>x \<in> set sample_dials. valid_utf8 (fst x) \<and> valid_utf8 (dr_network (snd x)) \<and> valid_utf8 (dr_addr (snd x))"
    by (simp add: sample_dials_def valid_utf8_ascii is_ascii_def)
  moreover have "serve_loop (map (\<lambda>qs. (None, Inr (request_bytes qs))) [map request_of sample_dials]) = (map request_of sample_dials, None)"
    using calculation(2) by (simp only: serve_loop_messages) (simp add: coerce_request_def request_of_def coerce_utf8_valid)
  moreover have "list_all (whole_read sample_unix) [?ps]"
    by (simp add: whole_read_def sample_dials_def serve_request_def sample_dial_def request_of_def sample_unix_def)
  ultimately show ?thesis
    using helper_delivers [of sample_unix sample_dials "[map request_of sample_dials]" "map request_of sample_dials" None "[?ps]"
        sample_dial "submit_all sample_dials client_new"
        "fold (handle_read sample_unix no_conn_errors) (map read_of [?ps]) (submit_all sample_dials client_new)"]
    by (auto simp: sample_dials_def sample_dial_def dialled_conn_def isl_def add_mset_commute)
qed

section \<open>Where the assumptions matter\<close>

text \<open>
  The decoder starts afresh with every read: a response cut in two by the 4096-byte buffer or by the socket ends the
  reader for good, while the caller keeps waiting.
\<close>

lemma split_response_fatal:
  "\<exists>e. let c = submit_all sample_dials client_new;
          c' = handle_read sample_unix no_conn_errors (Inr (take 9 (marshal_response \<lparr>sp_token = ''t'', sp_error = []\<rparr>), [[5]])) c
       in hc_err c' = Some e \<and> \<not> hc_reading c' \<and> hc_processed c' = hc_processed c \<and> hc_replies c' = []"
proof -
  have "\<exists>e. decode_response (take 9 (marshal_response \<lparr>sp_token = ''t'', sp_error = []\<rparr>)) = Inl e \<and> \<not> errors_is e ErrEOF"
  proof -
    have "decode_response (take 9 (marshal_response \<lparr>sp_token = ''t'', sp_error = []\<rparr>)) =
        Inl (Errorf ''json: unexpected EOF or syntax error'')" by code_simp
    then show ?thesis by simp
  qed
  then show ?thesis
    by (auto simp: submit_all_state client_new_def sample_dials_def handle_read_def handle_buffer.simps Let_def
        stop_reading_def set_err_def)
qed

text \<open>
  Ancillary data that arrives with the second message of a read is dropped: after a failed dial, the
  socket of the next one is lost and its caller gets an error.
\<close>

lemma merged_ancillary_lost:
  "map_of (hc_replies (handle_read sample_unix no_conn_errors
      (Inr (response_bytes (map (\<lambda>x. serve_request sample_unix sample_dial (request_of x)) sample_dials), [[5]]))
      (submit_all sample_dials client_new))) 1 = Some (Inl (Errorf ''expected exactly one socket control message''))"
proof -
  have v: "coerce_utf8 ''s'' = ''s''" "coerce_utf8 ''t'' = ''t''" "coerce_utf8 ''refused'' = ''refused''"
    by (simp_all add: coerce_utf8_valid valid_utf8_ascii is_ascii_def)
  show ?thesis
    using decode_marshal_response [of "\<lparr>sp_token = ''s'', sp_error = ''refused''\<rparr>"]
      decode_marshal_response [of "\<lparr>sp_token = ''t'', sp_error = []\<rparr>" "[]"]
    by (simp add: submit_all_state client_new_def sample_dials_def handle_read_def handle_buffer.simps response_bytes_def
        serve_request_def sample_dial_def request_of_def Let_def coerce_response_def v send_reply_def handle_response_def
        sample_unix_def)
qed

end
