(* ===== verification/HelperCalls.thy ===== *)
theory HelperCalls
  imports HelperProps
begin







section \<open>Calls and requests\<close>












section \<open>The outcome of a call\<close>












end
