(* ===== verification/HelperNew.thy ===== *)
theory HelperNew
  imports Helper
begin

text \<open>
  Starting the privileged helper: the socket pair, its descriptors and the child process of \<^verbatim>\<open>New\<close>
  (\<^verbatim>\<open>localnetworkhelper.go\<close>), and the child's end in \<^verbatim>\<open>Serve\<close> (\<^verbatim>\<open>serve.go\<close>). The client notices that the helper is gone,
  and the helper that the client is, only when no other process holds an end of the pair.
\<close>

section \<open>Descriptors\<close>

text \<open>A descriptor refers to one of the two ends of the socket pair, or to something else; the flag is \<^verbatim>\<open>FD_CLOEXEC\<close>.\<close>

datatype descriptor = SocketEnd bool | OtherFile

type_synonym fd_table = "(nat \<times> descriptor \<times> bool) list"

definition fds :: "fd_table \<Rightarrow> nat set" where
  "fds t = fst ` set t"

definition set_cloexec :: "nat \<Rightarrow> fd_table \<Rightarrow> fd_table" where
  "set_cloexec fd t = map (\<lambda>(n, d, c). (n, d, c \<or> n = fd)) t"

definition close_fd :: "nat \<Rightarrow> fd_table \<Rightarrow> fd_table" where
  "close_fd fd t = filter (\<lambda>x. fst x \<noteq> fd) t"

text \<open>\<^verbatim>\<open>net.FileConn\<close> duplicates a descriptor and sets \<^verbatim>\<open>FD_CLOEXEC\<close> on the copy.\<close>

definition dup_fd :: "nat \<Rightarrow> nat \<Rightarrow> fd_table \<Rightarrow> fd_table" where
  "dup_fd fd new t = (case map_of t fd of None \<Rightarrow> t | Some (d, _) \<Rightarrow> t @ [(new, d, True)])"

text \<open>
  What a child inherits that is started by \<^verbatim>\<open>exec.Cmd\<close> with one extra file: the standard streams, the extra file as
  descriptor 3, and every further descriptor without \<^verbatim>\<open>FD_CLOEXEC\<close>.
\<close>

definition exec_child :: "nat \<Rightarrow> fd_table \<Rightarrow> fd_table" where
  "exec_child extra t =
     [(0, OtherFile, False), (1, OtherFile, False), (2, OtherFile, False)] @
     (case map_of t extra of None \<Rightarrow> [] | Some (d, _) \<Rightarrow> [(3, d, False)]) @
     filter (\<lambda>(n, d, c). \<not> c \<and> 3 < n) t"

definition holders :: "bool \<Rightarrow> fd_table \<Rightarrow> nat" where
  "holders e t = length (filter (\<lambda>x. fst (snd x) = SocketEnd e) t)"

section \<open>New and Serve\<close>

text \<open>What the system calls of \<^verbatim>\<open>New\<close> return.\<close>

record new_env =
  ne_socketpair :: "(nat \<times> nat) result"
  ne_cloexec0 :: "go_error option"
  ne_cloexec1 :: "go_error option"
  ne_executable :: "go_error option"
  ne_start :: "go_error option"
  ne_close1 :: "go_error option"
  ne_file_conn :: "nat result"
  ne_close0 :: "go_error option"
  ne_is_unix :: bool

text \<open>The second half of \<^verbatim>\<open>New\<close>: our end becomes a connection, and the goroutines start.\<close>

definition new_conn :: "new_env \<Rightarrow> nat \<Rightarrow> fd_table \<Rightarrow> (nat \<times> 'f helper_client) result \<times> fd_table" where
  "new_conn env fd0 t =
     (case ne_file_conn env of
        Inl e \<Rightarrow> (Inl e, t)
      | Inr conn \<Rightarrow>
          (let t1 = close_fd fd0 (dup_fd fd0 conn t)
           in (case ne_close0 env of
                 Some e \<Rightarrow> (Inl e, t1)
               | None \<Rightarrow>
                   if \<not> ne_is_unix env then (Inl (Errorf ''expected *net.UnixConn''), t1)
                   else (Inr (conn, client_new), t1))))"

text \<open>The result, our descriptors afterwards and those of the child, if one was started.\<close>

definition helper_new ::
    "new_env \<Rightarrow> fd_table \<Rightarrow> (nat \<times> 'f helper_client) result \<times> fd_table \<times> fd_table option" where
  "helper_new env t =
     (case ne_socketpair env of
        Inl e \<Rightarrow> (Inl e, t, None)
      | Inr (fd0, fd1) \<Rightarrow>
          (let t0 = t @ [(fd0, SocketEnd False, False), (fd1, SocketEnd True, False)]
           in (case ne_cloexec0 env of
                 Some e \<Rightarrow> (Inl (Wrap ''failed to set FD_CLOEXEC on a first socketpair(2) socket'' e), t0, None)
               | None \<Rightarrow>
                   (let t1 = set_cloexec fd0 t0
                    in (case ne_cloexec1 env of
                          Some e \<Rightarrow> (Inl (Wrap ''failed to set FD_CLOEXEC on a second socketpair(2) socket'' e), t1, None)
                        | None \<Rightarrow>
                            (let t2 = set_cloexec fd1 t1
                             in (case ne_executable env of
                                   Some e \<Rightarrow> (Inl e, t2, None)
                                 | None \<Rightarrow>
                                     (case ne_start env of
                                        Some e \<Rightarrow> (Inl e, t2, None)
                                      | None \<Rightarrow>
                                          (let child = exec_child fd1 t2; t3 = close_fd fd1 t2
                                           in (case ne_close1 env of
                                                 Some e \<Rightarrow> (Inl e, t3, Some child)
                                               | None \<Rightarrow> (case new_conn env fd0 t3 of (r, t4) \<Rightarrow> (r, t4, Some child))))))))))))"

text \<open>The start of \<^verbatim>\<open>Serve\<close> in the child, which the command calls with descriptor 3.\<close>

record serve_env =
  se_file_conn :: "nat result"
  se_close :: "go_error option"
  se_is_unix :: bool

definition serve_start :: "serve_env \<Rightarrow> nat \<Rightarrow> fd_table \<Rightarrow> nat result \<times> fd_table" where
  "serve_start env fd t =
     (case se_file_conn env of
        Inl e \<Rightarrow> (Inl e, t)
      | Inr conn \<Rightarrow>
          (let t1 = close_fd fd (dup_fd fd conn t)
           in (case se_close env of
                 Some e \<Rightarrow> (Inl e, t1)
               | None \<Rightarrow> if \<not> se_is_unix env then (Inl (Errorf ''expected *net.UnixConn''), t1) else (Inr conn, t1))))"

text \<open>\<^verbatim>\<open>Close\<close> of the client: no more requests, and the connection is closed.\<close>

definition helper_close :: "nat \<Rightarrow> fd_table \<Rightarrow> fd_table" where
  "helper_close conn t = close_fd conn t"

section \<open>Each end of the pair has one holder\<close>

lemma holders_append [simp]: "holders e (t @ u) = holders e t + holders e u"
  by (simp add: holders_def)

lemma holders_Cons [simp]: "holders e ((n, d, c) # t) = (if d = SocketEnd e then Suc (holders e t) else holders e t)"
  by (simp add: holders_def)

lemma holders_Nil [simp]: "holders e [] = 0"
  by (simp add: holders_def)

lemma holders_zero: "holders e t = 0 \<longleftrightarrow> (\<forall>x \<in> set t. fst (snd x) \<noteq> SocketEnd e)"
  by (auto simp: holders_def filter_empty_conv)

lemma fd_absent:
  assumes "fd \<notin> fds t"
  shows "close_fd fd t = t" and "set_cloexec fd t = t" and "map_of t fd = None"
proof -
  have "fst x \<noteq> fd" if "x \<in> set t" for x using assms that by (auto simp: fds_def)
  then show "close_fd fd t = t" by (simp add: close_fd_def filter_id_conv)
  show "set_cloexec fd t = t" using assms by (force simp: set_cloexec_def fds_def intro!: map_idI)
  show "map_of t fd = None" using assms by (simp add: fds_def map_of_eq_None_iff)
qed

lemma close_fd_simps [simp]:
  "close_fd fd (t @ u) = close_fd fd t @ close_fd fd u" "close_fd fd [] = []"
  "close_fd fd ((n, x) # t) = (if n = fd then close_fd fd t else (n, x) # close_fd fd t)"
  by (simp_all add: close_fd_def)

lemma set_cloexec_simps [simp]:
  "set_cloexec fd (t @ u) = set_cloexec fd t @ set_cloexec fd u" "set_cloexec fd [] = []"
  "set_cloexec fd ((n, d, c) # t) = (n, d, c \<or> n = fd) # set_cloexec fd t"
  by (simp_all add: set_cloexec_def)

text \<open>
  What the kernel and the Go runtime promise: new descriptors are unused ones, and every descriptor of the process
  other than the standard streams has \<^verbatim>\<open>FD_CLOEXEC\<close>.
\<close>

definition fresh_pair :: "new_env \<Rightarrow> fd_table \<Rightarrow> bool" where
  "fresh_pair env t \<longleftrightarrow> (case ne_socketpair env of
     Inl _ \<Rightarrow> True
   | Inr (fd0, fd1) \<Rightarrow> fd0 \<notin> fds t \<and> fd1 \<notin> fds t \<and> fd0 \<noteq> fd1 \<and>
       (case ne_file_conn env of Inl _ \<Rightarrow> True | Inr conn \<Rightarrow> conn \<notin> fds t \<and> conn \<noteq> fd0))"

definition go_process :: "fd_table \<Rightarrow> bool" where
  "go_process t \<longleftrightarrow> (\<forall>(n, d, c) \<in> set t. (2 < n \<longrightarrow> c) \<and> d = OtherFile)"

lemma go_process_child: "go_process t \<Longrightarrow> filter (\<lambda>(n, d, c). \<not> c \<and> 3 < n) t = []"
  unfolding filter_empty_conv go_process_def by fastforce

lemma go_process_holders: "go_process t \<Longrightarrow> holders e t = 0"
  unfolding holders_zero go_process_def by fastforce

lemma helper_new_success:
  assumes "helper_new env t = (Inr (conn, c), t', Some child)" and "fresh_pair env t" and "go_process t"
  shows "t' = t @ [(conn, SocketEnd False, True)]"
    and "child = [(0, OtherFile, False), (1, OtherFile, False), (2, OtherFile, False), (3, SocketEnd True, False)]"
    and "c = client_new" and "conn \<notin> fds t"
proof -
  from assms(1) obtain fd0 fd1 where p: "ne_socketpair env = Inr (fd0, fd1)" and f: "ne_file_conn env = Inr conn"
    and r: "t' = close_fd fd0 (dup_fd fd0 conn (close_fd fd1 (set_cloexec fd1 (set_cloexec fd0
        (t @ [(fd0, SocketEnd False, False), (fd1, SocketEnd True, False)])))))"
      "child = exec_child fd1 (set_cloexec fd1 (set_cloexec fd0 (t @ [(fd0, SocketEnd False, False), (fd1, SocketEnd True, False)])))"
      "c = client_new"
    by (auto simp: helper_new_def new_conn_def Let_def split: sum.splits prod.splits option.splits if_splits)
  have fresh: "fd0 \<notin> fds t" "fd1 \<notin> fds t" "fd0 \<noteq> fd1" "conn \<noteq> fd0" using assms(2) by (auto simp: fresh_pair_def p f)
  show "c = client_new" by (rule r)
  show "conn \<notin> fds t" using assms(2) by (simp add: fresh_pair_def p f)
  show "t' = t @ [(conn, SocketEnd False, True)]"
    using fresh by (simp add: r(1) dup_fd_def fd_absent map_add_def)
  show "child = [(0, OtherFile, False), (1, OtherFile, False), (2, OtherFile, False), (3, SocketEnd True, False)]"
    using fresh go_process_child [OF assms(3)] by (simp add: r(2) exec_child_def fd_absent map_add_def)
qed

text \<open>
  C34. Starting the helper leaks no descriptor. When \<^verbatim>\<open>New\<close> succeeds the process holds, besides what it held before,
  exactly one descriptor of its own end of the socket pair and none of the child's; once the child has started to
  serve, it holds the standard streams and exactly one descriptor of its end, and none of the parent's or of
  any other file of the parent. So after \<^verbatim>\<open>Close\<close> nobody holds the parent's end and the child reads the end
  of its input, and a child that exits closes the last descriptor of its end.
\<close>

theorem helper_new_exclusive:
  assumes "helper_new env t = (Inr (conn, c), t', child)" and "fresh_pair env t" and "go_process t"
  shows "\<exists>ch. child = Some ch \<and> t' = t @ [(conn, SocketEnd False, True)] \<and>
    holders False t' = 1 \<and> holders True t' = 0 \<and> helper_close conn t' = t \<and> holders False t = 0 \<and>
    (\<forall>senv conn' ch'. serve_start senv 3 ch = (Inr conn', ch') \<and> conn' \<notin> fds ch \<longrightarrow>
       fds ch' = {0, 1, 2, conn'} \<and> holders True ch' = 1 \<and> holders False ch' = 0)"
proof -
  obtain ch where ch: "child = Some ch"
    using assms(1) by (auto simp: helper_new_def Let_def split: sum.splits prod.splits option.splits if_splits)
  note new = helper_new_success [OF assms(1) [unfolded ch] assms(2,3)]
  have "fds ch' = {0, 1, 2, conn'} \<and> holders True ch' = 1 \<and> holders False ch' = 0"
    if "serve_start senv 3 ch = (Inr conn', ch')" and "conn' \<notin> fds ch" for senv conn' ch'
  proof -
    have "conn' \<noteq> 3" using that(2) by (auto simp: new(2) fds_def)
    moreover have "ch' = close_fd 3 (dup_fd 3 conn' ch)"
      using that(1) by (auto simp: serve_start_def Let_def split: sum.splits option.splits if_splits)
    ultimately show ?thesis by (auto simp: new(2) dup_fd_def fds_def)
  qed
  with ch new(1) go_process_holders [OF assms(3)] show ?thesis 
    by (auto simp: helper_close_def fd_absent(1) [OF new(4)])
qed

definition sample_new_env :: new_env where
  "sample_new_env =
     \<lparr>ne_socketpair = Inr (3, 4), ne_cloexec0 = None, ne_cloexec1 = None, ne_executable = None, ne_start = None,
      ne_close1 = None, ne_file_conn = Inr 5, ne_close0 = None, ne_is_unix = True\<rparr>"

definition sample_fds :: fd_table where
  "sample_fds = [(0, OtherFile, False), (1, OtherFile, False), (2, OtherFile, False), (6, OtherFile, True)]"

theorem helper_new_exclusive_witness:
  "\<exists>t' ch. (helper_new sample_new_env sample_fds :: (nat \<times> nat helper_client) result \<times> fd_table \<times> fd_table option) =
      (Inr (5, client_new), t', Some ch) \<and> holders False t' = 1 \<and> holders True t' = 0 \<and>
    (\<exists>ch'. serve_start \<lparr>se_file_conn = Inr 4, se_close = None, se_is_unix = True\<rparr> 3 ch = (Inr 4, ch') \<and>
       fds ch' = {0, 1, 2, 4} \<and> holders True ch' = 1 \<and> holders False ch' = 0)"
proof -
  let ?senv = "\<lparr>se_file_conn = Inr 4, se_close = None, se_is_unix = True\<rparr> :: serve_env"
  obtain t' child where h: "(helper_new sample_new_env sample_fds :: (nat \<times> nat helper_client) result \<times> fd_table \<times> fd_table option) =
      (Inr (5, client_new), t', child)"
    by (auto simp: helper_new_def new_conn_def sample_new_env_def Let_def)
  have laws: "fresh_pair sample_new_env sample_fds" "go_process sample_fds"
    by (simp_all add: fresh_pair_def sample_new_env_def sample_fds_def fds_def go_process_def)
  from helper_new_exclusive [OF h laws] obtain ch where ch: "child = Some ch"
    and ex: "holders False t' = 1" "holders True t' = 0"
      "\<forall>senv conn' ch'. serve_start senv 3 ch = (Inr conn', ch') \<and> conn' \<notin> fds ch \<longrightarrow>
         fds ch' = {0, 1, 2, conn'} \<and> holders True ch' = 1 \<and> holders False ch' = 0"
    by blast
  from helper_new_success(2) [OF h [unfolded ch] laws] have "4 \<notin> fds ch" by (simp add: fds_def)
  moreover obtain ch' where "serve_start ?senv 3 ch = (Inr 4, ch')" by (simp add: serve_start_def Let_def)
  ultimately show ?thesis using h ch ex by blast
qed

end
