(* ===== verification/Privdrop.thy ===== *)
theory Privdrop
  imports GoNet "HOL-Library.Word"
begin

text \<open>
  \<^verbatim>\<open>pkg/privdrop\<close>: giving up root. The credentials of the process are its real, effective and saved user
  and group identifiers, 32 bits wide, and its supplementary groups; the system calls follow
  \<^verbatim>\<open>setreuid(2)\<close> and \<^verbatim>\<open>setregid(2)\<close>, where the argument -1 leaves an identifier alone.
\<close>

type_synonym id32 = "32 word"

record process =
  p_ruid :: id32
  p_euid :: id32
  p_suid :: id32
  p_rgid :: id32
  p_egid :: id32
  p_sgid :: id32
  p_groups :: "id32 list"
  p_home :: string

definition eperm :: go_error where
  "eperm = Errorf ''operation not permitted''"

text \<open>
  \<^verbatim>\<open>setregid(g, g)\<close> and \<^verbatim>\<open>setreuid(u, u)\<close>: root may set anything, others only one of the identifiers they have.
  Setting the real identifier sets the saved one to the new effective one.
\<close>

definition setregid :: "int \<Rightarrow> process \<Rightarrow> go_error option \<times> process" where
  "setregid n p =
     (let g = of_int n :: id32 in
      if g = -1 then (None, p)
      else if p_euid p = 0 \<or> g \<in> {p_rgid p, p_egid p} then (None, p\<lparr>p_rgid := g, p_egid := g, p_sgid := g\<rparr>)
      else (Some eperm, p))"

definition setreuid :: "int \<Rightarrow> process \<Rightarrow> go_error option \<times> process" where
  "setreuid n p =
     (let u = of_int n :: id32 in
      if u = -1 then (None, p)
      else if p_euid p = 0 \<or> u \<in> {p_ruid p, p_euid p} then (None, p\<lparr>p_ruid := u, p_euid := u, p_suid := u\<rparr>)
      else (Some eperm, p))"

text \<open>An entry of the user database, as \<^verbatim>\<open>os/user\<close> returns it.\<close>

record user_entry =
  us_uid :: string
  us_gid :: string
  us_home :: string

definition ErrFailed :: go_error where
  "ErrFailed = Errorf ''failed to drop privileges''"

text \<open>\<^verbatim>\<open>Drop\<close>; \<open>setenv\<close> is the error of setting \<^verbatim>\<open>HOME\<close>.\<close>

definition drop_privileges ::
    "(string \<Rightarrow> user_entry result) \<Rightarrow> (string \<Rightarrow> go_error option) \<Rightarrow> string \<Rightarrow> process \<Rightarrow> go_error option \<times> process" where
  "drop_privileges lookup setenv username p =
     (case lookup username of
        Inl _ \<Rightarrow> (Some (Wrap ''failed to lookup username'' ErrFailed), p)
      | Inr user \<Rightarrow>
          (case atoi (us_gid user) of
             None \<Rightarrow> (Some (Wrap ''failed to parse group ID'' ErrFailed), p)
           | Some gid \<Rightarrow>
               (case setregid gid p of
                  (Some _, p1) \<Rightarrow> (Some (Wrap ''failed to set real and effective group ID'' ErrFailed), p1)
                | (None, p1) \<Rightarrow>
                    (case setenv (us_home user) of
                       Some _ \<Rightarrow> (Some (Wrap ''failed to set new HOME'' ErrFailed), p1)
                     | None \<Rightarrow>
                         (let p2 = p1\<lparr>p_home := us_home user\<rparr> in
                          case atoi (us_uid user) of
                            None \<Rightarrow> (Some (Wrap ''failed to parse user ID'' ErrFailed), p2)
                          | Some uid \<Rightarrow>
                              (case setreuid uid p2 of
                                 (Some _, p3) \<Rightarrow> (Some (Wrap ''failed to set real and effective user ID'' ErrFailed), p3)
                               | (None, p3) \<Rightarrow> (None, p3)))))))"

text \<open>
  The credentials of a user: every user and group identifier of the process, and nothing to go back to.
\<close>

definition runs_as :: "int \<Rightarrow> int \<Rightarrow> process \<Rightarrow> bool" where
  "runs_as uid gid p \<longleftrightarrow>
     p_ruid p = of_int uid \<and> p_euid p = of_int uid \<and> p_suid p = of_int uid \<and>
     p_rgid p = of_int gid \<and> p_egid p = of_int gid \<and> p_sgid p = of_int gid"

lemma drop_cases:
  assumes "drop_privileges lookup setenv username p = (None, p')"
  obtains user gid uid where "lookup username = Inr user" "atoi (us_gid user) = Some gid" "atoi (us_uid user) = Some uid"
    "setenv (us_home user) = None" "fst (setregid gid p) = None"
    "setreuid uid ((snd (setregid gid p))\<lparr>p_home := us_home user\<rparr>) = (None, p')"
  using assms
  by (auto simp: drop_privileges_def Let_def split: sum.splits option.splits prod.splits)

lemma setregid_frame:
  "p_euid (snd (setregid n p)) = p_euid p" "p_ruid (snd (setregid n p)) = p_ruid p"
  "p_suid (snd (setregid n p)) = p_suid p" "p_groups (snd (setregid n p)) = p_groups p"
  by (simp_all add: setregid_def Let_def)

lemma setreuid_frame:
  "p_egid (snd (setreuid n p)) = p_egid p" "p_rgid (snd (setreuid n p)) = p_rgid p"
  "p_sgid (snd (setreuid n p)) = p_sgid p" "p_groups (snd (setreuid n p)) = p_groups p"
  "p_home (snd (setreuid n p)) = p_home p"
  by (simp_all add: setreuid_def Let_def)

lemma drop_runs_as:
  assumes "drop_privileges lookup setenv username p = (None, p')"
    and "lookup username = Inr user" and "atoi (us_gid user) = Some gid" and "atoi (us_uid user) = Some uid"
    and "(of_int uid :: id32) \<noteq> -1" and "(of_int gid :: id32) \<noteq> -1"
  shows "runs_as uid gid p' \<and> p_home p' = us_home user \<and> p_groups p' = p_groups p"
proof -
  let ?p = "(snd (setregid gid p))\<lparr>p_home := us_home user\<rparr>"
  from assms(1-4) have g: "fst (setregid gid p) = None" and u: "setreuid uid ?p = (None, p')"
    by (auto elim: drop_cases)
  have "p_rgid ?p = of_int gid" "p_egid ?p = of_int gid" "p_sgid ?p = of_int gid"
    using g assms(6) by (auto simp: setregid_def Let_def split: if_splits)
  with u setreuid_frame [of uid ?p] setregid_frame(4) [of gid p] have
    "p_rgid p' = of_int gid" "p_egid p' = of_int gid" "p_sgid p' = of_int gid" "p_groups p' = p_groups p" "p_home p' = us_home user"
    by simp_all
  moreover have "p_ruid p' = of_int uid" "p_euid p' = of_int uid" "p_suid p' = of_int uid"
    using u assms(5) by (auto simp: setreuid_def Let_def split: if_splits)
  ultimately show ?thesis by (simp add: runs_as_def)
qed

lemma drop_root_succeeds:
  assumes "lookup username = Inr user" and "atoi (us_gid user) = Some gid" and "atoi (us_uid user) = Some uid"
    and "setenv (us_home user) = None" and "p_euid p = 0"
  shows "\<exists>p'. drop_privileges lookup setenv username p = (None, p')"
proof -
  have root: "fst (setregid n q) = None" "fst (setreuid n q) = None" if "p_euid q = 0" for n q
    using that by (simp_all add: setregid_def setreuid_def Let_def)
  obtain p1 where p1: "setregid gid p = (None, p1)" using root(1) [OF assms(5)] by (metis prod.collapse)
  then have "p_euid (p1\<lparr>p_home := us_home user\<rparr>) = 0" using setregid_frame(1) [of gid p] assms(5) by simp
  from root(2) [OF this] obtain p2 where "setreuid uid (p1\<lparr>p_home := us_home user\<rparr>) = (None, p2)" by (metis prod.collapse)
  with p1 assms show ?thesis by (simp add: drop_privileges_def Let_def)
qed

text \<open>
  C33. Dropping privileges is complete and final for the identifiers. Started as root, with a user that exists
  and has numeric identifiers, \<^verbatim>\<open>Drop\<close> succeeds: the group is changed while the process may still do so.
  Afterwards every real, effective and saved identifier is the user's and no call brings root back.
  The supplementary groups of root are kept, though: nothing resets them.
\<close>

theorem drop_is_final:
  assumes "p_euid p = 0" and "lookup username = Inr user" and "atoi (us_gid user) = Some gid" and "atoi (us_uid user) = Some uid"
    and "setenv (us_home user) = None" and "(of_int uid :: id32) \<notin> {0, -1}" and "(of_int gid :: id32) \<notin> {0, -1}"
  shows "\<exists>p'. drop_privileges lookup setenv username p = (None, p') \<and> runs_as uid gid p' \<and>
    setreuid 0 p' = (Some eperm, p') \<and> setregid 0 p' = (Some eperm, p') \<and> p_groups p' = p_groups p"
proof -
  obtain p' where d: "drop_privileges lookup setenv username p = (None, p')"
    using drop_root_succeeds [where lookup = lookup and setenv = setenv, OF assms(2-5,1)] by blast
  from drop_runs_as [OF d assms(2-4)] assms(6,7) have r: "runs_as uid gid p'" "p_groups p' = p_groups p" by auto
  then have "setreuid 0 p' = (Some eperm, p')" "setregid 0 p' = (Some eperm, p')"
    using assms(6,7) by (auto simp: runs_as_def setreuid_def setregid_def Let_def)
  with d r show ?thesis by blast
qed

definition root_process :: process where
  "root_process = \<lparr>p_ruid = 0, p_euid = 0, p_suid = 0, p_rgid = 0, p_egid = 0, p_sgid = 0, p_groups = [0, 80], p_home = ''/root''\<rparr>"

definition sample_user :: user_entry where
  "sample_user = \<lparr>us_uid = ''5'', us_gid = ''6'', us_home = ''/home/admin''\<rparr>"

lemma sample_user_ids: "atoi (us_gid sample_user) = Some 6" "atoi (us_uid sample_user) = Some 5"
  by (simp_all add: atoi_def digit_val_def sample_user_def)

theorem drop_is_final_witness:
  "\<exists>p'. drop_privileges (\<lambda>_. Inr sample_user) (\<lambda>_. None) ''admin'' root_process = (None, p') \<and> runs_as 5 6 p' \<and>
     setreuid 0 p' = (Some eperm, p') \<and> setregid 0 p' = (Some eperm, p') \<and> p_groups p' = [0, 80]"
  using drop_is_final [of root_process "\<lambda>_. Inr sample_user" "''admin''" sample_user 6 5 "\<lambda>_. None"] sample_user_ids
  by (simp add: root_process_def)

end
