(* ===== verification/Startup.thy ===== *)
theory Startup
  imports Privdrop Dispatch
begin

text \<open>
  From the command line to a running server: \<^verbatim>\<open>internal/config\<close>, \<^verbatim>\<open>internal/server/tlsinterceptor\<close> and
  \<^verbatim>\<open>internal/command/run\<close>. The packages that parse (YAML, sizes, regular expressions), the cryptography and the
  operating system are parameters; what the program does to the system is a trace of actions, each with the
  credentials it was done with.
\<close>

section \<open>Configuration\<close>

record disk_config =
  cfg_dir :: string
  cfg_limit :: string

record tls_config =
  cfg_cert :: string
  cfg_key :: string

record rule_config =
  cfg_pattern :: string
  cfg_ignore_authorization_header :: bool
  cfg_ignore_parameters :: "string list"
  cfg_direct_connect :: bool
  cfg_direct_connect_header :: bool

record cluster_config =
  cfg_secret :: string
  cfg_nodes :: "string list"

record config =
  cfg_addr :: string
  cfg_disk :: "disk_config option"
  cfg_tls :: "tls_config option"
  cfg_rules :: "rule_config list"
  cfg_cluster :: "cluster_config option"

text \<open>\<^verbatim>\<open>Parse\<close>: the YAML decoder is a parameter.\<close>

definition config_parse :: "(string \<Rightarrow> config result) \<Rightarrow> string \<Rightarrow> config result" where
  "config_parse yaml bytes = (case yaml bytes of Inl err \<Rightarrow> Inl err | Inr c \<Rightarrow> Inr c)"

section \<open>Certificates for intercepted hosts\<close>

datatype key_usage = KeyEncipherment | DigitalSignature

record certificate_template =
  ct_serial :: int
  ct_common_name :: string
  ct_dns_names :: "string list"
  ct_ip_addresses :: "string list"
  ct_not_before :: int
  ct_not_after :: int
  ct_key_usage :: "key_usage list"
  ct_server_auth :: bool

text \<open>The calls into \<^verbatim>\<open>crypto\<close>: key generation, signing, encoding and loading.\<close>

record ('k, 'ca, 'cert) crypto =
  cr_generate_key :: "'k result"
  cr_create :: "certificate_template \<Rightarrow> 'ca \<Rightarrow> 'k \<Rightarrow> string result"
  cr_marshal_key :: "'k \<Rightarrow> string result"
  cr_key_pair :: "string \<Rightarrow> string \<Rightarrow> 'cert result"

definition hour :: int where
  "hour = 3600 * 1000000000"

definition host_template :: "int \<Rightarrow> string \<Rightarrow> certificate_template" where
  "host_template now host =
     \<lparr>ct_serial = now, ct_common_name = host, ct_dns_names = [host], ct_ip_addresses = [], ct_not_before = now - hour,
      ct_not_after = now + hour, ct_key_usage = [KeyEncipherment, DigitalSignature], ct_server_auth = True\<rparr>"

definition generate_certificate :: "('k, 'ca, 'cert) crypto \<Rightarrow> 'ca \<Rightarrow> int \<Rightarrow> string \<Rightarrow> 'cert result" where
  "generate_certificate cr ca now host =
     (case cr_generate_key cr of
        Inl e \<Rightarrow> Inl e
      | Inr hostKey \<Rightarrow>
          (case cr_create cr (host_template now host) ca hostKey of
             Inl e \<Rightarrow> Inl e
           | Inr certDER \<Rightarrow>
               (case cr_marshal_key cr hostKey of
                  Inl e \<Rightarrow> Inl e
                | Inr keyDER \<Rightarrow> cr_key_pair cr certDER keyDER)))"

text \<open>\<^verbatim>\<open>NewFromFiles\<close>: the certificate authority of a key pair.\<close>

definition interceptor_from_files :: "(string \<Rightarrow> string \<Rightarrow> 'ca result) \<Rightarrow> string \<Rightarrow> string \<Rightarrow> 'ca result" where
  "interceptor_from_files load cert key = (case load cert key of Inl e \<Rightarrow> Inl e | Inr ca \<Rightarrow> Inr ca)"

section \<open>The run command\<close>

text \<open>What the program does to the system.\<close>

datatype action =
    StartHelper
  | DropPrivileges string
  | ReadFile string
  | MakeDir string
  | LoadKeys string string
  | ListenOn string
  | ServeRequests

type_synonym trace = "(action \<times> process) list"

record ('e, 'n, 'k, 'ca, 'cert) system =
  sy_helper :: "(('e, 'n) http_client \<times> ('e, 'n) http_client) result"
  sy_lookup :: "string \<Rightarrow> user_entry result"
  sy_setenv :: "string \<Rightarrow> go_error option"
  sy_read_file :: "string \<Rightarrow> string result"
  sy_yaml :: "string \<Rightarrow> config result"
  sy_parse_bytes :: "string \<Rightarrow> 64 word result"
  sy_mkdir :: "string \<Rightarrow> go_error option"
  sy_load_keys :: "string \<Rightarrow> string \<Rightarrow> 'ca result"
  sy_crypto :: "('k, 'ca, 'cert) crypto"
  sy_now :: int
  sy_compile :: "string \<Rightarrow> (string \<Rightarrow> bool) result"
  sy_listen :: "string \<Rightarrow> string result"
  sy_metrics :: "go_error option"
  sy_internal :: "('e, 'n) http_client"
  sy_external :: "('e, 'n) http_client"

text \<open>The loop over the configured rules.\<close>

fun compile_rules :: "(string \<Rightarrow> (string \<Rightarrow> bool) result) \<Rightarrow> rule_config list \<Rightarrow> rule list result" where
  "compile_rules compile [] = Inr []"
| "compile_rules compile (r # rs) =
     (case rule_new compile (cfg_pattern r) (cfg_ignore_authorization_header r) (cfg_ignore_parameters r)
             (cfg_direct_connect r) (cfg_direct_connect_header r) of
        Inl e \<Rightarrow> Inl e
      | Inr x \<Rightarrow> (case compile_rules compile rs of Inl e \<Rightarrow> Inl e | Inr xs \<Rightarrow> Inr (x # xs)))"

text \<open>
  The steps of \<^verbatim>\<open>run\<close> after privileges are settled. Each returns the options it adds, and its actions; an
  error ends the command.
\<close>

type_synonym ('e, 's, 'n) opts = "(('e, 's, 'n) options \<Rightarrow> ('e, 's, 'n) options) list"

definition run_disk ::
    "('e, 'n, 'k, 'ca, 'cert) system \<Rightarrow> (disk \<Rightarrow> ('e, 's) cache_ops) \<Rightarrow> config \<Rightarrow> action list \<times> ('e, 's, 'n) opts result" where
  "run_disk sy ops cfg =
     (case cfg_disk cfg of
        None \<Rightarrow> ([], Inr [])
      | Some dc \<Rightarrow>
          (case sy_parse_bytes sy (cfg_limit dc) of
             Inl e \<Rightarrow> ([], Inl (Wrap ''failed to parse disk limit value'' e))
           | Inr limitBytes \<Rightarrow>
               (case disk_new (sy_mkdir sy (cfg_dir dc)) (cfg_dir dc) limitBytes of
                  Inl e \<Rightarrow> ([MakeDir (cfg_dir dc)], Inl e)
                | Inr d \<Rightarrow> ([MakeDir (cfg_dir dc)], Inr [WithDisk (ops d)]))))"

definition run_tls :: "('e, 'n, 'k, 'ca, 'cert) system \<Rightarrow> config \<Rightarrow> action list \<times> ('e, 's, 'n) opts result" where
  "run_tls sy cfg =
     (case cfg_tls cfg of
        None \<Rightarrow> ([], Inr [])
      | Some tc \<Rightarrow>
          ([LoadKeys (cfg_cert tc) (cfg_key tc)],
           (case interceptor_from_files (sy_load_keys sy) (cfg_cert tc) (cfg_key tc) of
              Inl e \<Rightarrow> Inl e
            | Inr ca \<Rightarrow>
                Inr [WithTLSInterceptor (\<lambda>host.
                  (case generate_certificate (sy_crypto sy) ca (sy_now sy) host of Inl e \<Rightarrow> Inl e | Inr _ \<Rightarrow> Inr ()))])))"

definition run_rules :: "('e, 'n, 'k, 'ca, 'cert) system \<Rightarrow> config \<Rightarrow> ('e, 's, 'n) opts result" where
  "run_rules sy cfg =
     (if cfg_rules cfg \<noteq> [] then
        (case compile_rules (sy_compile sy) (cfg_rules cfg) of Inl e \<Rightarrow> Inl e | Inr rules \<Rightarrow> Inr [WithRules rules])
      else Inr [])"

definition run_cluster :: "config \<Rightarrow> ('e, 's, 'n) opts" where
  "run_cluster cfg =
     (case cfg_cluster cfg of
        None \<Rightarrow> []
      | Some cc \<Rightarrow> [WithCluster (cluster_new (cfg_secret cc) (cfg_addr cfg) (cfg_nodes cc))])"

text \<open>Building the server from the configuration, and listening.\<close>

definition run_server ::
    "('e, 'n, 'k, 'ca, 'cert) system \<Rightarrow> (disk \<Rightarrow> ('e, 's) cache_ops) \<Rightarrow> ('e, 's, 'n) opts \<Rightarrow> config \<Rightarrow>
     action list \<times> ('e, 's, 'n) server result" where
  "run_server sy ops opts cfg =
     (case run_disk sy ops cfg of
        (as, Inl e) \<Rightarrow> (as, Inl e)
      | (as, Inr o1) \<Rightarrow>
          (case run_tls sy cfg of
             (bs, Inl e) \<Rightarrow> (as @ bs, Inl e)
           | (bs, Inr o2) \<Rightarrow>
               (case run_rules sy cfg of
                  Inl e \<Rightarrow> (as @ bs, Inl e)
                | Inr o3 \<Rightarrow>
                    (case server_new (sy_listen sy) (sy_metrics sy) (sy_internal sy) (sy_external sy) (cfg_addr cfg)
                       (opts @ o1 @ o2 @ o3 @ run_cluster cfg) of
                       Inl e \<Rightarrow> (as @ bs @ [ListenOn (cfg_addr cfg)], Inl e)
                     | Inr sv \<Rightarrow> (as @ bs @ [ListenOn (cfg_addr cfg), ServeRequests], Inr sv)))))"

text \<open>With the privileges settled: the configuration file, then the server.\<close>

definition run_config ::
    "('e, 'n, 'k, 'ca, 'cert) system \<Rightarrow> (disk \<Rightarrow> ('e, 's) cache_ops) \<Rightarrow> ('e, 's, 'n) opts \<Rightarrow> string \<Rightarrow>
     action list \<times> ('e, 's, 'n) server result" where
  "run_config sy ops opts configPath =
     (if configPath = [] then ([], Inl (Errorf ''configuration file path (-f or --file) needs to be specified''))
      else
        (case sy_read_file sy configPath of
           Inl e \<Rightarrow> ([ReadFile configPath], Inl (Wrap ''failed to read configuration file at path'' e))
         | Inr configBytes \<Rightarrow>
             (case config_parse (sy_yaml sy) configBytes of
                Inl e \<Rightarrow> ([ReadFile configPath], Inl (Wrap ''failed to parse configuration file at path'' e))
              | Inr cfg \<Rightarrow> (case run_server sy ops opts cfg of (as, r) \<Rightarrow> (ReadFile configPath # as, r)))))"

definition run ::
    "('e, 'n, 'k, 'ca, 'cert) system \<Rightarrow> (disk \<Rightarrow> ('e, 's) cache_ops) \<Rightarrow> string \<Rightarrow> string \<Rightarrow> process \<Rightarrow>
     trace \<times> ('e, 's, 'n) server result" where
  "run sy ops username configPath p =
     (if username \<noteq> [] then
        (case sy_helper sy of
           Inl e \<Rightarrow> ([(StartHelper, p)], Inl e)
         | Inr helper \<Rightarrow>
             (case drop_privileges (sy_lookup sy) (sy_setenv sy) username p of
                (Some e, p') \<Rightarrow> ([(StartHelper, p), (DropPrivileges username, p)], Inl e)
              | (None, p') \<Rightarrow>
                  (case run_config sy ops [WithLocalNetworkHelper helper] configPath of
                     (as, r) \<Rightarrow> ([(StartHelper, p), (DropPrivileges username, p)] @ map (\<lambda>a. (a, p')) as, r))))
      else (case run_config sy ops [] configPath of (as, r) \<Rightarrow> (map (\<lambda>a. (a, p)) as, r)))"

end
