(* ===== verification/StartupProps.thy ===== *)
theory StartupProps
  imports Startup
begin

text \<open>
  Properties of the start-up: nothing but the helper is started with the original privileges, and
  the server that runs is the one the configuration describes.
\<close>

section \<open>Privileges\<close>

text \<open>
  C21. With a user to drop to, the only things the program does with its original privileges are starting
  the helper and dropping them. Reading the configuration, creating the cache directory, loading
  the interceptor's key, listening and serving all happen with every identifier of that
  user, and do not happen at all if the privileges could not be dropped.
\<close>

theorem run_unprivileged:
  assumes "run sy ops username path p = (tr, r)" and "username \<noteq> []"
    and "sy_lookup sy username = Inr user" and "atoi (us_gid user) = Some gid" and "atoi (us_uid user) = Some uid"
    and "(of_int uid :: id32) \<noteq> -1" and "(of_int gid :: id32) \<noteq> -1" and "(a, q) \<in> set tr"
  shows "a \<in> {StartHelper, DropPrivileges username} \<and> q = p \<or>
    runs_as uid gid q \<and> p_home q = us_home user \<and> drop_privileges (sy_lookup sy) (sy_setenv sy) username p = (None, q)"
proof (cases "sy_helper sy")
  case (Inl e)
  with assms(1,2,8) show ?thesis by (auto simp: run_def)
next
  case (Inr helper)
  obtain de p' where d: "drop_privileges (sy_lookup sy) (sy_setenv sy) username p = (de, p')" by fastforce
  show ?thesis
  proof (cases de)
    case (Some e)
    with assms(1,2,8) Inr d show ?thesis by (auto simp: run_def)
  next
    case None
    have "runs_as uid gid p' \<and> p_home p' = us_home user"
      using drop_runs_as [OF d [unfolded None] assms(3-7)] by blast
    with assms(1,2,8) Inr d None show ?thesis by (auto simp: run_def split: prod.splits)
  qed
qed

section \<open>Configuration\<close>

lemma compile_rules_all:
  "compile_rules compile rcs = Inr rs \<Longrightarrow>
     list_all2 (\<lambda>rc r. compile (cfg_pattern rc) = Inr (re r) \<and>
       ignoreAuthorizationHeader r = cfg_ignore_authorization_header rc \<and> ignoreParameters r = cfg_ignore_parameters rc \<and>
       directConnect r = cfg_direct_connect rc \<and> directConnectHeader r = cfg_direct_connect_header rc) rcs rs"
  by (induction rcs arbitrary: rs) (auto simp: rule_new_def split: sum.splits)

lemmas option_defs = no_options_def WithDisk_def WithTLSInterceptor_def WithRules_def WithCluster_def WithLocalNetworkHelper_def

lemma server_new_fields:
  assumes "server_new listen metrics internal external addr opts = Inr sv"
  shows "sv_rules sv = o_rules (fold (\<lambda>opt. opt) opts no_options)" "sv_cluster sv = o_cluster (fold (\<lambda>opt. opt) opts no_options)"
    "sv_tls sv = o_tls (fold (\<lambda>opt. opt) opts no_options)"
    "sv_disk sv = (case o_disk (fold (\<lambda>opt. opt) opts no_options) of None \<Rightarrow> noop_ops | Some d \<Rightarrow> d)"
    "(sv_internal sv, sv_external sv) =
      (case o_helper (fold (\<lambda>opt. opt) opts no_options) of None \<Rightarrow> (internal, external) | Some h \<Rightarrow> h)"
    and "listen addr = Inr (sv_listener sv)"
  using assms by (auto simp: server_new_def Let_def split: sum.splits option.splits)

text \<open>
  The interceptor of a certificate authority: a connection is intercepted if a certificate of that authority can be made
  for its host.
\<close>

definition interceptor_of :: "('e, 'n, 'k, 'ca, 'cert) system \<Rightarrow> 'ca \<Rightarrow> string \<Rightarrow> unit result" where
  "interceptor_of sy ca host =
     (case generate_certificate (sy_crypto sy) ca (sy_now sy) host of Inl e \<Rightarrow> Inl e | Inr _ \<Rightarrow> Inr ())"

text \<open>The server that a configuration describes.\<close>

definition configured ::
    "('e, 'n, 'k, 'ca, 'cert) system \<Rightarrow> (disk \<Rightarrow> ('e, 's) cache_ops) \<Rightarrow> config \<Rightarrow> ('e, 's, 'n) server \<Rightarrow> bool" where
  "configured sy ops cfg sv \<longleftrightarrow>
     list_all2 (\<lambda>rc r. sy_compile sy (cfg_pattern rc) = Inr (re r) \<and>
       ignoreAuthorizationHeader r = cfg_ignore_authorization_header rc \<and> ignoreParameters r = cfg_ignore_parameters rc \<and>
       directConnect r = cfg_direct_connect rc \<and> directConnectHeader r = cfg_direct_connect_header rc) (cfg_rules cfg) (sv_rules sv) \<and>
     sv_cluster sv = map_option (\<lambda>cc. cluster_new (cfg_secret cc) (cfg_addr cfg) (cfg_nodes cc)) (cfg_cluster cfg) \<and>
     sy_listen sy (cfg_addr cfg) = Inr (sv_listener sv) \<and>
     (case cfg_tls cfg of
        None \<Rightarrow> sv_tls sv = None
      | Some tc \<Rightarrow> \<exists>ca. sy_load_keys sy (cfg_cert tc) (cfg_key tc) = Inr ca \<and> sv_tls sv = Some (interceptor_of sy ca)) \<and>
     (case cfg_disk cfg of
        None \<Rightarrow> sv_disk sv = noop_ops
      | Some dc \<Rightarrow> \<exists>limit. sy_parse_bytes sy (cfg_limit dc) = Inr limit \<and> sv_disk sv = ops \<lparr>d_dir = cfg_dir dc, d_limit = limit\<rparr>)"

lemma run_server_configured:
  assumes "run_server sy ops opts cfg = (as, Inr sv)" and "opts = (case h of None \<Rightarrow> [] | Some c \<Rightarrow> [WithLocalNetworkHelper c])"
  shows "configured sy ops cfg sv \<and>
    (sv_internal sv, sv_external sv) = (case h of None \<Rightarrow> (sy_internal sy, sy_external sy) | Some c \<Rightarrow> c)"
proof -
  from assms(1) obtain o1 o2 o3 a1 a2 where o1: "run_disk sy ops cfg = (a1, Inr o1)" and o2: "run_tls sy cfg = (a2, Inr o2)"
    and o3: "run_rules sy cfg = Inr o3"
    and sv: "server_new (sy_listen sy) (sy_metrics sy) (sy_internal sy) (sy_external sy) (cfg_addr cfg)
      (opts @ o1 @ o2 @ o3 @ run_cluster cfg) = Inr sv"
    by (auto simp: run_server_def split: prod.splits sum.splits)
  have d: "case cfg_disk cfg of None \<Rightarrow> o1 = []
    | Some dc \<Rightarrow> \<exists>limit. sy_parse_bytes sy (cfg_limit dc) = Inr limit \<and> o1 = [WithDisk (ops \<lparr>d_dir = cfg_dir dc, d_limit = limit\<rparr>)]"
    using o1 by (auto simp: run_disk_def disk_new_def split: option.splits sum.splits if_splits)
  have t: "case cfg_tls cfg of None \<Rightarrow> o2 = []
    | Some tc \<Rightarrow> \<exists>ca. sy_load_keys sy (cfg_cert tc) (cfg_key tc) = Inr ca \<and> o2 = [WithTLSInterceptor (interceptor_of sy ca)]"
    using o2 by (auto simp: run_tls_def interceptor_from_files_def interceptor_of_def [abs_def] split: option.splits sum.splits)
  have r: "o3 = [] \<and> cfg_rules cfg = [] \<or> (\<exists>rs. compile_rules (sy_compile sy) (cfg_rules cfg) = Inr rs \<and> o3 = [WithRules rs])"
    using o3 by (auto simp: run_rules_def split: if_splits sum.splits)
  note f = server_new_fields [OF sv, unfolded fold_append comp_def assms(2) run_cluster_def]
  have "sv_cluster sv = map_option (\<lambda>cc. cluster_new (cfg_secret cc) (cfg_addr cfg) (cfg_nodes cc)) (cfg_cluster cfg)"
    using f(2) d t r by (auto simp: option_defs split: option.splits)
  moreover have "case cfg_tls cfg of None \<Rightarrow> sv_tls sv = None
      | Some tc \<Rightarrow> \<exists>ca. sy_load_keys sy (cfg_cert tc) (cfg_key tc) = Inr ca \<and> sv_tls sv = Some (interceptor_of sy ca)"
    using f(3) d t r by (auto simp: option_defs split: option.splits)
  moreover have "case cfg_disk cfg of None \<Rightarrow> sv_disk sv = noop_ops
      | Some dc \<Rightarrow> \<exists>limit. sy_parse_bytes sy (cfg_limit dc) = Inr limit \<and> sv_disk sv = ops \<lparr>d_dir = cfg_dir dc, d_limit = limit\<rparr>"
    using f(4) d t r by (auto simp: option_defs split: option.splits)
  moreover have "if cfg_rules cfg = [] then sv_rules sv = [] else compile_rules (sy_compile sy) (cfg_rules cfg) = Inr (sv_rules sv)"
    using f(1) d t r by (auto simp: option_defs split: option.splits)
  moreover have "(sv_internal sv, sv_external sv) = (case h of None \<Rightarrow> (sy_internal sy, sy_external sy) | Some c \<Rightarrow> c)"
    using f(5) d t r by (auto simp: option_defs split: option.splits)
  ultimately show ?thesis
    using f(6) by (auto simp: configured_def split: if_splits dest!: compile_rules_all)
qed

text \<open>
  C22. The server that runs is the configured one. When the command gets as far as serving, the
  configuration file was read and parsed, and the server listens on the configured address and on no other; every
  rule was compiled and stands in the configured order, the cluster knows the server by that address, connections are
  intercepted exactly if the configuration says so, and then with certificates of the authority that was loaded
  from the configured files, the disk cache has the configured directory and the parsed limit (the no-op cache
  without one), and both HTTP clients dial through the helper exactly if privileges were dropped.
\<close>

theorem run_as_configured:
  assumes "run sy ops username path p = (tr, Inr sv)"
  shows "\<exists>bytes cfg. sy_read_file sy path = Inr bytes \<and> sy_yaml sy bytes = Inr cfg \<and> configured sy ops cfg sv \<and>
    (if username = [] then (sv_internal sv, sv_external sv) = (sy_internal sy, sy_external sy)
     else sy_helper sy = Inr (sv_internal sv, sv_external sv)) \<and>
    (\<exists>q tr'. tr = tr' @ [(ListenOn (cfg_addr cfg), q), (ServeRequests, q)] \<and> (\<forall>a q'. (ListenOn a, q') \<notin> set tr'))"
proof -
  obtain opts h as where c: "run_config sy ops opts path = (as, Inr sv)"
    and opts: "opts = (case h of None \<Rightarrow> [] | Some c \<Rightarrow> [WithLocalNetworkHelper c])"
    and h: "if username = [] then h = None else \<exists>c. sy_helper sy = Inr c \<and> h = Some c"
    and tr: "\<exists>q pre. tr = pre @ map (\<lambda>a. (a, q)) as \<and> (\<forall>a q'. (ListenOn a, q') \<notin> set pre)"
  proof (cases "username = []")
    case True
    obtain as r where r: "run_config sy ops [] path = (as, r)" by fastforce
    with assms True show thesis by (intro that [of "[]" as None]) (auto simp: run_def intro: exI [of _ p] exI [of _ "[]"])
  next
    case False
    with assms obtain c where hc: "sy_helper sy = Inr c" by (auto simp: run_def split: sum.splits)
    with assms False obtain p' where d: "drop_privileges (sy_lookup sy) (sy_setenv sy) username p = (None, p')"
      by (auto simp: run_def split: prod.splits option.splits)
    obtain as r where r: "run_config sy ops [WithLocalNetworkHelper c] path = (as, r)" by fastforce
    with assms False hc d show thesis
      by (intro that [of "[WithLocalNetworkHelper c]" as "Some c"])
        (auto simp: run_def intro!: exI [of _ p'] exI [of _ "[(StartHelper, p), (DropPrivileges username, p)]"])
  qed
  from c obtain bytes cfg as' where f: "sy_read_file sy path = Inr bytes" "sy_yaml sy bytes = Inr cfg"
    and s: "run_server sy ops opts cfg = (as', Inr sv)" and as: "as = ReadFile path # as'"
    by (auto simp: run_config_def config_parse_def split: if_splits sum.splits prod.splits)
  have "\<exists>bs. as' = bs @ [ListenOn (cfg_addr cfg), ServeRequests] \<and> (\<forall>a. ListenOn a \<notin> set bs)"
    using s by (auto simp: run_server_def run_disk_def run_tls_def split: prod.splits sum.splits option.splits)
  with tr as have "\<exists>q tr'. tr = tr' @ [(ListenOn (cfg_addr cfg), q), (ServeRequests, q)] \<and> (\<forall>a q'. (ListenOn a, q') \<notin> set tr')"
    by fastforce
  with f run_server_configured [OF s opts] h show ?thesis by (auto split: if_splits option.splits)
qed

section \<open>An example\<close>

definition sample_config :: config where
  "sample_config =
     \<lparr>cfg_addr = '':8080'', cfg_disk = Some \<lparr>cfg_dir = ''/cache'', cfg_limit = ''1KB''\<rparr>, cfg_tls = Some \<lparr>cfg_cert = ''c.pem'', cfg_key = ''k.pem''\<rparr>,
      cfg_rules = [\<lparr>cfg_pattern = ''.*'', cfg_ignore_authorization_header = False, cfg_ignore_parameters = [],
        cfg_direct_connect = False, cfg_direct_connect_header = False\<rparr>],
      cfg_cluster = None\<rparr>"

definition sample_system :: "(unit, unit, unit, unit, unit) system" where
  "sample_system =
     \<lparr>sy_helper = Inr (\<lambda>e rq n. (Inl ErrEOF, 0, n), \<lambda>e rq n. (Inl ErrEOF, 0, n)), sy_lookup = (\<lambda>_. Inr sample_user),
      sy_setenv = (\<lambda>_. None), sy_read_file = (\<lambda>_. Inr ''yaml''), sy_yaml = (\<lambda>_. Inr sample_config),
      sy_parse_bytes = (\<lambda>_. Inr 1000), sy_mkdir = (\<lambda>_. None), sy_load_keys = (\<lambda>_ _. Inr ()),
      sy_crypto = \<lparr>cr_generate_key = Inr (), cr_create = (\<lambda>_ _ _. Inr []), cr_marshal_key = (\<lambda>_. Inr []), cr_key_pair = (\<lambda>_ _. Inr ())\<rparr>,
      sy_now = 0, sy_compile = (\<lambda>_. Inr (\<lambda>_. True)), sy_listen = Inr, sy_metrics = None,
      sy_internal = (\<lambda>e rq n. (Inl ErrEOF, 0, n)), sy_external = (\<lambda>e rq n. (Inl ErrEOF, 0, n))\<rparr>"

lemma sample_run:
  "\<exists>p' sv. drop_privileges (sy_lookup sample_system) (sy_setenv sample_system) ''admin'' root_process = (None, p') \<and>
     run sample_system (\<lambda>_. noop_ops :: (unit, unit) cache_ops) ''admin'' ''/etc/chacha.yml'' root_process =
       ([(StartHelper, root_process), (DropPrivileges ''admin'', root_process), (ReadFile ''/etc/chacha.yml'', p'),
         (MakeDir ''/cache'', p'), (LoadKeys ''c.pem'' ''k.pem'', p'), (ListenOn '':8080'', p'), (ServeRequests, p')], Inr sv)"
proof -
  obtain p' where d: "drop_privileges (sy_lookup sample_system) (sy_setenv sample_system) ''admin'' root_process = (None, p')"
    using drop_root_succeeds [of "sy_lookup sample_system" "''admin''" sample_user 6 5 "sy_setenv sample_system" root_process] sample_user_ids
    by (auto simp: sample_system_def root_process_def)
  have c: "\<exists>sv. run_config sample_system (\<lambda>_. noop_ops :: (unit, unit) cache_ops) [WithLocalNetworkHelper h] ''/etc/chacha.yml'' =
      ([ReadFile ''/etc/chacha.yml'', MakeDir ''/cache'', LoadKeys ''c.pem'' ''k.pem'', ListenOn '':8080'', ServeRequests], Inr sv)" for h
    by (simp add: sample_system_def sample_config_def run_config_def run_server_def run_disk_def run_tls_def run_rules_def
        interceptor_from_files_def run_cluster_def config_parse_def disk_new_def rule_new_def server_new_def option_defs Let_def)
  have "\<exists>h. sy_helper sample_system = Inr h" by (simp add: sample_system_def)
  then obtain h where "sy_helper sample_system = Inr h" by blast
  with d c [of h] show ?thesis by (auto simp: run_def)
qed

theorem run_unprivileged_witness:
  "\<exists>tr r q. run sample_system (\<lambda>_. noop_ops :: (unit, unit) cache_ops) ''admin'' ''/etc/chacha.yml'' root_process = (tr, r) \<and>
     (ListenOn '':8080'', q) \<in> set tr \<and> runs_as 5 6 q"
proof -
  obtain p' sv where r: "run sample_system (\<lambda>_. noop_ops :: (unit, unit) cache_ops) ''admin'' ''/etc/chacha.yml'' root_process =
       ([(StartHelper, root_process), (DropPrivileges ''admin'', root_process), (ReadFile ''/etc/chacha.yml'', p'),
         (MakeDir ''/cache'', p'), (LoadKeys ''c.pem'' ''k.pem'', p'), (ListenOn '':8080'', p'), (ServeRequests, p')], Inr sv)"
    using sample_run by blast
  have "sy_lookup sample_system ''admin'' = Inr sample_user" by (simp add: sample_system_def)
  from run_unprivileged [OF r _ this sample_user_ids, of "ListenOn '':8080''" p'] r show ?thesis by auto
qed

theorem run_as_configured_witness:
  "\<exists>tr sv. run sample_system (\<lambda>_. noop_ops :: (unit, unit) cache_ops) ''admin'' ''/etc/chacha.yml'' root_process = (tr, Inr sv) \<and>
     configured sample_system (\<lambda>_. noop_ops) sample_config sv \<and> sv_listener sv = '':8080'' \<and> sv_tls sv = Some (interceptor_of sample_system ())"
proof -
  obtain tr sv where r: "run sample_system (\<lambda>_. noop_ops :: (unit, unit) cache_ops) ''admin'' ''/etc/chacha.yml'' root_process = (tr, Inr sv)"
    using sample_run by blast
  have "sy_yaml sample_system bytes = Inr sample_config" "sy_listen sample_system = Inr" for bytes by (simp_all add: sample_system_def)
  with run_as_configured [OF r] have c: "configured sample_system (\<lambda>_. noop_ops :: (unit, unit) cache_ops) sample_config sv" by auto
  moreover have "sv_listener sv = '':8080''" using c \<open>sy_listen sample_system = Inr\<close> by (simp add: configured_def sample_config_def)
  moreover have "sv_tls sv = Some (interceptor_of sample_system ())" using c by (simp add: configured_def sample_config_def)
  ultimately show ?thesis using r by blast
qed

end
