(* ===== verification/Lifecycle.thy ===== *)
theory Lifecycle
  imports StartupProps HelperNew ServerProps
begin

text \<open>
  The life of the process: \<^verbatim>\<open>cmd/main.go\<close>, \<^verbatim>\<open>internal/opentelemetry\<close>, \<^verbatim>\<open>internal/version\<close>, \<^verbatim>\<open>internal/command/root.go\<close> with the hidden
  helper command, and \<^verbatim>\<open>Server.Run\<close>. What the process does is a list of events; what the libraries and the operating
  system answer is an argument. \<^verbatim>\<open>Run\<close> is a state machine: its goroutine and the loop of \<^verbatim>\<open>Serve\<close> take turns in an arbitrary order.
\<close>

section \<open>Version\<close>

text \<open>
  \<^verbatim>\<open>init\<close> of \<^verbatim>\<open>version.go\<close>: the version and the commit as linked into the binary, the module version of the build
  information if there is any, and \<^verbatim>\<open>goversion.NewSemver\<close> followed by \<^verbatim>\<open>String\<close>.
\<close>

definition version_init :: "(string \<Rightarrow> string result) \<Rightarrow> string option \<Rightarrow> string \<Rightarrow> string \<Rightarrow> string \<times> string" where
  "version_init semver build version commit =
     (let v = (if version = ''unknown''
               then (case build of
                       None \<Rightarrow> version
                     | Some main \<Rightarrow> (case semver main of Inl _ \<Rightarrow> version | Inr s \<Rightarrow> s))
               else version)
      in (v, v @ ''-'' @ commit))"

section \<open>Serving until told to stop\<close>

definition ErrServerClosed :: go_error where
  "ErrServerClosed = Errorf ''http: Server closed''"

text \<open>
  While \<^verbatim>\<open>Run\<close> runs there are two threads of it: the goroutine that waits for the end of the context and then closes the HTTP
  server, and the loop of \<^verbatim>\<open>Serve\<close>, which hands every connection that \<^verbatim>\<open>Accept\<close> returns to a handler, retries after a temporary
  error and returns any other one; once the server is closed, its listener is, and the next \<^verbatim>\<open>Accept\<close> fails. A schedule is
  the sequence of their turns and of the end of the context.
\<close>

datatype accept_result = Connection string | NoConnection | Temporary go_error | Permanent go_error

datatype run_event = ContextEnds | WatcherTurn | AcceptTurn accept_result

record run_state =
  rn_log :: "(log_level \<times> string) list"
  rn_ended :: bool
  rn_watching :: bool
  rn_closed :: bool
  rn_served :: "string list"
  rn_result :: "go_error option"

text \<open>\<^verbatim>\<open>Run\<close> logs the address and starts the goroutine.\<close>

definition run_start :: "('e, 's, 'n) server \<Rightarrow> run_state" where
  "run_start sv =
     \<lparr>rn_log = [(Infof, ''listening on '' @ server_addr sv)], rn_ended = False, rn_watching = True, rn_closed = False,
      rn_served = [], rn_result = None\<rparr>"

text \<open>The goroutine: blocked until the context has ended, then \<^verbatim>\<open>httpServer.Close\<close>, and done.\<close>

definition watcher_turn :: "run_state \<Rightarrow> run_state" where
  "watcher_turn s =
     (if rn_watching s \<and> rn_ended s then s\<lparr>rn_closed := True, rn_watching := False\<rparr> else s)"

text \<open>One round of the loop of \<^verbatim>\<open>Serve\<close>.\<close>

definition serve_turn :: "accept_result \<Rightarrow> run_state \<Rightarrow> run_state" where
  "serve_turn r s =
     (if rn_closed s then s\<lparr>rn_result := Some ErrServerClosed\<rparr>
      else (case r of
              Connection c \<Rightarrow> s\<lparr>rn_served := rn_served s @ [c]\<rparr>
            | NoConnection \<Rightarrow> s
            | Temporary e \<Rightarrow> s
            | Permanent e \<Rightarrow> s\<lparr>rn_result := Some e\<rparr>))"

fun run_step :: "run_event \<Rightarrow> run_state \<Rightarrow> run_state" where
  "run_step ContextEnds s = s\<lparr>rn_ended := True\<rparr>"
| "run_step WatcherTurn s = watcher_turn s"
| "run_step (AcceptTurn r) s = serve_turn r s"

text \<open>\<^verbatim>\<open>Run\<close> over a schedule, up to its return if it returns.\<close>

fun run_events :: "run_event list \<Rightarrow> run_state \<Rightarrow> run_state" where
  "run_events [] s = s"
| "run_events (e # es) s = (case rn_result s of Some _ \<Rightarrow> s | None \<Rightarrow> run_events es (run_step e s))"

definition server_run :: "('e, 's, 'n) server \<Rightarrow> run_event list \<Rightarrow> run_state" where
  "server_run sv es = run_events es (run_start sv)"

section \<open>Telemetry\<close>

datatype provider = MeterProvider | TracerProvider | LoggerProvider

datatype main_event =
    NotifySignals
  | SetErrorHandler
  | SetEndpoint string
  | Registered provider
  | SetPropagator
  | PrintedError string go_error
  | ReplacedGlobals
  | DebugLevel
  | Did "action \<times> process"
  | Logged log_level string
  | LoggedError go_error
  | SyncedLogger
  | ShutDown provider bool
  | StoppedSignals

record otel_env =
  oe_endpoint :: "string option"
  oe_setenv :: "go_error option"
  oe_merge_default :: "go_error option"
  oe_merge_environment :: "go_error option"
  oe_exporter :: "provider \<Rightarrow> go_error option"

text \<open>The work around the missing endpoint.\<close>

definition otel_endpoint :: "otel_env \<Rightarrow> main_event list \<times> go_error option" where
  "otel_endpoint env =
     (case oe_endpoint env of
        Some _ \<Rightarrow> ([], None)
      | None \<Rightarrow>
          (case oe_setenv env of
             Some e \<Rightarrow> ([], Some e)
           | None \<Rightarrow> ([SetEndpoint ''http://localhost:4318''], None)))"

text \<open>Exporters and providers one after the other; the result are the finalizers, in the order they were appended.\<close>

definition otel_providers :: "otel_env \<Rightarrow> main_event list \<times> provider list result" where
  "otel_providers env =
     (case oe_exporter env MeterProvider of
        Some e \<Rightarrow> ([], Inl e)
      | None \<Rightarrow>
          (case oe_exporter env TracerProvider of
             Some e \<Rightarrow> ([Registered MeterProvider], Inl e)
           | None \<Rightarrow>
               (case oe_exporter env LoggerProvider of
                  Some e \<Rightarrow> ([Registered MeterProvider, Registered TracerProvider, SetPropagator], Inl e)
                | None \<Rightarrow>
                    ([Registered MeterProvider, Registered TracerProvider, SetPropagator, Registered LoggerProvider],
                     Inr [MeterProvider, TracerProvider, LoggerProvider]))))"

definition otel_init :: "otel_env \<Rightarrow> main_event list \<times> provider list result" where
  "otel_init env =
     (case otel_endpoint env of
        (as, Some e) \<Rightarrow> (SetErrorHandler # as, Inl e)
      | (as, None) \<Rightarrow>
          (case oe_merge_default env of
             Some e \<Rightarrow> (SetErrorHandler # as, Inl e)
           | None \<Rightarrow>
               (case oe_merge_environment env of
                  Some e \<Rightarrow> (SetErrorHandler # as, Inl e)
                | None \<Rightarrow> (case otel_providers env of (bs, r) \<Rightarrow> (SetErrorHandler # as @ bs, r)))))"

text \<open>
  The function \<^verbatim>\<open>Init\<close> returns: every finalizer shuts its provider down with the context that \<^verbatim>\<open>Init\<close> was given; the flag
  says whether that context has ended.
\<close>

definition otel_deinit :: "provider list \<Rightarrow> bool \<Rightarrow> main_event list" where
  "otel_deinit finalizers ended = map (\<lambda>p. ShutDown p ended) finalizers"

section \<open>Commands\<close>

text \<open>The command line after parsing: \<^verbatim>\<open>--debug\<close>, and one of the two commands.\<close>

datatype command = RunCommand string string | HelperCommand

record ('e, 's, 'n, 'k, 'ca, 'cert) main_env =
  me_otel :: otel_env
  me_logger :: "go_error option"
  me_debug :: bool
  me_command :: command
  me_system :: "('e, 'n, 'k, 'ca, 'cert) system"
  me_disk :: "disk \<Rightarrow> ('e, 's) cache_ops"
  me_process :: process
  me_events :: "run_event list"
  me_fds :: fd_table
  me_serve :: serve_env
  me_reads :: "(go_error option \<times> string result) list"
  me_signalled :: bool

text \<open>The hidden command of the helper process, \<^verbatim>\<open>Serve(3)\<close>; \<open>None\<close> while it serves.\<close>

definition helper_command ::
    "serve_env \<Rightarrow> fd_table \<Rightarrow> (go_error option \<times> string result) list \<Rightarrow> go_error option option" where
  "helper_command serve table rds =
     (case serve_start serve 3 table of
        (Inl e, _) \<Rightarrow> Some (Some e)
      | (Inr _, _) \<Rightarrow> (case serve_loop rds of (_, r) \<Rightarrow> r))"

text \<open>
  \<^verbatim>\<open>ExecuteContext\<close>: what was done, the command's error, and whether the context has ended by then. \<open>me_signalled\<close> says so
  for commands that do not wait for it. \<open>None\<close> stands for a command that has not returned.
\<close>

definition pre_run :: "bool \<Rightarrow> main_event list" where
  "pre_run debug = (if debug then [DebugLevel] else [])"

definition execute ::
    "('e, 's, 'n, 'k, 'ca, 'cert) main_env \<Rightarrow> (main_event list \<times> go_error option \<times> bool) option" where
  "execute env =
     (case me_command env of
        RunCommand username configPath \<Rightarrow>
          (case run (me_system env) (me_disk env) username configPath (me_process env) of
             (tr, Inl e) \<Rightarrow> Some (pre_run (me_debug env) @ map Did tr, Some e, me_signalled env)
           | (tr, Inr sv) \<Rightarrow>
               (let s = server_run sv (me_events env) in
                case rn_result s of
                  None \<Rightarrow> None
                | Some e \<Rightarrow>
                    Some (pre_run (me_debug env) @ map Did tr @ map (\<lambda>(lvl, msg). Logged lvl msg) (rn_log s), Some e, rn_ended s)))
      | HelperCommand \<Rightarrow>
          map_option (\<lambda>r. (pre_run (me_debug env), r, me_signalled env))
            (helper_command (me_serve env) (me_fds env) (me_reads env)))"

text \<open>\<^verbatim>\<open>mainImpl\<close> with its deferred calls, last one first: \<^verbatim>\<open>logger.Sync\<close>, the finalizers, \<^verbatim>\<open>cancel\<close>.\<close>

definition main_impl :: "('e, 's, 'n, 'k, 'ca, 'cert) main_env \<Rightarrow> (main_event list \<times> bool) option" where
  "main_impl env =
     (case otel_init (me_otel env) of
        (as, Inl e) \<Rightarrow> Some (NotifySignals # as @ [PrintedError ''failed to initialize OpenTelemetry'' e, StoppedSignals], False)
      | (as, Inr finalizers) \<Rightarrow>
          (case me_logger env of
             Some e \<Rightarrow>
               Some (NotifySignals # as @ [PrintedError [] e] @ otel_deinit finalizers (me_signalled env) @ [StoppedSignals], False)
           | None \<Rightarrow>
               (case execute env of
                  None \<Rightarrow> None
                | Some (bs, err, ended) \<Rightarrow>
                    Some (NotifySignals # as @ [ReplacedGlobals] @ bs @ (case err of None \<Rightarrow> [] | Some e \<Rightarrow> [LoggedError e]) @
                            [SyncedLogger] @ otel_deinit finalizers ended @ [StoppedSignals],
                          err = None))))"

definition exit_status :: "bool \<Rightarrow> int" where
  "exit_status ok = (if \<not> ok then 1 else 0)"

section \<open>The server stops when it is told to\<close>

text \<open>The connections that \<^verbatim>\<open>Accept\<close> returned, and a schedule in which both threads run again and again.\<close>

definition arrived :: "run_event list \<Rightarrow> string list" where
  "arrived es = concat (map (\<lambda>e. case e of AcceptTurn (Connection c) \<Rightarrow> [c] | _ \<Rightarrow> []) es)"

definition fair_schedule :: "(nat \<Rightarrow> run_event) \<Rightarrow> bool" where
  "fair_schedule \<sigma> \<longleftrightarrow> (\<forall>n. \<exists>k\<ge>n. \<sigma> k = WatcherTurn) \<and> (\<forall>n. \<exists>k\<ge>n. \<exists>r. \<sigma> k = AcceptTurn r)"

text \<open>The goroutine has run after the end of the context.\<close>

definition close_called :: "run_event list \<Rightarrow> bool" where
  "close_called es \<longleftrightarrow> (\<exists>pre post. es = pre @ ContextEnds # post \<and> WatcherTurn \<in> set post)"

lemma arrived_snoc: "arrived (es @ [e]) = arrived es @ (case e of AcceptTurn (Connection c) \<Rightarrow> [c] | _ \<Rightarrow> [])"
  by (simp add: arrived_def)

lemma close_called_snoc:
  "close_called (es @ [e]) \<longleftrightarrow> close_called es \<or> (e = WatcherTurn \<and> ContextEnds \<in> set es)"
proof
  assume "close_called (es @ [e])"
  then obtain pre post where es: "es @ [e] = pre @ ContextEnds # post" "WatcherTurn \<in> set post" by (auto simp: close_called_def)
  then obtain post' where "post = post' @ [e]" "es = pre @ ContextEnds # post'"
    by (cases post rule: rev_cases) auto
  with es(2) show "close_called es \<or> (e = WatcherTurn \<and> ContextEnds \<in> set es)" by (auto simp: close_called_def)
next
  assume "close_called es \<or> (e = WatcherTurn \<and> ContextEnds \<in> set es)"
  then show "close_called (es @ [e])"
  proof
    assume "close_called es"
    then obtain pre post where "es = pre @ ContextEnds # post" "WatcherTurn \<in> set post" by (auto simp: close_called_def)
    then show ?thesis unfolding close_called_def by (intro exI [of _ pre] exI [of _ "post @ [e]"]) simp
  next
    assume "e = WatcherTurn \<and> ContextEnds \<in> set es"
    then obtain pre post where "es @ [e] = pre @ ContextEnds # (post @ [e])" "e = WatcherTurn" by (auto dest: split_list)
    then show ?thesis unfolding close_called_def by (intro exI [of _ pre] exI [of _ "post @ [e]"]) simp
  qed
qed

lemma run_events_snoc:
  "run_events (es @ [e]) s = (let t = run_events es s in case rn_result t of Some _ \<Rightarrow> t | None \<Rightarrow> run_step e t)"
  by (induction es arbitrary: s) (auto simp: Let_def split: option.splits)

lemma server_run_snoc:
  "server_run sv (es @ [e]) = (let t = server_run sv es in case rn_result t of Some _ \<Rightarrow> t | None \<Rightarrow> run_step e t)"
  by (simp add: server_run_def run_events_snoc)

text \<open>As long as \<^verbatim>\<open>Run\<close> has not returned, its state tells what has happened.\<close>

lemma running_state:
  "rn_result (server_run sv es) = None \<Longrightarrow>
     rn_served (server_run sv es) = arrived es \<and> (rn_ended (server_run sv es) \<longleftrightarrow> ContextEnds \<in> set es) \<and>
     (rn_closed (server_run sv es) \<longleftrightarrow> close_called es) \<and> (rn_watching (server_run sv es) \<longleftrightarrow> \<not> close_called es)"
proof (induction es rule: rev_induct)
  case Nil
  show ?case by (simp add: server_run_def run_start_def arrived_def close_called_def)
next
  case (snoc e es)
  let ?t = "server_run sv es"
  have t: "rn_result ?t = None" "server_run sv (es @ [e]) = run_step e ?t"
    using snoc.prems by (auto simp: server_run_snoc Let_def split: option.splits)
  note IH = snoc.IH [OF t(1)]
  show ?case
  proof (cases e)
    case ContextEnds
    with IH t(2) show ?thesis by (auto simp: arrived_snoc close_called_snoc)
  next
    case WatcherTurn
    with IH t(2) show ?thesis by (auto simp: arrived_snoc close_called_snoc watcher_turn_def)
  next
    case (AcceptTurn r)
    with IH t snoc.prems show ?thesis
      by (auto simp: arrived_snoc close_called_snoc serve_turn_def split: accept_result.splits if_splits)
  qed
qed

text \<open>How \<^verbatim>\<open>Run\<close> returns.\<close>

lemma returned_state:
  "rn_result (server_run sv es) = Some err \<Longrightarrow>
     \<exists>pre r post. es = pre @ AcceptTurn r # post \<and> rn_served (server_run sv es) = arrived pre \<and>
       (r = Permanent err \<and> \<not> close_called pre \<or> err = ErrServerClosed \<and> close_called pre)"
proof (induction es rule: rev_induct)
  case Nil
  then show ?case by (simp add: server_run_def run_start_def)
next
  case (snoc e es)
  let ?t = "server_run sv es"
  show ?case
  proof (cases "rn_result ?t")
    case (Some err')
    then have "server_run sv (es @ [e]) = ?t" by (simp add: server_run_snoc Let_def)
    with snoc obtain pre r post where "es = pre @ AcceptTurn r # post" "rn_served (server_run sv (es @ [e])) = arrived pre"
      "r = Permanent err \<and> \<not> close_called pre \<or> err = ErrServerClosed \<and> close_called pre" by auto
    then show ?thesis by (intro exI [of _ pre] exI [of _ r] exI [of _ "post @ [e]"]) simp
  next
    case None
    then have step: "server_run sv (es @ [e]) = run_step e ?t" by (simp add: server_run_snoc Let_def)
    note run = running_state [OF None]
    obtain r where e: "e = AcceptTurn r"
      using snoc.prems None step by (cases e) (auto simp: watcher_turn_def split: if_splits)
    have "rn_served (server_run sv (es @ [e])) = arrived es" "r = Permanent err \<and> \<not> close_called es \<or> err = ErrServerClosed \<and> close_called es"
      using snoc.prems None step e run by (auto simp: serve_turn_def split: accept_result.splits if_splits)
    with e show ?thesis by (intro exI [of _ es] exI [of _ r] exI [of _ "[]"]) simp
  qed
qed

lemma returned_stays: "rn_result (server_run sv es) \<noteq> None \<Longrightarrow> server_run sv (es @ es') = server_run sv es"
  by (induction es' rule: rev_induct) (auto simp: server_run_snoc Let_def simp flip: append_assoc)

lemma closed_returns: "close_called es \<Longrightarrow> rn_result (server_run sv (es @ [AcceptTurn r])) \<noteq> None"
  using running_state [of sv es]
  by (cases "rn_result (server_run sv es)") (auto simp: server_run_snoc Let_def serve_turn_def)

text \<open>
  C24. The server runs until it is told to stop, and then it stops. Let the goroutine of \<^verbatim>\<open>Run\<close> and the loop of
  \<^verbatim>\<open>Serve\<close> be scheduled again and again, in whatever order, and let the context end at some time: then \<^verbatim>\<open>Run\<close> returns. In every
  schedule it returns only for one of two reasons: \<^verbatim>\<open>Accept\<close> has failed for good while the server was not closed, and \<^verbatim>\<open>Run\<close>
  returns its error, or the goroutine has closed the server after the end of the context, and \<^verbatim>\<open>Run\<close> returns
  \<^verbatim>\<open>ErrServerClosed\<close>. Exactly the connections accepted before that were handed to handlers, in order.
\<close>

theorem server_run_stops:
  "(fair_schedule \<sigma> \<and> ContextEnds \<in> range \<sigma> \<longrightarrow> (\<exists>n. rn_result (server_run sv (map \<sigma> [0..<n])) \<noteq> None)) \<and>
   (\<forall>err. rn_result (server_run sv es) = Some err \<longrightarrow>
      (\<exists>pre r post. es = pre @ AcceptTurn r # post \<and> rn_served (server_run sv es) = arrived pre \<and>
         (r = Permanent err \<and> \<not> close_called pre \<or> err = ErrServerClosed \<and> close_called pre)))"
proof (intro conjI impI allI)
  assume fair: "fair_schedule \<sigma> \<and> ContextEnds \<in> range \<sigma>"
  then obtain i where i: "\<sigma> i = ContextEnds" by (metis rangeE)
  from fair obtain j where j: "Suc i \<le> j" "\<sigma> j = WatcherTurn" by (auto simp: fair_schedule_def)
  from fair obtain k r where k: "Suc j \<le> k" "\<sigma> k = AcceptTurn r" unfolding fair_schedule_def by blast
  from j k have "i < k" by simp
  then have "[0..<k] = [0..<i] @ i # [Suc i..<k]"
    using upt_add_eq_append [of 0 i "k - i"] by (simp add: upt_conv_Cons)
  then have "map \<sigma> [0..<k] = map \<sigma> [0..<i] @ ContextEnds # map \<sigma> [Suc i..<k]" using i by simp
  moreover have "WatcherTurn \<in> set (map \<sigma> [Suc i..<k])" using j k by force
  ultimately have "close_called (map \<sigma> [0..<k])" unfolding close_called_def by blast
  from closed_returns [OF this, of sv r] k(2) have "rn_result (server_run sv (map \<sigma> [0..<Suc k])) \<noteq> None" by simp
  then show "\<exists>n. rn_result (server_run sv (map \<sigma> [0..<n])) \<noteq> None" by blast
qed (rule returned_state)

definition sample_schedule :: "nat \<Rightarrow> run_event" where
  "sample_schedule n =
     (if n = 0 then AcceptTurn (Connection ''a'') else if n = 1 then ContextEnds
      else if even n then WatcherTurn else AcceptTurn NoConnection)"

theorem server_run_stops_witness:
  "(\<exists>n. rn_result (server_run sample_server (map sample_schedule [0..<n])) \<noteq> None) \<and>
   rn_served (server_run sample_server [AcceptTurn (Connection ''a''), ContextEnds, WatcherTurn, AcceptTurn NoConnection]) = [''a''] \<and>
   rn_result (server_run sample_server [AcceptTurn (Connection ''a''), ContextEnds, WatcherTurn, AcceptTurn NoConnection]) = Some ErrServerClosed"
proof -
  have "\<exists>k\<ge>n. sample_schedule k = WatcherTurn" "\<exists>k\<ge>n. \<exists>r. sample_schedule k = AcceptTurn r" for n
    by (rule exI [of _ "2 * n + 2"], simp add: sample_schedule_def) (rule exI [of _ "2 * n + 3"], simp add: sample_schedule_def)
  then have "fair_schedule sample_schedule" by (simp add: fair_schedule_def)
  moreover have "sample_schedule 1 = ContextEnds" by (simp add: sample_schedule_def)
  then have "ContextEnds \<in> range sample_schedule" by (metis rangeI)
  ultimately show ?thesis
    using server_run_stops [of sample_schedule sample_server "[]"]
    by (simp add: server_run_def run_start_def watcher_turn_def serve_turn_def)
qed

section \<open>The process ends in order\<close>

lemma otel_init_outcome:
  assumes "otel_init env = (as, r)"
  shows "(\<forall>p b. ShutDown p b \<notin> set as)"
    and "r = Inr fin \<Longrightarrow> fin = [MeterProvider, TracerProvider, LoggerProvider] \<and> Registered ` set fin \<subseteq> set as"
  using assms
  by (auto simp: otel_init_def otel_endpoint_def otel_providers_def split: option.splits prod.splits)

lemma execute_outcome:
  assumes "execute env = Some (bs, err, ended)"
  shows "\<forall>p b. ShutDown p b \<notin> set bs" and "me_command env = RunCommand u path \<Longrightarrow> err \<noteq> None"
proof -
  show "\<forall>p b. ShutDown p b \<notin> set bs"
    using assms by (auto simp: execute_def pre_run_def Let_def split: command.splits prod.splits sum.splits option.splits if_splits)
  show "err \<noteq> None" if "me_command env = RunCommand u path"
    using assms that by (cases err) (auto simp: execute_def Let_def split: prod.splits sum.splits option.splits)
qed

text \<open>
  C23. The process cleans up, and never reports success for a server. When \<^verbatim>\<open>main\<close> ends after telemetry was set up, on every
  path each of the three providers is shut down exactly once, in the order of their set-up and after everything that is
  logged; signals are released last. If the set-up failed, nothing is shut down, not even the providers that
  were already registered. The \<^verbatim>\<open>run\<close> command always ends with exit status 1: even when it is stopped by a signal, its error is
  \<^verbatim>\<open>ErrServerClosed\<close>, which is logged as an error.
\<close>

theorem main_cleans_up:
  assumes "main_impl env = Some (tr, ok)"
  shows "\<exists>pre ended. tr = pre @ (case otel_init (me_otel env) of
        (_, Inl _) \<Rightarrow> [] | (_, Inr _) \<Rightarrow> map (\<lambda>p. ShutDown p ended) [MeterProvider, TracerProvider, LoggerProvider]) @ [StoppedSignals] \<and>
      (\<forall>p b. ShutDown p b \<notin> set pre) \<and>
      (\<forall>fin as. otel_init (me_otel env) = (as, Inr fin) \<longrightarrow> set as \<subseteq> set pre \<and> Registered ` {MeterProvider, TracerProvider, LoggerProvider} \<subseteq> set pre) \<and>
      (\<forall>u path. me_command env = RunCommand u path \<longrightarrow> exit_status ok = 1)"
proof -
  obtain as r where i: "otel_init (me_otel env) = (as, r)" by fastforce
  note out = otel_init_outcome [OF i]
  show ?thesis
  proof (cases r)
    case (Inl e)
    with assms i out(1) show ?thesis
      by (intro exI [of _ "NotifySignals # as @ [PrintedError ''failed to initialize OpenTelemetry'' e]"])
        (auto simp: main_impl_def exit_status_def)
  next
    case (Inr fin)
    then have fin: "fin = [MeterProvider, TracerProvider, LoggerProvider]" "Registered ` set fin \<subseteq> set as" using out(2) by auto
    show ?thesis
    proof (cases "me_logger env")
      case (Some e)
      with assms i Inr out(1) fin show ?thesis
        by (intro exI [of _ "NotifySignals # as @ [PrintedError [] e]"] exI [of _ "me_signalled env"])
          (auto simp: main_impl_def exit_status_def otel_deinit_def)
    next
      case None
      with assms i Inr obtain bs err ended where ex: "execute env = Some (bs, err, ended)"
        and tr: "tr = NotifySignals # as @ [ReplacedGlobals] @ bs @ (case err of None \<Rightarrow> [] | Some e \<Rightarrow> [LoggedError e]) @
          [SyncedLogger] @ otel_deinit fin ended @ [StoppedSignals]" and ok: "ok = (err = None)"
        by (auto simp: main_impl_def split: option.splits)
      from execute_outcome [OF ex] out(1) fin ok tr i Inr show ?thesis
        by (intro exI [of _ "NotifySignals # as @ [ReplacedGlobals] @ bs @ (case err of None \<Rightarrow> [] | Some e \<Rightarrow> [LoggedError e]) @ [SyncedLogger]"]
            exI [of _ ended])
          (auto simp: exit_status_def otel_deinit_def split: option.splits)
    qed
  qed
qed

definition sample_main :: "(unit, unit, unit, unit, unit, unit) main_env" where
  "sample_main =
     \<lparr>me_otel = \<lparr>oe_endpoint = None, oe_setenv = None, oe_merge_default = None, oe_merge_environment = None, oe_exporter = (\<lambda>_. None)\<rparr>,
      me_logger = None, me_debug = True, me_command = RunCommand ''admin'' ''/etc/chacha.yml'', me_system = sample_system,
      me_disk = (\<lambda>_. noop_ops), me_process = root_process, me_events = [AcceptTurn (Connection ''a''), ContextEnds, WatcherTurn, AcceptTurn NoConnection], me_fds = [],
      me_serve = \<lparr>se_file_conn = Inr 4, se_close = None, se_is_unix = True\<rparr>, me_reads = [], me_signalled = False\<rparr>"

theorem main_cleans_up_witness:
  "\<exists>tr pre. main_impl sample_main = Some (tr, False) \<and> LoggedError ErrServerClosed \<in> set tr \<and>
     (\<exists>ended. tr = pre @ map (\<lambda>p. ShutDown p ended) [MeterProvider, TracerProvider, LoggerProvider] @ [StoppedSignals])"
proof -
  obtain as where i: "otel_init (me_otel sample_main) = (as, Inr [MeterProvider, TracerProvider, LoggerProvider])"
    by (simp add: otel_init_def otel_endpoint_def otel_providers_def sample_main_def)
  obtain tr sv where r: "run sample_system (\<lambda>_. noop_ops :: (unit, unit) cache_ops) ''admin'' ''/etc/chacha.yml'' root_process = (tr, Inr sv)"
    using sample_run by blast
  have env: "me_logger sample_main = None" "me_command sample_main = RunCommand ''admin'' ''/etc/chacha.yml''" "me_system sample_main = sample_system"
    "me_disk sample_main = (\<lambda>_. noop_ops)" "me_process sample_main = root_process" "me_events sample_main = [AcceptTurn (Connection ''a''), ContextEnds, WatcherTurn, AcceptTurn NoConnection]"
    by (simp_all add: sample_main_def)
  obtain bs ended where "execute sample_main = Some (bs, Some ErrServerClosed, ended)"
    by (simp add: execute_def env r server_run_def run_start_def watcher_turn_def serve_turn_def)
  then obtain t where t: "main_impl sample_main = Some (t, False)" and err: "LoggedError ErrServerClosed \<in> set t"
    by (auto simp: main_impl_def i env)
  from main_cleans_up [OF t] i obtain pre ended where
    "t = pre @ map (\<lambda>p. ShutDown p ended) [MeterProvider, TracerProvider, LoggerProvider] @ [StoppedSignals]" by auto
  with t err show ?thesis by blast
qed

end
